(* ===== verification/FC_Prelude.thy ===== *)
theory FC_Prelude
  imports Complex_Main "HOL-Library.Char_ord" "HOL-Library.List_Lexorder"
    "HOL-Library.Product_Lexorder"
begin

text \<open>
  What every component of the development shares: results of code that can raise
  (\<open>'e + 'a\<close>, the error on the left), the character classes the source's regular expressions
  use, and database tables as lists of rows in rowid order, with the lemmas that carry the
  component proofs.  A Python \<open>bytes\<close> value and an ASCII \<open>str\<close> are both a \<^typ>\<open>string\<close>.
\<close>

named_theorems res_simps \<open>equations of the result combinators\<close>
named_theorems table_simps \<open>rewriting for rows of a table\<close>

type_synonym ('e, 'a) res = "'e + 'a"

section \<open>Results\<close>

text \<open>\<open>bind_res m f\<close> is a call whose exception propagates; \<open>check c e\<close> is
  \<open>if not c: raise e\<close>.\<close>

definition bind_res :: "('e, 'a) res \<Rightarrow> ('a \<Rightarrow> ('e, 'b) res) \<Rightarrow> ('e, 'b) res" where
  "bind_res m f = (case m of Inl e \<Rightarrow> Inl e | Inr x \<Rightarrow> f x)"

definition check :: "bool \<Rightarrow> 'e \<Rightarrow> ('e, unit) res" where
  "check c e = (if c then Inr () else Inl e)"

definition is_ok :: "('e, 'a) res \<Rightarrow> bool" where
  "is_ok m = (case m of Inl _ \<Rightarrow> False | Inr _ \<Rightarrow> True)"

definition map_err :: "('e \<Rightarrow> 'f) \<Rightarrow> ('e, 'a) res \<Rightarrow> ('f, 'a) res" where
  "map_err f m = (case m of Inl e \<Rightarrow> Inl (f e) | Inr x \<Rightarrow> Inr x)"

text \<open>A loop that validates the elements one after the other and stops at the first error.\<close>

fun check_all :: "('a \<Rightarrow> ('e, unit) res) \<Rightarrow> 'a list \<Rightarrow> ('e, unit) res" where
  "check_all f [] = Inr ()"
| "check_all f (x # xs) = bind_res (f x) (\<lambda>_. check_all f xs)"

section \<open>Character classes\<close>

definition is_lower :: "char \<Rightarrow> bool" where
  "is_lower c \<longleftrightarrow> 97 \<le> (of_char c :: nat) \<and> (of_char c :: nat) \<le> 122"

definition is_upper :: "char \<Rightarrow> bool" where
  "is_upper c \<longleftrightarrow> 65 \<le> (of_char c :: nat) \<and> (of_char c :: nat) \<le> 90"

definition is_digit :: "char \<Rightarrow> bool" where
  "is_digit c \<longleftrightarrow> 48 \<le> (of_char c :: nat) \<and> (of_char c :: nat) \<le> 57"

definition is_hex :: "char \<Rightarrow> bool" where
  "is_hex c \<longleftrightarrow> is_digit c \<or> (97 \<le> (of_char c :: nat) \<and> (of_char c :: nat) \<le> 102)"

text \<open>\<open>[A-Za-z0-9_-]\<close>\<close>

definition is_word_dash :: "char \<Rightarrow> bool" where
  "is_word_dash c \<longleftrightarrow> is_lower c \<or> is_upper c \<or> is_digit c \<or> c = CHR ''_'' \<or> c = CHR ''-''"

text \<open>\<open>re.fullmatch('[class]{lo,hi}', s)\<close>\<close>

definition fullmatch :: "(char \<Rightarrow> bool) \<Rightarrow> nat \<Rightarrow> nat \<Rightarrow> string \<Rightarrow> bool" where
  "fullmatch cls lo hi s \<longleftrightarrow> lo \<le> length s \<and> length s \<le> hi \<and> list_all cls s"

text \<open>\<open>str\<close> of an integer\<close>

fun str_nat :: "nat \<Rightarrow> string" where
  "str_nat n = (if n < 10 then [char_of (48 + n)] else str_nat (n div 10) @ [char_of (48 + n mod 10)])"

declare str_nat.simps [simp del]

definition str_int :: "int \<Rightarrow> string" where
  "str_int i = (if i < 0 then CHR ''-'' # str_nat (nat (- i)) else str_nat (nat i))"

section \<open>Tables\<close>

text \<open>The first row that satisfies a condition (\<open>SELECT ... fetchone()\<close> on a key), the update
  of every row that does, and the number of them.\<close>

definition row :: "('r \<Rightarrow> bool) \<Rightarrow> 'r list \<Rightarrow> 'r option" where
  "row p t = List.find p t"

definition update_rows :: "('r \<Rightarrow> bool) \<Rightarrow> ('r \<Rightarrow> 'r) \<Rightarrow> 'r list \<Rightarrow> 'r list" where
  "update_rows p f t = map (\<lambda>r. if p r then f r else r) t"

definition count_rows :: "('r \<Rightarrow> bool) \<Rightarrow> 'r list \<Rightarrow> int" where
  "count_rows p t = int (length (filter p t))"

section \<open>Lemmas\<close>

lemma bind_res_simps [simp, res_simps]:
  "bind_res (Inl e) f = Inl e" "bind_res (Inr x) f = f x"
  by (simp_all add: bind_res_def)

lemma bind_res_Inr_iff [simp]:
  "bind_res m f = Inr y \<longleftrightarrow> (\<exists>x. m = Inr x \<and> f x = Inr y)"
  by (cases m) (auto simp: bind_res_def)

lemma bind_res_Inl_iff:
  "bind_res m f = Inl e \<longleftrightarrow> m = Inl e \<or> (\<exists>x. m = Inr x \<and> f x = Inl e)"
  by (cases m) (auto simp: bind_res_def)

lemma check_Inr_iff [simp]: "check c e = Inr u \<longleftrightarrow> c"
  by (simp add: check_def)

lemma check_Inl_iff [simp]: "check c e = Inl e' \<longleftrightarrow> \<not> c \<and> e' = e"
  by (auto simp: check_def)

lemma check_True [simp, res_simps]: "check True e = Inr ()"
  by (simp add: check_def)

lemma check_False [simp, res_simps]: "check False e = Inl e"
  by (simp add: check_def)

lemma case_option_Inr_iff [simp]:
  "(case x of None \<Rightarrow> Inl e | Some y \<Rightarrow> f y) = Inr z \<longleftrightarrow> (\<exists>y. x = Some y \<and> f y = Inr z)"
  by (cases x) simp_all

lemma is_ok_simps [simp, res_simps]: "is_ok (Inr x)" "\<not> is_ok (Inl e)"
  by (simp_all add: is_ok_def)

lemma map_err_simps [simp, res_simps]: "map_err f (Inl e) = Inl (f e)" "map_err f (Inr x) = Inr x"
  by (simp_all add: map_err_def)

lemma map_err_Inr_iff [simp]: "map_err f m = Inr x \<longleftrightarrow> m = Inr x"
  by (cases m) auto

lemma check_all_Inr_iff [simp]:
  "check_all f xs = Inr u \<longleftrightarrow> (\<forall>x \<in> set xs. f x = Inr ())"
  by (induction xs) auto

lemma row_Some_iff: "row p t = Some r \<Longrightarrow> r \<in> set t \<and> p r"
  by (auto simp: row_def find_Some_iff)

lemma row_SomeD [dest]: "row p t = Some r \<Longrightarrow> r \<in> set t" "row p t = Some r \<Longrightarrow> p r"
  by (auto dest: row_Some_iff)

lemma row_None_iff: "row p t = None \<longleftrightarrow> (\<forall>r \<in> set t. \<not> p r)"
  by (auto simp: row_def find_None_iff)

lemma row_simps [simp]:
  "row p [] = None" "row p (r # t) = (if p r then Some r else row p t)"
  by (simp_all add: row_def)

lemma row_key_unique:
  assumes "distinct (map k t)" and "r \<in> set t" and "\<And>x. p x \<longleftrightarrow> k x = k r"
  shows "row p t = Some r"
proof (cases "row p t")
  case None
  with assms(2,3) show ?thesis by (auto simp: row_None_iff)
next
  case (Some r')
  then have "r' \<in> set t" and "k r' = k r" using assms(3) by auto
  with assms(1,2) Some show ?thesis by (metis inj_on_eq_iff distinct_map)
qed

lemma update_rows_simps [simp]:
  "update_rows p f [] = []"
  "update_rows p f (r # t) = (if p r then f r else r) # update_rows p f t"
  by (simp_all add: update_rows_def)

lemma in_update_rows: "x \<in> set (update_rows p f t) \<longleftrightarrow> (\<exists>r \<in> set t. x = (if p r then f r else r))"
  by (auto simp: update_rows_def)

lemma in_set_map_filter: "y \<in> set (List.map_filter f xs) \<longleftrightarrow> (\<exists>x \<in> set xs. f x = Some y)"
  by (induction xs) (auto simp: List.map_filter_simps split: option.splits)

lemma row_append: "row p (t @ u) = (case row p t of None \<Rightarrow> row p u | Some r \<Rightarrow> Some r)"
  by (induction t) auto

lemma row_update_rows:
  assumes "\<And>r. k (f r) = k r"
  shows "row (\<lambda>r. k r = x) (update_rows (\<lambda>r. k r = y) f t) =
     (if x = y then map_option f (row (\<lambda>r. k r = x) t) else row (\<lambda>r. k r = x) t)"
  by (induction t) (auto simp: assms)

lemma row_eq_None_key: "row (\<lambda>r. k r = x) t = None \<longleftrightarrow> x \<notin> k ` set t"
  by (auto simp: row_None_iff)

lemma length_update_rows [simp]: "length (update_rows p f t) = length t"
  by (simp add: update_rows_def)

lemma map_update_rows:
  assumes "\<And>r. r \<in> set t \<Longrightarrow> p r \<Longrightarrow> k (f r) = k r"
  shows "map k (update_rows p f t) = map k t"
  using assms by (induction t) auto

lemma count_rows_Nil [simp]: "count_rows p [] = 0"
  by (simp add: count_rows_def)

lemma count_rows_Cons [simp]: "count_rows p (r # t) = (if p r then 1 else 0) + count_rows p t"
  by (simp add: count_rows_def)

lemma count_rows_append [simp]: "count_rows p (t @ u) = count_rows p t + count_rows p u"
  by (simp add: count_rows_def)

lemma count_rows_nonneg [simp]: "0 \<le> count_rows p t"
  by (simp add: count_rows_def)

lemma count_rows_mono:
  "(\<And>r. r \<in> set t \<Longrightarrow> p r \<Longrightarrow> q r) \<Longrightarrow> count_rows p t \<le> count_rows q t"
  by (induction t) auto

end
