(* ===== verification/Py_Bytes.thy ===== *)
theory Py_Bytes
  imports FC_Prelude
begin

text \<open>
  The encodings of the Python standard library that the source's wire formats rest on: base64
  with \<open>validate=True\<close>, \<open>bytes.hex\<close> and \<open>bytes.fromhex\<close>, little and big endian integers, and
  the canonical-encoding checks the source builds from them.
\<close>

section \<open>Definitions\<close>

abbreviation byte_of :: "char \<Rightarrow> nat" where
  "byte_of c \<equiv> of_char c"

abbreviation byte_char :: "nat \<Rightarrow> char" where
  "byte_char n \<equiv> char_of n"

definition b64_char :: "nat \<Rightarrow> char" where
  "b64_char n = byte_char (if n < 26 then n + 65 else if n < 52 then n + 71 else
     if n < 62 then n - 4 else if n = 62 then 43 else 47)"

definition b64_val :: "char \<Rightarrow> nat option" where
  "b64_val c = (let n = byte_of c in
     if 65 \<le> n \<and> n \<le> 90 then Some (n - 65) else if 97 \<le> n \<and> n \<le> 122 then Some (n - 71) else
     if 48 \<le> n \<and> n \<le> 57 then Some (n + 4) else if n = 43 then Some 62 else
     if n = 47 then Some 63 else None)"

fun b64encode :: "string \<Rightarrow> string" where
  "b64encode [] = []"
| "b64encode [a] = [b64_char (byte_of a div 4), b64_char (byte_of a mod 4 * 16), CHR ''='', CHR ''='']"
| "b64encode [a, b] =
     [b64_char (byte_of a div 4), b64_char (byte_of a mod 4 * 16 + byte_of b div 16),
      b64_char (byte_of b mod 16 * 4), CHR ''='']"
| "b64encode (a # b # c # rest) =
     b64_char (byte_of a div 4) # b64_char (byte_of a mod 4 * 16 + byte_of b div 16) #
     b64_char (byte_of b mod 16 * 4 + byte_of c div 64) # b64_char (byte_of c mod 64) # b64encode rest"

text \<open>\<open>base64.b64decode(s, validate=True)\<close>; \<open>None\<close> is the \<open>binascii.Error\<close> it raises.\<close>

fun b64decode :: "string \<Rightarrow> string option" where
  "b64decode [] = Some []"
| "b64decode (w # x # y # z # rest) =
     (if rest = [] \<and> y = CHR ''='' \<and> z = CHR ''='' then
        Option.bind (b64_val w) (\<lambda>i. Option.bind (b64_val x) (\<lambda>j.
          Some [byte_char (i * 4 + j div 16)]))
      else if rest = [] \<and> z = CHR ''='' then
        Option.bind (b64_val w) (\<lambda>i. Option.bind (b64_val x) (\<lambda>j. Option.bind (b64_val y) (\<lambda>k.
          Some [byte_char (i * 4 + j div 16), byte_char (j mod 16 * 16 + k div 4)])))
      else
        Option.bind (b64_val w) (\<lambda>i. Option.bind (b64_val x) (\<lambda>j. Option.bind (b64_val y) (\<lambda>k.
        Option.bind (b64_val z) (\<lambda>l. Option.bind (b64decode rest) (\<lambda>bs.
          Some (byte_char (i * 4 + j div 16) # byte_char (j mod 16 * 16 + k div 4) #
                byte_char (k mod 4 * 64 + l) # bs)))))))"
| "b64decode _ = None"

text \<open>Decode, check the size and that the text is the canonical encoding of what it decodes to.\<close>

definition decode_canonical :: "nat \<Rightarrow> string \<Rightarrow> string option" where
  "decode_canonical n value =
     Option.bind (b64decode value) (\<lambda>raw.
       if length raw = n \<and> b64encode raw = value then Some raw else None)"

text \<open>\<open>_decode(value, size)\<close> of \<open>device_identity/device.py\<close>, with the message of the ValueError.\<close>

definition decode_field :: "nat \<Rightarrow> string \<Rightarrow> (string, string) res" where
  "decode_field n value =
     (if 256 < length value then Inl ''invalid public field''
      else case b64decode value of
             None \<Rightarrow> Inl ''invalid public encoding''
           | Some raw \<Rightarrow> if length raw \<noteq> n \<or> b64encode raw \<noteq> value then Inl ''invalid public field'' else Inr raw)"

definition hex_digit :: "nat \<Rightarrow> char" where
  "hex_digit n = byte_char (if n < 10 then n + 48 else n + 87)"

definition hex_val :: "char \<Rightarrow> nat option" where
  "hex_val c = (let n = byte_of c in
     if 48 \<le> n \<and> n \<le> 57 then Some (n - 48) else if 97 \<le> n \<and> n \<le> 102 then Some (n - 87) else
     if 65 \<le> n \<and> n \<le> 70 then Some (n - 55) else None)"

definition bytes_hex :: "string \<Rightarrow> string" where
  "bytes_hex bs = concat (map (\<lambda>b. [hex_digit (byte_of b div 16), hex_digit (byte_of b mod 16)]) bs)"

definition is_space :: "char \<Rightarrow> bool" where
  "is_space c \<longleftrightarrow> byte_of c = 32 \<or> (9 \<le> byte_of c \<and> byte_of c \<le> 13)"

text \<open>\<open>bytes.fromhex\<close> skips ASCII white space between the bytes; \<open>None\<close> is its ValueError.\<close>

function fromhex :: "string \<Rightarrow> string option" where
  "fromhex s =
     (case dropWhile is_space s of
        [] \<Rightarrow> Some []
      | [_] \<Rightarrow> None
      | a # b # rest \<Rightarrow>
          Option.bind (hex_val a) (\<lambda>i. Option.bind (hex_val b) (\<lambda>j.
          Option.bind (fromhex rest) (\<lambda>bs. Some (byte_char (i * 16 + j) # bs)))))"
  by pat_completeness auto
termination
proof (relation "measure length", goal_cases)
  case (2 s a x b rest i j)
  have "length (dropWhile is_space s) \<le> length s" by (rule length_dropWhile_le)
  with 2 show ?case by simp
qed simp

text \<open>\<open>bytes.fromhex(s).hex() == s\<close>, false also where \<open>fromhex\<close> raises.\<close>

definition canonical_hex :: "string \<Rightarrow> bool" where
  "canonical_hex s = (case fromhex s of None \<Rightarrow> False | Some raw \<Rightarrow> bytes_hex raw = s)"

text \<open>\<open>struct.unpack_from('<I', ...)\<close> and its kin, \<open>int.from_bytes(_, 'big')\<close>.\<close>

fun le_int :: "string \<Rightarrow> nat" where
  "le_int [] = 0"
| "le_int (b # bs) = byte_of b + 256 * le_int bs"

fun le_bytes :: "nat \<Rightarrow> nat \<Rightarrow> string" where
  "le_bytes 0 n = []"
| "le_bytes (Suc w) n = byte_char (n mod 256) # le_bytes w (n div 256)"

definition be_int :: "string \<Rightarrow> nat" where
  "be_int bs = le_int (rev bs)"

declare fromhex.simps [simp del]

section \<open>Round trips\<close>

lemma byte_lt [simp]: "byte_of c < 256"
  by simp

lemma byte_char_inverse: "n < 256 \<Longrightarrow> byte_of (byte_char n) = n"
  by simp

lemma b64_val_char: "n < 64 \<Longrightarrow> b64_val (b64_char n) = Some n"
  by (auto simp: b64_val_def b64_char_def Let_def byte_char_inverse)

lemma b64_char_not_pad: "n < 64 \<Longrightarrow> b64_char n \<noteq> CHR ''=''"
  using b64_val_char [of n] by (auto simp: b64_val_def)

lemma b64_parts1:
  "byte_of a div 4 < 64" "byte_of a mod 4 * 16 < 64" "byte_of a mod 16 * 4 < 64" "byte_of a mod 64 < 64"
  using byte_lt [of a] by linarith+

lemma b64_parts2:
  "byte_of a mod 4 * 16 + byte_of b div 16 < 64" "byte_of a mod 16 * 4 + byte_of b div 64 < 64"
  using byte_lt [of b] by linarith+

lemma b64_join2:
  "byte_of b div 16 div 16 = 0" "byte_of b div 16 mod 16 = byte_of b div 16"
  "byte_of b div 64 div 4 = 0" "byte_of b div 64 mod 4 = byte_of b div 64"
proof -
  have "byte_of b div 16 < 16" "byte_of b div 64 < 4"
    using byte_lt [of b] by linarith+
  then show "byte_of b div 16 div 16 = 0" "byte_of b div 16 mod 16 = byte_of b div 16"
    "byte_of b div 64 div 4 = 0" "byte_of b div 64 mod 4 = byte_of b div 64"
    by simp_all
qed

lemmas b64_arith = b64_parts1 b64_parts2 b64_join2 b64_val_char b64_char_not_pad

lemma b64decode_encode: "b64decode (b64encode bs) = Some bs"
proof (induction bs rule: b64encode.induct)
  case (2 a)
  then show ?case by (simp add: b64_arith)
next
  case (3 a b)
  then show ?case by (simp add: b64_arith)
next
  case (4 a b c rest)
  then show ?case by (simp add: b64_arith)
qed simp

lemma decode_canonical_encode: "decode_canonical (length raw) (b64encode raw) = Some raw"
  by (simp add: decode_canonical_def b64decode_encode)

lemma decode_canonicalD:
  "decode_canonical n v = Some raw \<Longrightarrow> length raw = n \<and> v = b64encode raw"
  by (auto simp: decode_canonical_def Option.bind_eq_Some_conv split: if_splits)

lemma decode_canonical_inj:
  "decode_canonical n v = Some raw \<Longrightarrow> decode_canonical m w = Some raw \<Longrightarrow> v = w"
  by (auto dest!: decode_canonicalD)

lemma decode_fieldD: "decode_field n v = Inr raw \<Longrightarrow> length raw = n \<and> v = b64encode raw"
  by (auto simp: decode_field_def split: if_splits option.splits)

lemma hex_parts [simp]: "byte_of b div 16 < 16"
  using byte_lt [of b] by linarith

lemma hex_val_digit: "n < 16 \<Longrightarrow> hex_val (hex_digit n) = Some n"
  by (auto simp: hex_val_def hex_digit_def Let_def byte_char_inverse)

lemma hex_digit_code [code]: "hex_digit n = (if n < 16 then ''0123456789abcdef'' ! n else byte_char (n + 87))"
proof (cases "n < 16")
  case True
  then have "n \<in> set [0..<16]" by simp
  then have "n \<in> {0, 1, 2, 3, 4, 5, 6, 7, 8, 9, 10, 11, 12, 13, 14, 15}" by (auto simp: upt_rec)
  then show ?thesis unfolding insert_iff empty_iff by (elim disjE; simp only:) (code_simp | simp)+
qed (simp add: hex_digit_def)

lemma hex_digit_class: "n < 16 \<Longrightarrow> is_hex (hex_digit n)"
  by (auto simp: is_hex_def is_digit_def hex_digit_def byte_char_inverse)

lemma hex_digit_not_space: "n < 16 \<Longrightarrow> \<not> is_space (hex_digit n)"
  by (auto simp: is_space_def hex_digit_def byte_char_inverse)

lemma fromhex_hex: "fromhex (bytes_hex bs) = Some bs"
proof (induction bs)
  case Nil
  show ?case by (simp add: bytes_hex_def fromhex.simps)
next
  case (Cons b bs)
  have "fromhex (bytes_hex (b # bs)) =
      fromhex (hex_digit (byte_of b div 16) # hex_digit (byte_of b mod 16) # bytes_hex bs)"
    by (simp add: bytes_hex_def)
  also have "\<dots> = Some (b # bs)"
    by (subst fromhex.simps) (simp add: hex_digit_not_space hex_val_digit Cons.IH)
  finally show ?case .
qed

lemma canonical_hex_iff_range: "canonical_hex s \<longleftrightarrow> (\<exists>raw. s = bytes_hex raw)"
  by (auto simp: canonical_hex_def fromhex_hex split: option.splits)

lemma bytes_hex_class: "list_all is_hex (bytes_hex bs)"
  by (induction bs) (auto simp: bytes_hex_def hex_digit_class)

lemma length_bytes_hex [simp]: "length (bytes_hex bs) = 2 * length bs"
  by (induction bs) (auto simp: bytes_hex_def)

lemma bytes_hex_inj: "bytes_hex a = bytes_hex b \<Longrightarrow> a = b"
  by (metis fromhex_hex option.inject)

lemma length_le_bytes [simp]: "length (le_bytes w n) = w"
  by (induction w arbitrary: n) auto

lemma le_int_bytes: "n < 256 ^ w \<Longrightarrow> le_int (le_bytes w n) = n"
proof (induction w arbitrary: n)
  case (Suc w)
  then have "n div 256 < 256 ^ w" by (simp add: less_mult_imp_div_less mult.commute)
  with Suc.IH [of "n div 256"] show ?case by (simp add: byte_char_inverse)
qed simp

lemma le_bytes_int: "le_bytes (length bs) (le_int bs) = bs"
  by (induction bs) auto

lemma le_int_lt: "le_int bs < 256 ^ length bs"
proof (induction bs)
  case (Cons b bs)
  then have "Suc (le_int bs) \<le> 256 ^ length bs" by simp
  then have "256 * Suc (le_int bs) \<le> 256 * 256 ^ length bs" by (rule mult_le_mono2)
  then have "256 + 256 * le_int bs \<le> 256 * 256 ^ length bs" by simp
  with byte_lt [of b] have "byte_of b + 256 * le_int bs < 256 * 256 ^ length bs" by linarith
  then show ?case by simp
qed simp

end
