(* ===== verification/Json.thy ===== *)
theory Json
  imports Py_Bytes
begin

text \<open>
  \<open>json.dumps(value, separators=(',', ':'))\<close> as the source uses it for what it signs, hashes or
  compares. A character of a \<open>string\<close> is a code point below 256, which \<open>ensure_ascii\<close> prints as itself or
  as an escape. Objects carry their pairs in the order they are printed in, so the callers that pass
  \<open>sort_keys=True\<close> list the keys sorted.

  The main result is that printing is injective, and that no printed value is a proper prefix of a
  printed sequence, so that a digest or a signature over the text fixes every field.
\<close>

section \<open>Printing\<close>

datatype json =
  JNull | JBool bool | JInt int | JStr string | JList "json list" | JObj "(string \<times> json) list"

definition json_char :: "char \<Rightarrow> string" where
  "json_char c =
     (if c = CHR 0x22 then [CHR 0x5C, CHR 0x22]
      else if c = CHR 0x5C then [CHR 0x5C, CHR 0x5C]
      else if c = CHR 0x0A then [CHR 0x5C, CHR ''n'']
      else if c = CHR 0x0D then [CHR 0x5C, CHR ''r'']
      else if c = CHR 0x09 then [CHR 0x5C, CHR ''t'']
      else if c = CHR 0x08 then [CHR 0x5C, CHR ''b'']
      else if c = CHR 0x0C then [CHR 0x5C, CHR ''f'']
      else if 32 \<le> byte_of c \<and> byte_of c \<le> 126 then [c]
      else [CHR 0x5C, CHR ''u'', CHR ''0'', CHR ''0'', hex_digit (byte_of c div 16), hex_digit (byte_of c mod 16)])"

definition json_string :: "string \<Rightarrow> string" where
  "json_string s = CHR 0x22 # concat (map json_char s) @ [CHR 0x22]"

fun commas :: "string list \<Rightarrow> string" where
  "commas [] = []"
| "commas [x] = x"
| "commas (x # y # xs) = x @ CHR '','' # commas (y # xs)"

fun dumps :: "json \<Rightarrow> string" where
  "dumps JNull = ''null''"
| "dumps (JBool b) = (if b then ''true'' else ''false'')"
| "dumps (JInt i) = str_int i"
| "dumps (JStr s) = json_string s"
| "dumps (JList vs) = CHR ''['' # commas (map dumps vs) @ '']''"
| "dumps (JObj kvs) = CHR ''{'' # commas (map (\<lambda>(k, v). json_string k @ CHR '':'' # dumps v) kvs) @ ''}''"

section \<open>Integers\<close>

lemma is_digit_char [simp]: "(n::nat) < 10 \<Longrightarrow> is_digit (char_of (48 + n))"
  by (simp add: is_digit_def)

lemma str_nat_digits: "list_all is_digit (str_nat n)"
proof (induction n rule: str_nat.induct)
  case (1 n)
  then show ?case by (subst str_nat.simps) simp
qed

lemma str_nat_nonempty [simp]: "str_nat n \<noteq> []"
  by (subst str_nat.simps) simp

definition dec_val :: "string \<Rightarrow> nat" where
  "dec_val s = foldl (\<lambda>a c. a * 10 + (byte_of c - 48)) 0 s"

lemma dec_val_str_nat: "dec_val (str_nat n) = n"
proof (induction n rule: str_nat.induct)
  case (1 n)
  then show ?case by (subst str_nat.simps) (simp add: dec_val_def)
qed

lemma str_nat_inj: "str_nat m = str_nat n \<longleftrightarrow> m = n"
  by (metis dec_val_str_nat)

lemma is_digit_minus [simp]: "\<not> is_digit CHR ''-''"
  by (simp add: is_digit_def)

lemma str_nat_not_minus: "str_nat m \<noteq> CHR ''-'' # s"
  using str_nat_digits [of m] by auto

lemma str_int_inj: "str_int i = str_int j \<longleftrightarrow> i = j"
  by (auto simp: str_int_def str_nat_inj str_nat_not_minus dest: sym split: if_splits)

text \<open>What may follow a printed value: nothing, or one of the punctuation characters of JSON.\<close>

definition ends_value :: "string \<Rightarrow> bool" where
  "ends_value r \<longleftrightarrow> r = [] \<or> hd r \<in> {CHR '','', CHR '']'', CHR ''}''}"

lemma ends_value_simps [simp]: "ends_value []" "ends_value (CHR '','' # r)" "ends_value (CHR '']'' # r)" "ends_value (CHR ''}'' # r)"
  by (simp_all add: ends_value_def)

lemma ends_value_not_digit: "ends_value r \<Longrightarrow> r = [] \<or> \<not> is_digit (hd r)"
  by (auto simp: ends_value_def is_digit_def)

lemma span_prefix:
  assumes "list_all p a" "list_all p b" "r = [] \<or> \<not> p (hd r)" "s = [] \<or> \<not> p (hd s)" "a @ r = b @ s"
  shows "a = b \<and> r = s"
proof -
  have "takeWhile p (a @ r) = a" using assms(1,3) by (cases r) (auto simp: list_all_iff)
  moreover have "takeWhile p (b @ s) = b" using assms(2,4) by (cases s) (auto simp: list_all_iff)
  ultimately show ?thesis using assms(5) by auto
qed

lemma str_int_prefix:
  assumes "str_int i @ r = str_int j @ s" "ends_value r" "ends_value s"
  shows "i = j \<and> r = s"
proof -
  let ?p = "\<lambda>c. is_digit c \<or> c = CHR ''-''"
  have "list_all ?p (str_int n)" for n
    using str_nat_digits [of "nat n"] str_nat_digits [of "nat (- n)"] by (auto simp: str_int_def list_all_iff)
  moreover have "x = [] \<or> \<not> ?p (hd x)" if "ends_value x" for x
    using that by (auto simp: ends_value_def is_digit_def)
  ultimately have "str_int i = str_int j \<and> r = s" using assms by (intro span_prefix [of ?p])
  then show ?thesis by (simp add: str_int_inj)
qed

section \<open>Strings\<close>

lemma hex_digit_inj: "m < 16 \<Longrightarrow> n < 16 \<Longrightarrow> hex_digit m = hex_digit n \<Longrightarrow> m = n"
  by (metis hex_val_digit option.inject)

lemma json_char_prefix:
  assumes "json_char c @ r = json_char d @ s"
  shows "c = d \<and> r = s"
proof -
  have "c = d" if "hex_digit (byte_of c div 16) = hex_digit (byte_of d div 16)"
    "hex_digit (byte_of c mod 16) = hex_digit (byte_of d mod 16)"
  proof -
    have "byte_of c div 16 = byte_of d div 16" "byte_of c mod 16 = byte_of d mod 16"
      using that by (auto intro!: hex_digit_inj)
    then have "byte_of c = byte_of d" by (metis div_mult_mod_eq)
    then show ?thesis by simp
  qed
  then show ?thesis using assms by (auto simp: json_char_def split: if_splits)
qed

lemma json_char_not_quote: "json_char c @ r \<noteq> CHR 0x22 # s"
  by (auto simp: json_char_def)

lemma json_chars_prefix:
  "concat (map json_char a) @ CHR 0x22 # r = concat (map json_char b) @ CHR 0x22 # s \<Longrightarrow> a = b \<and> r = s"
proof (induction a arbitrary: b)
  case Nil
  show ?case
  proof (cases b)
    case (Cons d b')
    with Nil json_char_not_quote [of d "concat (map json_char b') @ CHR 0x22 # s" r] show ?thesis by simp
  qed (use Nil in simp)
next
  case (Cons c a)
  show ?case
  proof (cases b)
    case Nil
    with Cons.prems json_char_not_quote [of c "concat (map json_char a) @ CHR 0x22 # r" s] show ?thesis by simp
  next
    case (Cons d b')
    with Cons.prems have "json_char c @ (concat (map json_char a) @ CHR 0x22 # r) =
        json_char d @ (concat (map json_char b') @ CHR 0x22 # s)" by simp
    from json_char_prefix [OF this] have "c = d" "a = b' \<and> r = s" using Cons.IH [of b'] by blast+
    with Cons show ?thesis by simp
  qed
qed

lemma json_string_prefix: "json_string a @ r = json_string b @ s \<Longrightarrow> a = b \<and> r = s"
  using json_chars_prefix [of a r b s] by (simp add: json_string_def)

lemma json_string_inj: "json_string a = json_string b \<longleftrightarrow> a = b"
  using json_string_prefix [of a "[]" b "[]"] by auto

section \<open>Values\<close>

lemma str_int_start: "\<exists>c t. str_int i = c # t \<and> (is_digit c \<or> c = CHR ''-'')"
  using str_nat_digits [of "nat i"] by (cases "str_nat (nat i)") (auto simp: str_int_def)

text \<open>Elements that are printed without ambiguity, and never look like the end of a sequence.\<close>

definition printable :: "('a \<Rightarrow> string) \<Rightarrow> 'a \<Rightarrow> bool" where
  "printable f x \<longleftrightarrow> (\<forall>y r s. f x @ r = f y @ s \<longrightarrow> ends_value r \<longrightarrow> ends_value s \<longrightarrow> x = y \<and> r = s)"

definition opens :: "('a \<Rightarrow> string) \<Rightarrow> bool" where
  "opens f \<longleftrightarrow> (\<forall>x. f x \<noteq> [] \<and> \<not> ends_value (f x))"

lemma opens_append: "opens f \<Longrightarrow> \<not> ends_value (f x @ r)"
  by (simp add: opens_def ends_value_def)

lemma commas_Cons: "commas (x # xs) = x @ (if xs = [] then [] else CHR '','' # commas xs)"
  by (cases xs) simp_all

lemma commas_prefix:
  assumes "\<And>x. x \<in> set xs \<Longrightarrow> printable f x" "opens f" "close \<in> {CHR '']'', CHR ''}''}"
    and "commas (map f xs) @ close # r = commas (map f ys) @ close # s"
  shows "xs = ys \<and> r = s"
  using assms(1,4)
proof (induction xs arbitrary: ys)
  case Nil
  show ?case
  proof (cases ys)
    case (Cons y ys')
    with Nil.prems have "close # r = f y @ ((if ys' = [] then [] else CHR '','' # commas (map f ys')) @ close # s)"
      by (simp add: commas_Cons)
    moreover have "ends_value (close # r)" using assms(3) by auto
    ultimately show ?thesis using opens_append [OF assms(2)] by metis
  qed (use Nil in simp)
next
  case (Cons x xs)
  let ?t = "\<lambda>zs q. (if zs = [] then [] else CHR '','' # commas (map f zs)) @ close # q"
  have ends: "ends_value (?t zs q)" for zs q using assms(3) by auto
  show ?case
  proof (cases ys)
    case Nil
    with Cons.prems have "f x @ ?t xs r = close # s" by (simp add: commas_Cons)
    moreover have "ends_value (close # s)" using assms(3) by auto
    ultimately show ?thesis using opens_append [OF assms(2)] by metis
  next
    case (Cons y ys')
    with Cons.prems have "f x @ ?t xs r = f y @ ?t ys' s" by (simp add: commas_Cons)
    moreover have "printable f x" using Cons.prems(1) by simp
    ultimately have "x = y \<and> ?t xs r = ?t ys' s" using ends unfolding printable_def by blast
    then have "x = y" and t: "?t xs r = ?t ys' s" by blast+
    have "commas (map f xs) @ close # r = commas (map f ys') @ close # s"
      using t assms(3) by (auto split: if_splits)
    with Cons.IH Cons.prems(1) \<open>x = y\<close> \<open>ys = y # ys'\<close> show ?thesis by simp
  qed
qed

text \<open>The kind of a value, and the kind its first character shows.\<close>

fun value_kind :: "json \<Rightarrow> nat" where
  "value_kind JNull = 0"
| "value_kind (JBool b) = (if b then 1 else 2)"
| "value_kind (JInt _) = 3"
| "value_kind (JStr _) = 4"
| "value_kind (JList _) = 5"
| "value_kind (JObj _) = 6"

definition char_kind :: "char \<Rightarrow> nat" where
  "char_kind c = (if c = CHR ''n'' then 0 else if c = CHR ''t'' then 1 else if c = CHR ''f'' then 2
     else if is_digit c \<or> c = CHR ''-'' then 3 else if c = CHR 0x22 then 4 else if c = CHR ''['' then 5
     else if c = CHR ''{'' then 6 else 7)"

lemma dumps_start: "dumps v \<noteq> [] \<and> char_kind (hd (dumps v)) = value_kind v"
proof (cases v)
  case (JInt i)
  obtain c t where "str_int i = c # t" "is_digit c \<or> c = CHR ''-''" using str_int_start [of i] by blast
  with JInt show ?thesis by (auto simp: char_kind_def is_digit_def)
qed (simp_all add: char_kind_def json_string_def is_digit_def)

lemma opens_dumps: "opens dumps"
proof -
  have "dumps v \<noteq> [] \<and> \<not> ends_value (dumps v)" for v
  proof -
    have "value_kind v \<le> 6" by (cases v) simp_all
    then show ?thesis using dumps_start [of v] by (auto simp: ends_value_def char_kind_def is_digit_def)
  qed
  then show ?thesis by (simp add: opens_def)
qed

abbreviation pair_text :: "string \<times> json \<Rightarrow> string" where
  "pair_text \<equiv> \<lambda>(k, v). json_string k @ CHR '':'' # dumps v"

lemma opens_pair: "opens pair_text"
  by (auto simp: opens_def ends_value_def json_string_def)

lemma printable_pair: "printable dumps v \<Longrightarrow> printable pair_text (k, v)"
  by (auto simp: printable_def dest!: json_string_prefix)

lemma same_shape:
  assumes "dumps v @ r = dumps w @ s"
  shows "(\<exists>i j. v = JInt i \<and> w = JInt j) \<or> (\<exists>a b. v = JStr a \<and> w = JStr b) \<or>
     (\<exists>a b. v = JList a \<and> w = JList b) \<or> (\<exists>a b. v = JObj a \<and> w = JObj b) \<or> v = w"
proof -
  have "value_kind v = value_kind w"
    using assms dumps_start [of v] dumps_start [of w] by (metis hd_append2)
  then show ?thesis by (cases v; cases w) (auto split: if_splits)
qed

lemma printable_dumps: "printable dumps v"
proof (induction v)
  case (JList vs)
  have el: "printable dumps x" if "x \<in> set vs" for x by (rule JList [OF that])
  show ?case
    unfolding printable_def
  proof (intro allI impI)
    fix y r s
    assume eq: "dumps (JList vs) @ r = dumps y @ s"
    from same_shape [OF eq] obtain ws where y: "y = JList ws" by blast
    with eq have "commas (map dumps vs) @ CHR '']'' # r = commas (map dumps ws) @ CHR '']'' # s" by simp
    from commas_prefix [OF el opens_dumps _ this] show "JList vs = y \<and> r = s" by (simp add: y)
  qed
next
  case (JObj kvs)
  have el: "printable pair_text p" if "p \<in> set kvs" for p
    using JObj [OF that] by (cases p) (auto intro!: printable_pair)
  show ?case
    unfolding printable_def
  proof (intro allI impI)
    fix y r s
    assume eq: "dumps (JObj kvs) @ r = dumps y @ s"
    from same_shape [OF eq] obtain ws where y: "y = JObj ws" by blast
    with eq have "commas (map pair_text kvs) @ CHR ''}'' # r = commas (map pair_text ws) @ CHR ''}'' # s" by simp
    from commas_prefix [OF el opens_pair _ this] show "JObj kvs = y \<and> r = s" by (simp add: y)
  qed
next
  case (JInt i)
  show ?case
    unfolding printable_def
  proof (intro allI impI)
    fix y r s
    assume eq: "dumps (JInt i) @ r = dumps y @ s" and c: "ends_value r" "ends_value s"
    from same_shape [OF eq] obtain j where y: "y = JInt j" by blast
    with eq have "str_int i @ r = str_int j @ s" by simp
    from str_int_prefix [OF this c] show "JInt i = y \<and> r = s" by (simp add: y)
  qed
next
  case (JStr a)
  show ?case
    unfolding printable_def
  proof (intro allI impI)
    fix y r s
    assume eq: "dumps (JStr a) @ r = dumps y @ s"
    from same_shape [OF eq] obtain b where y: "y = JStr b" by blast
    with eq have "json_string a @ r = json_string b @ s" by simp
    from json_string_prefix [OF this] show "JStr a = y \<and> r = s" by (simp add: y)
  qed
next
  case JNull
  show ?case
    unfolding printable_def
  proof (intro allI impI)
    fix y r s
    assume eq: "dumps JNull @ r = dumps y @ s"
    from same_shape [OF eq] have "y = JNull" by blast
    with eq show "JNull = y \<and> r = s" by simp
  qed
next
  case (JBool b)
  show ?case
    unfolding printable_def
  proof (intro allI impI)
    fix y r s
    assume eq: "dumps (JBool b) @ r = dumps y @ s"
    from same_shape [OF eq] have "y = JBool b" by blast
    with eq show "JBool b = y \<and> r = s" by (simp split: if_splits)
  qed
qed

theorem dumps_prefix:
  "dumps v @ r = dumps w @ s \<Longrightarrow> ends_value r \<Longrightarrow> ends_value s \<Longrightarrow> v = w \<and> r = s"
  using printable_dumps by (simp add: printable_def)

theorem dumps_inj: "dumps v = dumps w \<longleftrightarrow> v = w"
  using dumps_prefix [of v "[]" w "[]"] by auto

end
