(* ===== verification/Fleet_Registry.thy ===== *)
theory Fleet_Registry
  imports Json
begin

text \<open>
  The operator's fleet inventory and the pure admission planner, \<open>control/fleet.py\<close>: the
  pydantic models with their validators (\<open>Endpoint\<close>, \<open>Gateway\<close>, \<open>Ingress\<close>, \<open>Registry\<close>),
  \<open>validate_update\<close> and \<open>rank_gateways\<close>.  A canonical IP address string is represented by the
  address it denotes (an \<open>ip\<close>), a canonical IPv4 network string by its base and prefix length.
  Binary64 values are reals.  SHA-256 is the parameter \<open>sha256\<close>.
\<close>

section \<open>Addresses and networks\<close>

datatype fleet_error = LeaseRejected string | ValueError string | KeyError | IntegrityError | OverflowError

datatype ip = IPv4 int | IPv6 int

text \<open>A network is its first address and the number of host bits.\<close>

definition in_net :: "int \<Rightarrow> int \<Rightarrow> nat \<Rightarrow> bool" where
  "in_net a base host_bits \<longleftrightarrow> base \<le> a \<and> a < base + 2 ^ host_bits"

definition ipv4_private :: "int \<Rightarrow> bool" where
  "ipv4_private a \<longleftrightarrow>
     list_ex (\<lambda>(b, h). in_net a b h)
       [(0, 24), (0x0A000000, 24), (0x7F000000, 24), (0xA9FE0000, 16), (0xAC100000, 20),
        (0xC0000000, 8), (0xC00000AA, 1), (0xC0000200, 8), (0xC0A80000, 16), (0xC6120000, 17),
        (0xC6336400, 8), (0xCB007100, 8), (0xF0000000, 28), (0xFFFFFFFF, 0)] \<and>
     \<not> list_ex (\<lambda>(b, h). in_net a b h) [(0xC0000009, 0), (0xC000000A, 0)]"

definition ipv6_private :: "int \<Rightarrow> bool" where
  "ipv6_private a \<longleftrightarrow>
     list_ex (\<lambda>(b, h). in_net a b h)
       [(1, 0), (0, 0), (0xFFFF00000000, 32),
        (0x0064FF9B000100000000000000000000, 80), (0x01000000000000000000000000000000, 64),
        (0x20010000000000000000000000000000, 105), (0x20010DB8000000000000000000000000, 96),
        (0x20020000000000000000000000000000, 112), (0xFC000000000000000000000000000000, 121),
        (0xFE800000000000000000000000000000, 118)] \<and>
     \<not> list_ex (\<lambda>(b, h). in_net a b h)
       [(0x20010001000000000000000000000001, 0), (0x20010001000000000000000000000002, 0),
        (0x20010003000000000000000000000000, 96), (0x20010004011200000000000000000000, 80),
        (0x20010020000000000000000000000000, 100), (0x20010030000000000000000000000000, 100)]"

text \<open>\<open>public_address\<close>: global, not multicast, not an IPv4-mapped IPv6 address.\<close>

fun public_address :: "ip \<Rightarrow> bool" where
  "public_address (IPv4 a) \<longleftrightarrow>
     0 \<le> a \<and> a < 2 ^ 32 \<and> \<not> in_net a 0x64400000 22 \<and> \<not> ipv4_private a \<and> \<not> in_net a 0xE0000000 28"
| "public_address (IPv6 a) \<longleftrightarrow>
     0 \<le> a \<and> a < 2 ^ 128 \<and> \<not> ipv6_private a \<and>
     \<not> in_net a 0xFF000000000000000000000000000000 120 \<and> \<not> in_net a 0xFFFF00000000 32"

fun ip_version :: "ip \<Rightarrow> int" where
  "ip_version (IPv4 _) = 4"
| "ip_version (IPv6 _) = 6"

record pool =
  p_base :: int
  p_len :: nat

definition num_addresses :: "pool \<Rightarrow> int" where
  "num_addresses p = 2 ^ (32 - p_len p)"

definition broadcast :: "pool \<Rightarrow> int" where
  "broadcast p = p_base p + num_addresses p - 1"

definition in_pool :: "int \<Rightarrow> pool \<Rightarrow> bool" where
  "in_pool a p \<longleftrightarrow> p_base p \<le> a \<and> a \<le> broadcast p"

definition overlaps :: "pool \<Rightarrow> pool \<Rightarrow> bool" where
  "overlaps p q \<longleftrightarrow> in_pool (p_base p) q \<or> in_pool (broadcast p) q \<or>
                  in_pool (p_base q) p \<or> in_pool (broadcast q) p"

definition subnet_of :: "pool \<Rightarrow> pool \<Rightarrow> bool" where
  "subnet_of p q \<longleftrightarrow> p_base q \<le> p_base p \<and> broadcast p \<le> broadcast q"

definition valid_pool :: "pool \<Rightarrow> bool" where
  "valid_pool p \<longleftrightarrow>
     0 \<le> p_base p \<and> p_base p < 2 ^ 32 \<and> 16 \<le> p_len p \<and> p_len p \<le> 29 \<and>
     p_base p mod num_addresses p = 0 \<and>
     list_ex (subnet_of p)
       [\<lparr>p_base = 0x0A000000, p_len = 8\<rparr>, \<lparr>p_base = 0xAC100000, p_len = 12\<rparr>,
        \<lparr>p_base = 0xC0A80000, p_len = 16\<rparr>]"

section \<open>Inventory models\<close>

record endpoint =
  ep_transport :: string
  ep_version :: string
  ep_address :: ip
  ep_port :: int

record gateway =
  g_id :: string
  g_failure_domain :: string
  g_country :: string
  g_state :: string
  g_endpoints :: "endpoint list"
  g_pool :: pool
  g_max_devices :: int
  g_weight :: real
  g_egress :: real

record ingress =
  i_id :: string
  i_failure_domain :: string
  i_address :: ip
  i_port :: int
  i_provider :: string

record registry =
  rg_schema :: int
  rg_revision :: int
  rg_gateways :: "gateway list"
  rg_ingresses :: "ingress list"

record observation =
  o_gateway :: string
  o_revision :: int
  o_at :: int
  o_ready :: "string list"
  o_allocated :: int
  o_cpu :: real
  o_memory :: real
  o_tx :: real

type_synonym socket = "string \<times> ip \<times> int"

definition transports :: "string list" where
  "transports = [''wireguard'', ''amneziawg'', ''vless-reality'']"

text \<open>\<open>{'2.0', '3.1'} if transport == 'amneziawg' else {'1'}\<close>\<close>

definition versions_of :: "string \<Rightarrow> string list" where
  "versions_of t = (if t = ''amneziawg'' then [''2.0'', ''3.1''] else [''1''])"

definition is_identifier :: "string \<Rightarrow> bool" where
  "is_identifier = fullmatch is_word_dash 1 64"

definition valid_endpoint :: "endpoint \<Rightarrow> bool" where
  "valid_endpoint e \<longleftrightarrow>
     ep_transport e \<in> set transports \<and> ep_version e \<in> {''1'', ''2.0'', ''3.1''} \<and>
     public_address (ep_address e) \<and> 1 \<le> ep_port e \<and> ep_port e \<le> 65535 \<and>
     ep_version e \<in> set (versions_of (ep_transport e))"

definition endpoint_socket :: "endpoint \<Rightarrow> socket" where
  "endpoint_socket e =
     (if ep_transport e = ''vless-reality'' then ''tcp'' else ''udp'', ep_address e, ep_port e)"

text \<open>Network, gateway and broadcast addresses are reserved.\<close>

definition capacity_matches_pool :: "gateway \<Rightarrow> bool" where
  "capacity_matches_pool g \<longleftrightarrow> g_max_devices g \<le> num_addresses (g_pool g) - 3"

definition valid_gateway :: "gateway \<Rightarrow> bool" where
  "valid_gateway g \<longleftrightarrow>
     is_identifier (g_id g) \<and> is_identifier (g_failure_domain g) \<and>
     fullmatch is_lower 2 2 (g_country g) \<and>
     g_state g \<in> {''provisioning'', ''active'', ''draining'', ''disabled''} \<and>
     1 \<le> length (g_endpoints g) \<and> length (g_endpoints g) \<le> 8 \<and>
     list_all valid_endpoint (g_endpoints g) \<and> valid_pool (g_pool g) \<and>
     1 \<le> g_max_devices g \<and> g_max_devices g \<le> 1000000 \<and>
     0 < g_weight g \<and> g_weight g \<le> 1000 \<and> 0 < g_egress g \<and> g_egress g \<le> 1000000000 \<and>
     capacity_matches_pool g"

text \<open>\<open>Ingress.valid_provider\<close> and \<open>GatewayCandidate.valid_key\<close>: canonical base64 of \<open>n\<close> bytes that
  are not all zero.\<close>

definition valid_public :: "nat \<Rightarrow> string \<Rightarrow> bool" where
  "valid_public n v =
     (case decode_canonical n v of None \<Rightarrow> False | Some raw \<Rightarrow> raw \<noteq> replicate n (byte_char 0))"

definition valid_ingress :: "ingress \<Rightarrow> bool" where
  "valid_ingress i \<longleftrightarrow>
     is_identifier (i_id i) \<and> is_identifier (i_failure_domain i) \<and> public_address (i_address i) \<and>
     1 \<le> i_port i \<and> i_port i \<le> 65535 \<and> valid_public 64 (i_provider i)"

text \<open>\<open>Registry.unique_inventory\<close>: the loops over gateways, their endpoints and the ingresses,
  with the pools and listening sockets seen so far.\<close>

fun scan_endpoints :: "socket list \<Rightarrow> endpoint list \<Rightarrow> (fleet_error, socket list) res" where
  "scan_endpoints sockets [] = Inr sockets"
| "scan_endpoints sockets (e # es) =
     (if endpoint_socket e \<in> set sockets then Inl (ValueError ''duplicate listening socket'')
      else scan_endpoints (endpoint_socket e # sockets) es)"

fun scan_gateways :: "socket list \<Rightarrow> pool list \<Rightarrow> gateway list \<Rightarrow> (fleet_error, socket list) res" where
  "scan_gateways sockets pools [] = Inr sockets"
| "scan_gateways sockets pools (g # gs) =
     (if list_ex (overlaps (g_pool g)) pools then Inl (ValueError ''overlapping tunnel pools'')
      else bind_res (scan_endpoints sockets (g_endpoints g))
             (\<lambda>sockets'. scan_gateways sockets' (g_pool g # pools) gs))"

fun scan_ingresses :: "socket list \<Rightarrow> ingress list \<Rightarrow> (fleet_error, socket list) res" where
  "scan_ingresses sockets [] = Inr sockets"
| "scan_ingresses sockets (i # is) =
     (if (''tcp'', i_address i, i_port i) \<in> set sockets
      then Inl (ValueError ''duplicate listening socket'')
      else scan_ingresses ((''tcp'', i_address i, i_port i) # sockets) is)"

definition unique_inventory :: "registry \<Rightarrow> (fleet_error, registry) res" where
  "unique_inventory r =
     bind_res (check (distinct (map g_id (rg_gateways r))) (ValueError ''duplicate node ID'')) (\<lambda>_.
     bind_res (check (distinct (map i_id (rg_ingresses r))) (ValueError ''duplicate node ID'')) (\<lambda>_.
     bind_res (scan_gateways [] [] (rg_gateways r)) (\<lambda>sockets.
     bind_res (scan_ingresses sockets (rg_ingresses r)) (\<lambda>_. Inr r))))"

text \<open>\<open>load_registry\<close> on a dumped registry: the size limit and every validator.  The JSON text
  itself is the parameter \<open>dump_size\<close>.\<close>

definition load_registry ::
  "(registry \<Rightarrow> nat) \<Rightarrow> registry \<Rightarrow> (fleet_error, registry) res" where
  "load_registry dump_size r =
     bind_res (check (0 < dump_size r \<and> dump_size r \<le> 262144) (ValueError ''invalid registry size'')) (\<lambda>_.
     bind_res (check (rg_schema r = 1 \<and> 1 \<le> rg_revision r \<and> rg_revision r \<le> 2 ^ 63 - 1 \<and>
                      1 \<le> length (rg_gateways r) \<and> length (rg_gateways r) \<le> 256 \<and>
                      1 \<le> length (rg_ingresses r) \<and> length (rg_ingresses r) \<le> 16 \<and>
                      list_all valid_gateway (rg_gateways r) \<and>
                      list_all valid_ingress (rg_ingresses r))
                (ValueError ''validation error'')) (\<lambda>_.
     unique_inventory r))"

text \<open>\<open>validate_update\<close>: \<open>nodes\<close> is the dictionary of candidate gateways, in which a later
  duplicate would win.\<close>

definition gateway_of :: "registry \<Rightarrow> string \<Rightarrow> gateway option" where
  "gateway_of r gid = row (\<lambda>g. g_id g = gid) (rev (rg_gateways r))"

definition ingress_binding :: "ingress \<Rightarrow> ip \<times> int \<times> string" where
  "ingress_binding i = (i_address i, i_port i, i_provider i)"

fun keeps_nodes :: "registry \<Rightarrow> gateway list \<Rightarrow> bool" where
  "keeps_nodes candidate [] = True"
| "keeps_nodes candidate (old # olds) =
     (case gateway_of candidate (g_id old) of
        None \<Rightarrow> False
      | Some new \<Rightarrow> g_pool new = g_pool old \<and> g_failure_domain new = g_failure_domain old \<and>
                    keeps_nodes candidate olds)"

definition validate_update :: "registry \<Rightarrow> registry \<Rightarrow> (fleet_error, registry) res" where
  "validate_update previous candidate =
     bind_res (check (rg_revision previous < rg_revision candidate)
                (ValueError ''registry revision must increase'')) (\<lambda>_.
     bind_res (check (keeps_nodes candidate (rg_gateways previous))
                (ValueError ''node removal, relocation or pool change requires lease migration'')) (\<lambda>_.
     bind_res (check (ingress_binding ` set (rg_ingresses previous) \<inter>
                      ingress_binding ` set (rg_ingresses candidate) \<noteq> {})
                (ValueError ''control ingress rotation requires bootstrap overlap'')) (\<lambda>_.
     Inr candidate)))"

section \<open>Admission planning\<close>

text \<open>\<open>rank_gateways\<close>.  The dictionary of samples refuses two samples of one gateway.\<close>

fun collect_samples ::
  "observation list \<Rightarrow> observation list \<Rightarrow> (fleet_error, observation list) res" where
  "collect_samples samples [] = Inr samples"
| "collect_samples samples (s # rest) =
     (if o_gateway s \<in> o_gateway ` set samples then Inl (ValueError ''ambiguous telemetry'')
      else collect_samples (samples @ [s]) rest)"

definition sample_of :: "observation list \<Rightarrow> string \<Rightarrow> observation option" where
  "sample_of samples gid = row (\<lambda>s. o_gateway s = gid) samples"

definition pressure :: "gateway \<Rightarrow> observation \<Rightarrow> real" where
  "pressure g s = max (max (o_cpu s / 100) (o_memory s / 100)) (o_tx s / g_egress g)"

definition headroom :: "gateway \<Rightarrow> observation \<Rightarrow> real" where
  "headroom g s = min (1 - pressure g s) (1 - real_of_int (o_allocated s) / real_of_int (g_max_devices g))"

text \<open>The first six bytes of the digest of the device and the gateway as an integer.\<close>

definition digest48 :: "(string \<Rightarrow> string) \<Rightarrow> string \<Rightarrow> string \<Rightarrow> nat" where
  "digest48 sha256 device gid = be_int (take 6 (sha256 (dumps (JList [JStr device, JStr gid]))))"

definition score :: "(string \<Rightarrow> string) \<Rightarrow> string \<Rightarrow> gateway \<Rightarrow> observation \<Rightarrow> real" where
  "score sha256 device g s =
     - ln ((real (digest48 sha256 device (g_id g)) + 1) / (2 ^ 48 + 1)) / (g_weight g * headroom g s)"

text \<open>The guards of the loop body: the gateway serves the request, its sample authorises
  admissions, it has room for a new device.\<close>

definition serves :: "string option \<Rightarrow> string \<Rightarrow> string \<Rightarrow> int list \<Rightarrow> gateway \<Rightarrow> bool" where
  "serves country transport version families g \<longleftrightarrow>
     (case country of None \<Rightarrow> True | Some c \<Rightarrow> g_country g = c) \<and>
     list_ex (\<lambda>e. ep_transport e = transport \<and> ep_version e = version \<and>
                  ip_version (ep_address e) \<in> set families) (g_endpoints g)"

definition authorises :: "int \<Rightarrow> string \<Rightarrow> int \<Rightarrow> int \<Rightarrow> gateway \<Rightarrow> observation \<Rightarrow> bool" where
  "authorises revision transport now max_age g s \<longleftrightarrow>
     o_revision s = revision \<and> 0 \<le> now - o_at s \<and> now - o_at s \<le> max_age \<and>
     transport \<in> set (o_ready s) \<and> g_state g \<in> {''active'', ''draining''}"

definition has_room :: "gateway \<Rightarrow> observation \<Rightarrow> bool" where
  "has_room g s \<longleftrightarrow> g_state g = ''active'' \<and> o_allocated s < g_max_devices g \<and> pressure g s < 85 / 100"

text \<open>The sample that admits a gateway, if the loop does not skip it.\<close>

definition admitting ::
  "registry \<Rightarrow> observation list \<Rightarrow> string option \<Rightarrow> string \<Rightarrow> string \<Rightarrow> int \<Rightarrow> int \<Rightarrow> int list \<Rightarrow>
   gateway \<Rightarrow> observation option" where
  "admitting registry samples country transport version now max_age families g =
     (if \<not> serves country transport version families g then None
      else case sample_of samples (g_id g) of
             None \<Rightarrow> None
           | Some s \<Rightarrow> if authorises (rg_revision registry) transport now max_age g s then Some s else None)"

fun rank_scan ::
  "(gateway \<Rightarrow> observation option) \<Rightarrow> (gateway \<Rightarrow> observation \<Rightarrow> real) \<Rightarrow> string option \<Rightarrow>
   (real \<times> string) list \<Rightarrow> string option \<Rightarrow> gateway list \<Rightarrow> (real \<times> string) list \<times> string option" where
  "rank_scan admit sc current ranked retained [] = (ranked, retained)"
| "rank_scan admit sc current ranked retained (g # gs) =
     (case admit g of
        None \<Rightarrow> rank_scan admit sc current ranked retained gs
      | Some s \<Rightarrow>
          if Some (g_id g) = current then rank_scan admit sc current ranked (Some (g_id g)) gs
          else if \<not> has_room g s then rank_scan admit sc current ranked retained gs
          else rank_scan admit sc current (ranked @ [(sc g s, g_id g)]) retained gs)"

definition request_ok ::
  "string \<Rightarrow> string \<Rightarrow> string \<Rightarrow> int \<Rightarrow> int \<Rightarrow> int list \<Rightarrow> bool" where
  "request_ok device transport version now max_age families \<longleftrightarrow>
     0 \<le> now \<and> 1 \<le> max_age \<and> max_age \<le> 300 \<and> 1 \<le> length device \<and> length device \<le> 128 \<and>
     families \<noteq> [] \<and> set families \<subseteq> {4, 6} \<and> transport \<in> set transports \<and>
     version \<in> set (versions_of transport)"

definition rank_gateways ::
  "(string \<Rightarrow> string) \<Rightarrow> registry \<Rightarrow> observation list \<Rightarrow> string \<Rightarrow> string option \<Rightarrow> string \<Rightarrow>
   string \<Rightarrow> int \<Rightarrow> string option \<Rightarrow> int \<Rightarrow> int list \<Rightarrow> (fleet_error, string list) res" where
  "rank_gateways sha256 registry observations device country transport version now current max_age families =
     bind_res (check (request_ok device transport version now max_age families)
                (ValueError ''invalid admission request'')) (\<lambda>_.
     bind_res (collect_samples [] observations) (\<lambda>samples.
     let (ranked, retained) =
           rank_scan (admitting registry samples country transport version now max_age families)
             (score sha256 device) current [] None (rg_gateways registry)
     in Inr ((case retained of Some g \<Rightarrow> if g = [] then [] else [g] | None \<Rightarrow> []) @ map snd (sort ranked))))"

section \<open>Pools and sockets of a valid registry\<close>

lemma num_addresses_pos [simp]: "0 < num_addresses p"
  by (simp add: num_addresses_def)

lemma overlaps_iff: "overlaps p q \<longleftrightarrow> (\<exists>a. in_pool a p \<and> in_pool a q)"
proof
  assume "overlaps p q"
  moreover have "in_pool (p_base r) r" "in_pool (broadcast r) r" for r
    using num_addresses_pos [of r] by (simp_all add: in_pool_def broadcast_def)
  ultimately show "\<exists>a. in_pool a p \<and> in_pool a q" unfolding overlaps_def by blast
next
  assume "\<exists>a. in_pool a p \<and> in_pool a q"
  then show "overlaps p q" unfolding overlaps_def in_pool_def by force
qed

lemma overlaps_sym: "overlaps p q \<longleftrightarrow> overlaps q p"
  by (auto simp: overlaps_iff)

lemma scan_endpoints_Inr:
  "scan_endpoints ss es = Inr ss' \<longleftrightarrow>
     distinct (map endpoint_socket es) \<and> set (map endpoint_socket es) \<inter> set ss = {} \<and>
     ss' = rev (map endpoint_socket es) @ ss"
  by (induction es arbitrary: ss) auto

definition gateway_sockets :: "gateway list \<Rightarrow> socket list" where
  "gateway_sockets gs = concat (map (\<lambda>g. map endpoint_socket (g_endpoints g)) gs)"

definition ingress_sockets :: "ingress list \<Rightarrow> socket list" where
  "ingress_sockets is = map (\<lambda>i. (''tcp'', i_address i, i_port i)) is"

lemma scan_gateways_Inr:
  "scan_gateways ss ps gs = Inr ss' \<Longrightarrow>
     sorted_wrt (\<lambda>g h. \<not> overlaps (g_pool h) (g_pool g)) gs \<and>
     (\<forall>g \<in> set gs. \<forall>p \<in> set ps. \<not> overlaps (g_pool g) p) \<and>
     distinct (gateway_sockets gs) \<and> set (gateway_sockets gs) \<inter> set ss = {} \<and>
     set ss' = set (gateway_sockets gs) \<union> set ss"
proof (induction gs arbitrary: ss ps)
  case (Cons g gs)
  from Cons.prems obtain ss1
    where first: "scan_endpoints ss (g_endpoints g) = Inr ss1"
      and rest: "scan_gateways ss1 (g_pool g # ps) gs = Inr ss'"
      and np: "\<forall>p \<in> set ps. \<not> overlaps (g_pool g) p"
    by (auto split: if_splits simp: list_ex_iff)
  let ?now = "map endpoint_socket (g_endpoints g)"
  have e: "distinct ?now" "set ?now \<inter> set ss = {}" "set ss1 = set ?now \<union> set ss"
    using first by (auto simp: scan_endpoints_Inr)
  have split: "gateway_sockets (g # gs) = ?now @ gateway_sockets gs"
    by (simp add: gateway_sockets_def)
  note ih = Cons.IH [OF rest]
  have "\<forall>h \<in> set gs. \<not> overlaps (g_pool h) (g_pool g)" using ih by simp
  then have "sorted_wrt (\<lambda>g h. \<not> overlaps (g_pool h) (g_pool g)) (g # gs)" using ih by simp
  moreover have "\<forall>h \<in> set (g # gs). \<forall>p \<in> set ps. \<not> overlaps (g_pool h) p" using ih np by simp
  moreover have "distinct (?now @ gateway_sockets gs)"
    using ih e unfolding distinct_append by blast
  moreover have "set (?now @ gateway_sockets gs) \<inter> set ss = {}"
    using ih e unfolding set_append by blast
  moreover have "set ss' = set (?now @ gateway_sockets gs) \<union> set ss"
    using ih e unfolding set_append by blast
  ultimately show ?case unfolding split by blast
qed (simp add: gateway_sockets_def)

lemma scan_ingresses_Inr:
  "scan_ingresses ss is = Inr ss' \<Longrightarrow>
     distinct (ingress_sockets is) \<and> set (ingress_sockets is) \<inter> set ss = {}"
proof (induction "is" arbitrary: ss)
  case (Cons i "is")
  then have "scan_ingresses ((''tcp'', i_address i, i_port i) # ss) is = Inr ss'"
    and "(''tcp'', i_address i, i_port i) \<notin> set ss"
    by (auto split: if_splits)
  with Cons.IH [of "(''tcp'', i_address i, i_port i) # ss"] show ?case
    by (auto simp: ingress_sockets_def)
qed (simp add: ingress_sockets_def)

lemma unique_inventoryD:
  assumes "unique_inventory r = Inr r'"
  shows "r' = r" "distinct (map g_id (rg_gateways r))" "distinct (map i_id (rg_ingresses r))"
    "sorted_wrt (\<lambda>g h. \<not> overlaps (g_pool h) (g_pool g)) (rg_gateways r)"
    "distinct (gateway_sockets (rg_gateways r) @ ingress_sockets (rg_ingresses r))"
proof -
  from assms obtain ss ss' where
    g: "scan_gateways [] [] (rg_gateways r) = Inr ss" and
    i: "scan_ingresses ss (rg_ingresses r) = Inr ss'" and
    r: "r' = r" "distinct (map g_id (rg_gateways r))" "distinct (map i_id (rg_ingresses r))"
    by (auto simp: unique_inventory_def)
  from r show "r' = r" "distinct (map g_id (rg_gateways r))" "distinct (map i_id (rg_ingresses r))"
    by simp_all
  from scan_gateways_Inr [OF g] scan_ingresses_Inr [OF i]
  show "sorted_wrt (\<lambda>g h. \<not> overlaps (g_pool h) (g_pool g)) (rg_gateways r)"
    "distinct (gateway_sockets (rg_gateways r) @ ingress_sockets (rg_ingresses r))"
    by auto
qed

lemma sorted_wrt_not_overlaps:
  assumes "sorted_wrt (\<lambda>g h. \<not> overlaps (g_pool h) (g_pool g)) gs" "g \<in> set gs" "h \<in> set gs" "g \<noteq> h"
  shows "\<not> overlaps (g_pool g) (g_pool h)"
proof -
  from assms(2,3) obtain i j where ij: "i < length gs" "gs ! i = g" "j < length gs" "gs ! j = h"
    by (auto simp: in_set_conv_nth)
  have ordered: "\<not> overlaps (g_pool (gs ! b)) (g_pool (gs ! a))" if "a < b" "b < length gs" for a b
    using assms(1) that by (auto simp: sorted_wrt_iff_nth_less)
  from ij assms(4) consider "i < j" | "j < i" by (metis linorder_neqE_nat)
  then show ?thesis
    using ordered [of i j] ordered [of j i] ij by cases (auto simp: overlaps_iff)
qed

definition registry_wf :: "registry \<Rightarrow> bool" where
  "registry_wf r \<longleftrightarrow> list_all valid_gateway (rg_gateways r) \<and> (\<exists>r'. unique_inventory r = Inr r')"

lemma load_registryD: "load_registry sz r = Inr r' \<Longrightarrow> r' = r \<and> registry_wf r \<and> 1 \<le> rg_revision r"
  by (auto simp: load_registry_def registry_wf_def dest: unique_inventoryD(1))

lemma gateway_of_SomeD:
  "gateway_of r gid = Some g \<Longrightarrow> g \<in> set (rg_gateways r) \<and> g_id g = gid"
  by (auto simp: gateway_of_def dest: row_Some_iff)

lemma gateway_of_member:
  assumes "registry_wf r" and "g \<in> set (rg_gateways r)"
  shows "gateway_of r (g_id g) = Some g"
proof -
  have "distinct (map g_id (rev (rg_gateways r)))"
    using assms(1) unique_inventoryD(2) by (force simp: registry_wf_def rev_map [symmetric])
  then show ?thesis
    unfolding gateway_of_def using assms(2) by (intro row_key_unique [where k = g_id]) auto
qed

lemma registry_wf_disjoint:
  assumes "registry_wf r" "gateway_of r i = Some g" "gateway_of r j = Some h" "i \<noteq> j"
  shows "\<not> (in_pool a (g_pool g) \<and> in_pool a (g_pool h))"
proof -
  from assms(1) obtain r' where "unique_inventory r = Inr r'" by (auto simp: registry_wf_def)
  then have "sorted_wrt (\<lambda>g h. \<not> overlaps (g_pool h) (g_pool g)) (rg_gateways r)"
    by (rule unique_inventoryD)
  moreover have "g \<in> set (rg_gateways r)" "h \<in> set (rg_gateways r)" "g \<noteq> h"
    using assms(2-4) by (auto dest: gateway_of_SomeD)
  ultimately have "\<not> overlaps (g_pool g) (g_pool h)" by (rule sorted_wrt_not_overlaps)
  then show ?thesis by (auto simp: overlaps_iff)
qed

lemma registry_wf_gateway: "registry_wf r \<Longrightarrow> gateway_of r i = Some g \<Longrightarrow> valid_gateway g"
  by (auto simp: registry_wf_def list_all_iff dest: gateway_of_SomeD)

lemma keeps_nodesD:
  "keeps_nodes c olds \<Longrightarrow> old \<in> set olds \<Longrightarrow>
     \<exists>new. gateway_of c (g_id old) = Some new \<and> g_pool new = g_pool old \<and>
           g_failure_domain new = g_failure_domain old"
  by (induction olds) (auto split: option.splits)

lemma validate_updateD:
  assumes "validate_update p c = Inr c'"
  shows "c' = c" "rg_revision p < rg_revision c"
    "gateway_of p i = Some old \<Longrightarrow>
       \<exists>new. gateway_of c i = Some new \<and> g_pool new = g_pool old"
proof -
  from assms have c: "c' = c" "rg_revision p < rg_revision c" "keeps_nodes c (rg_gateways p)"
    by (auto simp: validate_update_def)
  then show "c' = c" "rg_revision p < rg_revision c" by simp_all
  show "\<exists>new. gateway_of c i = Some new \<and> g_pool new = g_pool old" if "gateway_of p i = Some old"
    using keeps_nodesD [OF c(3), of old] gateway_of_SomeD [OF that] by auto
qed

section \<open>The ranking\<close>

definition ranked_entry ::
  "(gateway \<Rightarrow> observation option) \<Rightarrow> (gateway \<Rightarrow> observation \<Rightarrow> real) \<Rightarrow> string option \<Rightarrow> gateway \<Rightarrow>
   (real \<times> string) option" where
  "ranked_entry admit sc current g =
     (case admit g of
        None \<Rightarrow> None
      | Some s \<Rightarrow> if Some (g_id g) = current \<or> \<not> has_room g s then None else Some (sc g s, g_id g))"

lemma ranked_entry_Some:
  "ranked_entry admit sc current g = Some (x, i) \<longleftrightarrow>
     i = g_id g \<and> Some (g_id g) \<noteq> current \<and> (\<exists>s. admit g = Some s \<and> has_room g s \<and> x = sc g s)"
  by (auto simp: ranked_entry_def split: option.splits if_splits)

lemma rank_scan_ranked:
  "fst (rank_scan admit sc current ranked retained gs) =
     ranked @ List.map_filter (ranked_entry admit sc current) gs"
  by (induction gs arbitrary: ranked retained)
    (auto simp: ranked_entry_def List.map_filter_simps split: option.splits)

lemma rank_scan_retained:
  "snd (rank_scan admit sc current ranked retained gs) =
     (if \<exists>g \<in> set gs. admit g \<noteq> None \<and> Some (g_id g) = current then current else retained)"
  by (induction gs arbitrary: ranked retained) (auto split: option.splits)

lemma rank_gateways_eq:
  assumes "request_ok device transport version now max_age families" "collect_samples [] obs = Inr samples"
  shows "rank_gateways dg r obs device country transport version now current max_age families =
     (let admit = admitting r samples country transport version now max_age families in
      Inr ((case current of
              Some c \<Rightarrow> if c \<noteq> [] \<and> (\<exists>g \<in> set (rg_gateways r). admit g \<noteq> None \<and> g_id g = c) then [c] else []
            | None \<Rightarrow> []) @
           map snd (sort (List.map_filter (ranked_entry admit (score dg device) current) (rg_gateways r)))))"
proof -
  let ?admit = "admitting r samples country transport version now max_age families"
  let ?scan = "rank_scan ?admit (score dg device) current [] None (rg_gateways r)"
  have "rank_gateways dg r obs device country transport version now current max_age families =
      Inr ((case snd ?scan of Some g \<Rightarrow> if g = [] then [] else [g] | None \<Rightarrow> []) @ map snd (sort (fst ?scan)))"
    using assms by (simp add: rank_gateways_def case_prod_beta)
  also have "(case snd ?scan of Some g \<Rightarrow> if g = [] then [] else [g] | None \<Rightarrow> []) =
      (case current of
         Some c \<Rightarrow> if c \<noteq> [] \<and> (\<exists>g \<in> set (rg_gateways r). ?admit g \<noteq> None \<and> g_id g = c) then [c] else []
       | None \<Rightarrow> [])"
    unfolding rank_scan_retained by (cases current) auto
  finally show ?thesis by (simp add: rank_scan_ranked Let_def)
qed

lemma rank_gateways_InrD:
  "rank_gateways dg r obs device country transport version now current max_age families = Inr ids \<Longrightarrow>
     request_ok device transport version now max_age families \<and> (\<exists>samples. collect_samples [] obs = Inr samples)"
  by (auto simp: rank_gateways_def)

lemma rank_gateways_set:
  assumes "rank_gateways dg r obs device country transport version now current max_age families = Inr ids"
    and "collect_samples [] obs = Inr samples" and "registry_wf r"
  shows "set ids = {g_id g | g s. g \<in> set (rg_gateways r) \<and>
     admitting r samples country transport version now max_age families g = Some s \<and>
     (Some (g_id g) = current \<or> has_room g s)}"
proof -
  let ?admit = "admitting r samples country transport version now max_age families"
  have nonempty: "g_id g \<noteq> []" if "g \<in> set (rg_gateways r)" for g
    using registry_wf_gateway [OF assms(3) gateway_of_member [OF assms(3) that]]
    by (auto simp: valid_gateway_def is_identifier_def fullmatch_def)
  have "ids = (case current of
              Some c \<Rightarrow> if c \<noteq> [] \<and> (\<exists>g \<in> set (rg_gateways r). ?admit g \<noteq> None \<and> g_id g = c) then [c] else []
            | None \<Rightarrow> []) @
           map snd (sort (List.map_filter (ranked_entry ?admit (score dg device) current) (rg_gateways r)))"
    using assms(1) rank_gateways_eq [OF conjunct1 [OF rank_gateways_InrD [OF assms(1)]] assms(2)]
    by (simp add: Let_def)
  then have ids: "set ids = {c. current = Some c \<and> c \<noteq> [] \<and> (\<exists>g \<in> set (rg_gateways r). ?admit g \<noteq> None \<and> g_id g = c)} \<union>
      snd ` set (List.map_filter (ranked_entry ?admit (score dg device) current) (rg_gateways r))"
    by (auto split: option.splits if_splits)
  have ranked: "snd ` set (List.map_filter (ranked_entry ?admit (score dg device) current) (rg_gateways r)) =
      {g_id g | g s. g \<in> set (rg_gateways r) \<and> ?admit g = Some s \<and> Some (g_id g) \<noteq> current \<and> has_room g s}"
    by (auto simp: image_iff Bex_def in_set_map_filter ranked_entry_Some) blast+
  have cur: "{c. current = Some c \<and> c \<noteq> [] \<and> (\<exists>g \<in> set (rg_gateways r). ?admit g \<noteq> None \<and> g_id g = c)} =
      {g_id g | g s. g \<in> set (rg_gateways r) \<and> ?admit g = Some s \<and> Some (g_id g) = current}"
    using nonempty by auto
  show ?thesis unfolding ids ranked cur by blast
qed

end
