(* ===== verification/Fleet_Store.thy ===== *)
theory Fleet_Store
  imports Fleet_Registry
begin

text \<open>
  The durable lease store, \<open>control/fleet_store.py\<close>: the SQLite tables as lists of rows, one
  definition per method of \<open>FleetStore\<close>.  A method runs in one transaction: on an exception
  (\<open>Inl\<close>) the database keeps its old contents, which \<open>commit\<close> makes explicit.  The clock, the
  UUIDs and the telemetry a method reads are its arguments; hashing and the size of the JSON
  dump of a registry are the parameters of \<open>fleet_env\<close>.
\<close>

section \<open>Tables\<close>

datatype lease_state = Reserved | Ready | Retiring | Released

record lease =
  l_id :: string
  l_device :: string
  l_gateway :: string
  l_country :: string
  l_transport :: string
  l_version :: string
  l_address :: int
  l_registry_revision :: int
  l_access_revision :: int
  l_created :: int
  l_expires :: int
  l_state :: lease_state
  l_generation :: int

record access_row =
  a_device :: string
  a_public :: string
  a_wg :: string
  a_revision :: int
  a_expires :: int
  a_max_leases :: int
  a_revoked :: bool

record reservation =
  rv_request_id :: string
  rv_registry_revision :: int
  rv_country :: string
  rv_transport :: string
  rv_version :: string
  rv_lifetime :: int
  rv_families :: "int list"

record request_row =
  rq_device :: string
  rq_request_id :: string
  rq_fingerprint :: string
  rq_lease :: string

record challenge_row =
  ch_nonce :: string
  ch_device :: string
  ch_revision :: int
  ch_request :: reservation
  ch_expires :: int

record job_row =
  j_lease :: string
  j_generation :: int
  j_token :: string
  j_claim_until :: int
  j_attempts :: int
  j_next :: int
  j_result :: string

record publication_row =
  pb_lease :: string
  pb_access_revision :: int
  pb_revision :: int
  pb_signer :: string
  pb_digest :: string
  pb_previous :: "string option"
  pb_envelope :: string

record fleet_db =
  db_schema :: int
  db_last_now :: int
  db_registries :: "registry list"
  db_access :: "access_row list"
  db_leases :: "lease list"
  db_requests :: "request_row list"
  db_events :: "(int \<times> string \<times> string) list"
  db_challenges :: "challenge_row list"
  db_jobs :: "job_row list"
  db_authority :: "string option"
  db_counters :: "(string \<times> int) list"
  db_publications :: "publication_row list"

text \<open>Code outside the sources: SHA-256, the Reticulum hash of a public identity, the length of the
  JSON pydantic dumps a registry to.\<close>

record fleet_env =
  env_sha256 :: "string \<Rightarrow> string"
  env_identity :: "string \<Rightarrow> string"
  env_dump_size :: "registry \<Rightarrow> nat"

record lease_work =
  w_lease :: lease
  w_gateway :: gateway
  w_public :: string
  w_wg :: string

type_synonym 'a fleet_res = "(fleet_error, fleet_db \<times> 'a) res"

section \<open>Transactions and row access\<close>

definition positive :: "int \<Rightarrow> int \<Rightarrow> (fleet_error, unit) res" where
  "positive v maximum = check (1 \<le> v \<and> v \<le> maximum) (LeaseRejected ''invalid-integer'')"

definition transaction :: "int list \<Rightarrow> int \<Rightarrow> fleet_db \<Rightarrow> (fleet_db \<Rightarrow> 'a fleet_res) \<Rightarrow> 'a fleet_res" where
  "transaction versions now db body =
     (if \<not> (0 \<le> now \<and> now < 2 ^ 63) then Inl (LeaseRejected ''invalid-clock'')
      else if db_schema db \<notin> set versions \<or> now < db_last_now db then Inl (LeaseRejected ''state-or-clock'')
      else body (db\<lparr>db_last_now := now\<rparr>))"

text \<open>What is on disk afterwards: the new contents, or the old ones after a rollback.\<close>

definition commit :: "fleet_db \<Rightarrow> 'a fleet_res \<Rightarrow> fleet_db" where
  "commit db r = (case r of Inl _ \<Rightarrow> db | Inr (db', _) \<Rightarrow> db')"

definition add_event :: "int \<Rightarrow> string \<Rightarrow> string \<Rightarrow> fleet_db \<Rightarrow> fleet_db" where
  "add_event now kind subject db = db\<lparr>db_events := db_events db @ [(now, kind, subject)]\<rparr>"

text \<open>\<open>ORDER BY revision DESC LIMIT 1\<close>\<close>

fun newest :: "registry list \<Rightarrow> registry option" where
  "newest [] = None"
| "newest (r # rs) = (case newest rs of
     None \<Rightarrow> Some r | Some m \<Rightarrow> if rg_revision m < rg_revision r then Some r else Some m)"

definition registry_row :: "fleet_db \<Rightarrow> (fleet_error, registry) res" where
  "registry_row db = (case newest (db_registries db) of
     None \<Rightarrow> Inl (LeaseRejected ''registry-missing'') | Some r \<Rightarrow> Inr r)"

definition lease_row :: "fleet_db \<Rightarrow> string \<Rightarrow> (fleet_error, lease) res" where
  "lease_row db lid = (case row (\<lambda>l. l_id l = lid) (db_leases db) of
     None \<Rightarrow> Inl (LeaseRejected ''lease-missing'') | Some l \<Rightarrow> Inr l)"

definition access_of :: "fleet_db \<Rightarrow> string \<Rightarrow> access_row option" where
  "access_of db device = row (\<lambda>a. a_device a = device) (db_access db)"

definition authorized :: "fleet_db \<Rightarrow> string \<Rightarrow> int \<Rightarrow> (fleet_error, access_row) res" where
  "authorized db device now =
     (case access_of db device of
        None \<Rightarrow> Inl (LeaseRejected ''access-denied'')
      | Some a \<Rightarrow> if a_revoked a \<or> a_expires a \<le> now then Inl (LeaseRejected ''access-denied'') else Inr a)"

definition live :: "lease \<Rightarrow> bool" where
  "live l \<longleftrightarrow> l_state l \<noteq> Released"

definition in_service :: "lease \<Rightarrow> bool" where
  "in_service l \<longleftrightarrow> l_state l = Reserved \<or> l_state l = Ready"

definition live_count :: "fleet_db \<Rightarrow> string \<Rightarrow> int" where
  "live_count db gid = count_rows (\<lambda>l. l_gateway l = gid \<and> live l) (db_leases db)"

section \<open>Retirement\<close>

definition set_state :: "string \<Rightarrow> (lease \<Rightarrow> lease) \<Rightarrow> fleet_db \<Rightarrow> fleet_db" where
  "set_state lid f db = db\<lparr>db_leases := update_rows (\<lambda>l. l_id l = lid) f (db_leases db)\<rparr>"

definition retire_row :: "int \<Rightarrow> string \<Rightarrow> fleet_db \<Rightarrow> lease fleet_res" where
  "retire_row now lid db =
     bind_res (lease_row db lid) (\<lambda>lease.
     let db' = (if in_service lease
                then add_event now ''retiring'' lid
                       (set_state lid (\<lambda>l. l\<lparr>l_state := Retiring, l_generation := l_generation l + 1\<rparr>) db)
                else db)
     in bind_res (lease_row db' lid) (\<lambda>lease'. Inr (db', lease')))"

fun retire_rows :: "int \<Rightarrow> string list \<Rightarrow> fleet_db \<Rightarrow> lease list fleet_res" where
  "retire_rows now [] db = Inr (db, [])"
| "retire_rows now (lid # lids) db =
     bind_res (retire_row now lid db) (\<lambda>(db', l).
     bind_res (retire_rows now lids db') (\<lambda>(db'', ls). Inr (db'', l # ls)))"

definition retire :: "int \<Rightarrow> string \<Rightarrow> fleet_db \<Rightarrow> lease fleet_res" where
  "retire now lid db = transaction [3] now db (retire_row now lid)"

section \<open>Registry and access\<close>

definition empty_db :: "int \<Rightarrow> fleet_db" where
  "empty_db now = \<lparr>db_schema = 3, db_last_now = now, db_registries = [], db_access = [], db_leases = [],
     db_requests = [], db_events = [], db_challenges = [], db_jobs = [], db_authority = None,
     db_counters = [], db_publications = []\<rparr>"

definition initialize :: "fleet_env \<Rightarrow> int \<Rightarrow> registry \<Rightarrow> (fleet_error, fleet_db) res" where
  "initialize env now registry =
     bind_res (load_registry (env_dump_size env) registry) (\<lambda>r.
     bind_res (check (0 \<le> now \<and> now < 2 ^ 63) (LeaseRejected ''invalid-clock'')) (\<lambda>_.
     Inr (add_event now ''registry'' (str_int (rg_revision r)) ((empty_db now)\<lparr>db_registries := [r]\<rparr>))))"

text \<open>\<open>install_registry\<close>: the loop over the candidate's nodes refuses to move the endpoints of a
  gateway with live leases and retires the leases of a gateway taken out of service.\<close>

fun install_nodes :: "registry \<Rightarrow> int \<Rightarrow> gateway list \<Rightarrow> fleet_db \<Rightarrow> (fleet_error, fleet_db) res" where
  "install_nodes previous now [] db = Inr db"
| "install_nodes previous now (node # nodes) db =
     (case gateway_of previous (g_id node) of
        None \<Rightarrow> install_nodes previous now nodes db
      | Some old \<Rightarrow>
          if g_endpoints node \<noteq> g_endpoints old \<and>
             list_ex (\<lambda>l. l_gateway l = g_id node \<and> live l) (db_leases db)
          then Inl (LeaseRejected ''endpoint-migration-required'')
          else if g_state node = ''disabled'' \<or> g_state node = ''provisioning''
          then bind_res (retire_rows now
                 (map l_id (filter (\<lambda>l. l_gateway l = g_id node \<and> in_service l) (db_leases db))) db)
                 (\<lambda>(db', _). install_nodes previous now nodes db')
          else install_nodes previous now nodes db)"

definition install_registry :: "fleet_env \<Rightarrow> int \<Rightarrow> registry \<Rightarrow> fleet_db \<Rightarrow> unit fleet_res" where
  "install_registry env now registry db =
     bind_res (load_registry (env_dump_size env) registry) (\<lambda>candidate.
     transaction [3] now db (\<lambda>db.
     bind_res (registry_row db) (\<lambda>previous.
     if candidate = previous then Inr (db, ())
     else bind_res (validate_update previous candidate) (\<lambda>_.
          bind_res (install_nodes previous now (rg_gateways candidate) db) (\<lambda>db'.
          if rg_revision candidate \<in> rg_revision ` set (db_registries db') then Inl IntegrityError
          else Inr (add_event now ''registry'' (str_int (rg_revision candidate))
                      (db'\<lparr>db_registries := db_registries db' @ [candidate]\<rparr>), ()))))))"

text \<open>The upsert of \<open>set_access\<close>: \<open>public\<close> and \<open>wg\<close> are UNIQUE over all devices.\<close>

definition upsert_access :: "access_row \<Rightarrow> fleet_db \<Rightarrow> (fleet_error, fleet_db) res" where
  "upsert_access new db =
     (if a_device new \<in> a_device ` set (db_access db)
      then Inr (db\<lparr>db_access := update_rows (\<lambda>a. a_device a = a_device new)
             (\<lambda>a. a\<lparr>a_revision := a_revision new, a_expires := a_expires new,
                    a_max_leases := a_max_leases new, a_revoked := a_revoked new\<rparr>) (db_access db)\<rparr>)
      else if a_public new \<in> a_public ` set (db_access db) \<or> a_wg new \<in> a_wg ` set (db_access db)
      then Inl IntegrityError
      else Inr (db\<lparr>db_access := db_access db @ [new]\<rparr>))"

definition set_access :: "fleet_env \<Rightarrow> int \<Rightarrow> access_row \<Rightarrow> fleet_db \<Rightarrow> unit fleet_res" where
  "set_access env now new db =
     bind_res (positive (a_revision new) (2 ^ 63 - 1)) (\<lambda>_.
     bind_res (positive (a_expires new) (2 ^ 63 - 1)) (\<lambda>_.
     bind_res (positive (a_max_leases new) 8) (\<lambda>_.
     bind_res (map_err ValueError (decode_field 64 (a_public new))) (\<lambda>raw.
     bind_res (map_err ValueError (decode_field 32 (a_wg new))) (\<lambda>wg.
     bind_res (check (bytes_hex (env_identity env raw) = a_device new \<and> wg \<noteq> replicate 32 (byte_char 0))
                (LeaseRejected ''binding-mismatch'')) (\<lambda>_.
     transaction [3] now db (\<lambda>db.
     if access_of db (a_device new) = Some new then Inr (db, ())
     else bind_res (check (case access_of db (a_device new) of
                             None \<Rightarrow> True
                           | Some old \<Rightarrow> a_public old = a_public new \<and> a_wg old = a_wg new \<and>
                                         a_revision old < a_revision new)
                     (LeaseRejected ''access-revision-or-binding'')) (\<lambda>_.
          bind_res (check (\<not> (a_expires new \<le> now \<and> \<not> a_revoked new)) (LeaseRejected ''expired-access'')) (\<lambda>_.
          bind_res (upsert_access new db) (\<lambda>db1.
          bind_res (retire_rows now
             (map l_id (filter (\<lambda>l. l_device l = a_device new \<and> in_service l \<and>
                                    (a_revoked new \<or> a_expires new < l_expires l)) (db_leases db1))) db1)
             (\<lambda>(db2, _). Inr (add_event now (if a_revoked new then ''access-revoked'' else ''access'')
                                (a_device new) db2, ()))))))))))))"

section \<open>Reservation\<close>

text \<open>The unique indexes and foreign keys of \<open>INSERT INTO leases\<close> and \<open>INSERT INTO requests\<close>.\<close>

definition insert_lease :: "lease \<Rightarrow> fleet_db \<Rightarrow> (fleet_error, fleet_db) res" where
  "insert_lease new db =
     (if l_id new \<in> l_id ` set (db_leases db) \<or>
         l_device new \<notin> a_device ` set (db_access db) \<or>
         l_registry_revision new \<notin> rg_revision ` set (db_registries db) \<or>
         list_ex (\<lambda>l. live l \<and> live new \<and>
            ((l_gateway l, l_address l) = (l_gateway new, l_address new) \<or>
             (l_device l, l_gateway l) = (l_device new, l_gateway new) \<or>
             (l_device l, l_country l, l_transport l, l_version l) =
               (l_device new, l_country new, l_transport new, l_version new))) (db_leases db)
      then Inl IntegrityError
      else Inr (db\<lparr>db_leases := db_leases db @ [new]\<rparr>))"

definition insert_request :: "request_row \<Rightarrow> fleet_db \<Rightarrow> (fleet_error, fleet_db) res" where
  "insert_request new db =
     (if list_ex (\<lambda>q. rq_device q = rq_device new \<and> rq_request_id q = rq_request_id new) (db_requests db) \<or>
         rq_lease new \<notin> l_id ` set (db_leases db)
      then Inl IntegrityError
      else Inr (db\<lparr>db_requests := db_requests db @ [new]\<rparr>))"

text \<open>The first free host of the pool: network, gateway and broadcast addresses are skipped.\<close>

definition free_address :: "fleet_db \<Rightarrow> string \<Rightarrow> pool \<Rightarrow> int option" where
  "free_address db gid pool =
     (let used = set (map l_address (filter (\<lambda>l. l_gateway l = gid \<and> live l) (db_leases db)))
      in List.find (\<lambda>n. n \<notin> used) [p_base pool + 2 .. broadcast pool - 1])"

fun pick_gateway ::
  "registry \<Rightarrow> fleet_db \<Rightarrow> string set \<Rightarrow> string list \<Rightarrow> (fleet_error, string \<times> int) res" where
  "pick_gateway registry db used [] = Inl (LeaseRejected ''no-capacity'')"
| "pick_gateway registry db used (gid # gids) =
     (case gateway_of registry gid of
        None \<Rightarrow> Inl KeyError
      | Some node \<Rightarrow>
          if gid \<in> used \<or> g_max_devices node \<le> live_count db gid
          then pick_gateway registry db used gids
          else case free_address db gid (g_pool node) of
                 None \<Rightarrow> pick_gateway registry db used gids
               | Some address \<Rightarrow> Inr (gid, address))"

definition with_durable_counts :: "fleet_db \<Rightarrow> observation list \<Rightarrow> observation list" where
  "with_durable_counts db obs =
     map (\<lambda>s. s\<lparr>o_allocated := max (o_allocated s) (live_count db (o_gateway s))\<rparr>) obs"

definition new_lease :: "int \<Rightarrow> string \<Rightarrow> access_row \<Rightarrow> reservation \<Rightarrow> registry \<Rightarrow> string \<Rightarrow> int \<Rightarrow> lease" where
  "new_lease now uuid access rv registry gid address =
     \<lparr>l_id = uuid, l_device = a_device access, l_gateway = gid, l_country = rv_country rv,
      l_transport = rv_transport rv, l_version = rv_version rv, l_address = address,
      l_registry_revision = rg_revision registry, l_access_revision = a_revision access,
      l_created = now, l_expires = min (now + rv_lifetime rv) (a_expires access),
      l_state = Reserved, l_generation = 1\<rparr>"

definition reservation_ok :: "reservation \<Rightarrow> bool" where
  "reservation_ok rv \<longleftrightarrow>
     fullmatch is_word_dash 1 64 (rv_request_id rv) \<and> fullmatch is_lower 2 2 (rv_country rv) \<and>
     rv_transport rv \<in> set transports \<and> rv_version rv \<in> set (versions_of (rv_transport rv)) \<and>
     rv_families rv \<noteq> [] \<and> set (rv_families rv) \<subseteq> {4, 6}"

definition fingerprint :: "fleet_env \<Rightarrow> reservation \<Rightarrow> string" where
  "fingerprint env rv = bytes_hex (env_sha256 env (dumps (JList
     [JStr (rv_country rv), JStr (rv_transport rv), JStr (rv_version rv), JInt (rv_lifetime rv),
      JList (map JInt (sorted_list_of_set (set (rv_families rv))))])))"

definition allocate ::
  "fleet_env \<Rightarrow> int \<Rightarrow> string \<Rightarrow> access_row \<Rightarrow> reservation \<Rightarrow> observation list \<Rightarrow> fleet_db \<Rightarrow> lease fleet_res" where
  "allocate env now uuid access rv obs db =
     bind_res (registry_row db) (\<lambda>registry.
     bind_res (check (rg_revision registry = rv_registry_revision rv) (LeaseRejected ''registry-stale'')) (\<lambda>_.
     let existing = filter (\<lambda>l. l_device l = a_device access \<and> live l) (db_leases db) in
     bind_res (check (\<not> list_ex (\<lambda>l. (l_country l, l_transport l, l_version l) =
                        (rv_country rv, rv_transport rv, rv_version rv)) existing)
                (LeaseRejected ''assignment-exists'')) (\<lambda>_.
     bind_res (check (int (length existing) < a_max_leases access) (LeaseRejected ''device-limit'')) (\<lambda>_.
     bind_res (rank_gateways (env_sha256 env) registry (with_durable_counts db obs) (a_device access)
                 (Some (rv_country rv)) (rv_transport rv) (rv_version rv) now None 45 (rv_families rv)) (\<lambda>candidates.
     bind_res (pick_gateway registry db (l_gateway ` set existing) candidates) (\<lambda>(gid, address).
     let new = new_lease now uuid access rv registry gid address in
     bind_res (insert_lease new db) (\<lambda>db1.
     bind_res (insert_request \<lparr>rq_device = a_device access, rq_request_id = rv_request_id rv,
                 rq_fingerprint = fingerprint env rv, rq_lease = uuid\<rparr> db1) (\<lambda>db2.
     let db3 = add_event now ''reserved'' uuid db2 in
     bind_res (lease_row db3 uuid) (\<lambda>l. Inr (db3, l))))))))))"

definition reserve_row ::
  "fleet_env \<Rightarrow> int \<Rightarrow> string \<Rightarrow> string \<Rightarrow> reservation \<Rightarrow> observation list \<Rightarrow> fleet_db \<Rightarrow> lease fleet_res" where
  "reserve_row env now uuid device rv obs db =
     bind_res (positive (rv_registry_revision rv) (2 ^ 63 - 1)) (\<lambda>_.
     bind_res (positive (rv_lifetime rv) 86400) (\<lambda>_.
     bind_res (check (reservation_ok rv) (LeaseRejected ''invalid-request'')) (\<lambda>_.
     bind_res (authorized db device now) (\<lambda>access.
     case row (\<lambda>q. rq_device q = device \<and> rq_request_id q = rv_request_id rv) (db_requests db) of
       Some prior \<Rightarrow>
         bind_res (check (rq_fingerprint prior = fingerprint env rv) (LeaseRejected ''request-conflict'')) (\<lambda>_.
         bind_res (lease_row db (rq_lease prior)) (\<lambda>l. Inr (db, l)))
     | None \<Rightarrow> allocate env now uuid access rv obs db))))"

definition reserve ::
  "fleet_env \<Rightarrow> int \<Rightarrow> string \<Rightarrow> string \<Rightarrow> reservation \<Rightarrow> observation list \<Rightarrow> fleet_db \<Rightarrow> lease fleet_res" where
  "reserve env now uuid device rv obs db = transaction [3] now db (reserve_row env now uuid device rv obs)"

section \<open>Reads, receipts and expiry\<close>

definition get_lease :: "int \<Rightarrow> string \<Rightarrow> fleet_db \<Rightarrow> lease fleet_res" where
  "get_lease now lid db = transaction [3] now db (\<lambda>db. bind_res (lease_row db lid) (\<lambda>l. Inr (db, l)))"

definition state_rank :: "lease \<Rightarrow> int" where
  "state_rank l = (if l_state l = Retiring then 0 else 1)"

definition has_work :: "lease \<Rightarrow> bool" where
  "has_work l \<longleftrightarrow> l_state l = Reserved \<or> l_state l = Retiring"

definition pending :: "int \<Rightarrow> int \<Rightarrow> fleet_db \<Rightarrow> lease list fleet_res" where
  "pending now limit db =
     bind_res (positive limit 1000) (\<lambda>_.
     transaction [3] now db (\<lambda>db. Inr (db,
       take (nat limit) (sort_key (\<lambda>l. (state_rank l, l_created l, l_id l)) (filter has_work (db_leases db))))))"

definition work_item :: "int \<Rightarrow> string \<Rightarrow> int \<Rightarrow> fleet_db \<Rightarrow> lease_work fleet_res" where
  "work_item now lid generation db =
     bind_res (positive generation (2 ^ 63 - 1)) (\<lambda>_.
     transaction [3] now db (\<lambda>db.
     bind_res (lease_row db lid) (\<lambda>lease.
     bind_res (check (l_generation lease = generation \<and> has_work lease) (LeaseRejected ''stale-work'')) (\<lambda>_.
     bind_res (if l_state lease = Reserved
               then bind_res (authorized db (l_device lease) now) (\<lambda>_.
                    check (\<not> l_expires lease \<le> now) (LeaseRejected ''expired-work''))
               else Inr ()) (\<lambda>_.
     case access_of db (l_device lease) of None \<Rightarrow> Inl KeyError | Some binding \<Rightarrow>
     case row (\<lambda>r. rg_revision r = l_registry_revision lease) (db_registries db) of
       None \<Rightarrow> Inl KeyError
     | Some registry \<Rightarrow>
     case row (\<lambda>g. g_id g = l_gateway lease) (rg_gateways registry) of
       None \<Rightarrow> Inl KeyError
     | Some gateway \<Rightarrow>
         Inr (db, \<lparr>w_lease = lease, w_gateway = gateway, w_public = a_public binding, w_wg = a_wg binding\<rparr>))))))"

definition mark_ready :: "int \<Rightarrow> string \<Rightarrow> int \<Rightarrow> fleet_db \<Rightarrow> lease fleet_res" where
  "mark_ready now lid generation db =
     bind_res (positive generation (2 ^ 63 - 1)) (\<lambda>_.
     transaction [3] now db (\<lambda>db.
     bind_res (lease_row db lid) (\<lambda>lease.
     bind_res (authorized db (l_device lease) now) (\<lambda>_.
     bind_res (check (l_generation lease = generation \<and> in_service lease \<and> \<not> l_expires lease \<le> now)
                (LeaseRejected ''stale-ready'')) (\<lambda>_.
     let db' = (if l_state lease \<noteq> Ready
                then add_event now ''ready'' lid (set_state lid (\<lambda>l. l\<lparr>l_state := Ready\<rparr>) db) else db)
     in bind_res (lease_row db' lid) (\<lambda>l. Inr (db', l)))))))"

definition publishable :: "int \<Rightarrow> string \<Rightarrow> fleet_db \<Rightarrow> lease fleet_res" where
  "publishable now lid db =
     transaction [3] now db (\<lambda>db.
     bind_res (lease_row db lid) (\<lambda>lease.
     bind_res (authorized db (l_device lease) now) (\<lambda>_.
     bind_res (check (l_state lease = Ready \<and> \<not> l_expires lease \<le> now) (LeaseRejected ''not-ready'')) (\<lambda>_.
     Inr (db, lease)))))"

text \<open>\<open>JOIN access a ON a.device=l.device WHERE ... ORDER BY l.expires_at,l.lease_id LIMIT ?\<close>\<close>

definition expirable :: "fleet_db \<Rightarrow> int \<Rightarrow> lease \<Rightarrow> bool" where
  "expirable db now l \<longleftrightarrow> in_service l \<and>
     (case access_of db (l_device l) of
        None \<Rightarrow> False
      | Some a \<Rightarrow> l_expires l \<le> now \<or> a_expires a \<le> now \<or> a_revoked a)"

definition expire :: "int \<Rightarrow> int \<Rightarrow> fleet_db \<Rightarrow> lease list fleet_res" where
  "expire now limit db =
     bind_res (positive limit 1000) (\<lambda>_.
     transaction [3] now db (\<lambda>db.
     retire_rows now (map l_id (take (nat limit)
       (sort_key (\<lambda>l. (l_expires l, l_id l)) (filter (expirable db now) (db_leases db))))) db))"

definition confirm_removed :: "int \<Rightarrow> string \<Rightarrow> int \<Rightarrow> fleet_db \<Rightarrow> lease fleet_res" where
  "confirm_removed now lid generation db =
     bind_res (positive generation (2 ^ 63 - 1)) (\<lambda>_.
     transaction [3] now db (\<lambda>db.
     bind_res (lease_row db lid) (\<lambda>lease.
     bind_res (check (l_generation lease = generation \<and> (l_state lease = Retiring \<or> l_state lease = Released))
                (LeaseRejected ''stale-removal'')) (\<lambda>_.
     let db' = (if l_state lease = Retiring
                then add_event now ''released'' lid (set_state lid (\<lambda>l. l\<lparr>l_state := Released\<rparr>) db) else db)
     in bind_res (lease_row db' lid) (\<lambda>l. Inr (db', l))))))"

section \<open>Migration, authority, claims and retrieval\<close>

definition upgrade_services :: "int \<Rightarrow> fleet_db \<Rightarrow> unit fleet_res" where
  "upgrade_services now db =
     transaction [1, 2, 3] now db (\<lambda>db.
     if db_schema db = 3 then Inr (db, ())
     else Inr (add_event now ''schema'' ''3'' (db\<lparr>db_schema := 3\<rparr>), ()))"

definition pin_publication_authority :: "int \<Rightarrow> string \<Rightarrow> fleet_db \<Rightarrow> unit fleet_res" where
  "pin_publication_authority now public db =
     bind_res (map_err ValueError (decode_field 32 public)) (\<lambda>_.
     transaction [3] now db (\<lambda>db.
     case db_authority db of
       Some old \<Rightarrow> if old \<noteq> public then Inl (LeaseRejected ''authority-migration-required'') else Inr (db, ())
     | None \<Rightarrow> Inr (add_event now ''publication-authority'' ''1'' (db\<lparr>db_authority := Some public\<rparr>), ())))"

definition job_of :: "fleet_db \<Rightarrow> lease \<Rightarrow> job_row option" where
  "job_of db l = row (\<lambda>j. j_lease j = l_id l \<and> j_generation j = l_generation l) (db_jobs db)"

definition claimable :: "fleet_db \<Rightarrow> int \<Rightarrow> lease \<Rightarrow> bool" where
  "claimable db now l \<longleftrightarrow> has_work l \<and>
     (case job_of db l of None \<Rightarrow> True | Some j \<Rightarrow> j_claim_until j \<le> now \<and> j_next j \<le> now)"

definition claim_key :: "fleet_db \<Rightarrow> lease \<Rightarrow> int \<times> int \<times> int \<times> string" where
  "claim_key db l = (state_rank l, (case job_of db l of None \<Rightarrow> 0 | Some j \<Rightarrow> j_next j), l_created l, l_id l)"

definition upsert_job :: "lease \<Rightarrow> string \<Rightarrow> int \<Rightarrow> int \<Rightarrow> fleet_db \<Rightarrow> fleet_db" where
  "upsert_job l token now hold db =
     (case job_of db l of
        Some _ \<Rightarrow> db\<lparr>db_jobs := update_rows (\<lambda>j. j_lease j = l_id l \<and> j_generation j = l_generation l)
          (\<lambda>j. j\<lparr>j_token := token, j_claim_until := now + hold, j_attempts := min (j_attempts j + 1) 16,
                 j_result := ''running''\<rparr>) (db_jobs db)\<rparr>
      | None \<Rightarrow> db\<lparr>db_jobs := db_jobs db @ [\<lparr>j_lease = l_id l, j_generation = l_generation l, j_token = token,
          j_claim_until = now + hold, j_attempts = 1, j_next = now, j_result = ''running''\<rparr>]\<rparr>)"

text \<open>SQLite refuses a bound value outside 64 bits; the transaction then rolls back.\<close>

definition claim_work :: "int \<Rightarrow> string \<Rightarrow> int \<Rightarrow> fleet_db \<Rightarrow> (lease \<times> string) option fleet_res" where
  "claim_work now token hold db =
     bind_res (positive hold 300) (\<lambda>_.
     transaction [3] now db (\<lambda>db.
     case sort_key (claim_key db) (filter (claimable db now) (db_leases db)) of
       [] \<Rightarrow> Inr (db, None)
     | lease # _ \<Rightarrow>
         bind_res (check (now + hold < 2 ^ 63) OverflowError) (\<lambda>_.
         Inr (upsert_job lease token now hold db, Some (lease, token)))))"

definition finish_work :: "int \<Rightarrow> lease \<Rightarrow> string \<Rightarrow> string \<Rightarrow> fleet_db \<Rightarrow> bool fleet_res" where
  "finish_work now lease token result db =
     bind_res (check (result \<in> {''ready'', ''released'', ''retry'', ''state-changed''})
                (LeaseRejected ''invalid-job-result'')) (\<lambda>_.
     transaction [3] now db (\<lambda>db.
     let mine = (\<lambda>j. j_lease j = l_id lease \<and> j_generation j = l_generation lease \<and> j_token j = token) in
     case row mine (db_jobs db) of
       None \<Rightarrow> Inr (db, False)
     | Some j \<Rightarrow>
         let delay = min 300 (5 * 2 ^ nat (j_attempts j - 1)) in
         bind_res (check (now + delay < 2 ^ 63) OverflowError) (\<lambda>_.
         Inr (db\<lparr>db_jobs := update_rows mine
                (\<lambda>j. j\<lparr>j_claim_until := 0, j_next := now + delay, j_result := result\<rparr>) (db_jobs db)\<rparr>, True))))"

definition published :: "int \<Rightarrow> string \<Rightarrow> string \<Rightarrow> fleet_db \<Rightarrow> string fleet_res" where
  "published now lid device db =
     transaction [3] now db (\<lambda>db.
     bind_res (authorized db device now) (\<lambda>access.
     bind_res (lease_row db lid) (\<lambda>lease.
     bind_res (check (l_device lease = device \<and> l_state lease = Ready \<and> \<not> l_expires lease \<le> now)
                (LeaseRejected ''not-publishable'')) (\<lambda>_.
     case row (\<lambda>p. pb_lease p = lid \<and> pb_access_revision p = a_revision access \<and>
                   db_authority db = Some (pb_signer p)) (db_publications db) of
       None \<Rightarrow> Inl (LeaseRejected ''not-published'')
     | Some p \<Rightarrow> Inr (db, pb_envelope p)))))"

end
