(* ===== verification/Transition_Systems.thy ===== *)
theory Transition_Systems
  imports FC_Prelude
begin

text \<open>
  The contract every stateful component of the development is verified against: reachable
  states of a step relation, invariants that hold in all of them, and preorders every run
  respects.  A component interprets the locales on its own initial states and steps.
\<close>

section \<open>Reachable states\<close>

inductive reach :: "('s \<Rightarrow> bool) \<Rightarrow> ('s \<Rightarrow> 's \<Rightarrow> bool) \<Rightarrow> 's \<Rightarrow> bool" for init step where
  reach_init: "init s \<Longrightarrow> reach init step s"
| reach_step: "reach init step s \<Longrightarrow> step s t \<Longrightarrow> reach init step t"

inductive steps :: "('s \<Rightarrow> 's \<Rightarrow> bool) \<Rightarrow> 's \<Rightarrow> 's \<Rightarrow> bool" for step where
  steps_refl: "steps step s s"
| steps_step: "steps step s t \<Longrightarrow> step t u \<Longrightarrow> steps step s u"

text \<open>A sequence of operations, each a total function on the state, as the caller issues them.\<close>

fun run :: "('s \<Rightarrow> 'op \<Rightarrow> 's) \<Rightarrow> 's \<Rightarrow> 'op list \<Rightarrow> 's" where
  "run exec s [] = s"
| "run exec s (a # as) = run exec (exec s a) as"

lemma run_append: "run exec s (as @ bs) = run exec (run exec s as) bs"
  by (induction as arbitrary: s) auto

lemma step_steps: "step s t \<Longrightarrow> steps step s t"
  using steps_refl by (rule steps_step)

lemma steps_trans: "steps step s t \<Longrightarrow> steps step t u \<Longrightarrow> steps step s u"
  by (rotate_tac, induction rule: steps.induct) (auto intro: steps_step)

lemma steps_front: "step s t \<Longrightarrow> steps step t u \<Longrightarrow> steps step s u"
  by (rotate_tac, induction rule: steps.induct) (auto intro: steps_refl steps_step)

lemma reach_steps: "reach init step s \<Longrightarrow> steps step s t \<Longrightarrow> reach init step t"
  by (rotate_tac, induction rule: steps.induct) (auto intro: reach_step)

section \<open>Invariants\<close>

locale invariant_system =
  fixes init :: "'s \<Rightarrow> bool" and step :: "'s \<Rightarrow> 's \<Rightarrow> bool" and inv :: "'s \<Rightarrow> bool"
  assumes inv_init: "init s \<Longrightarrow> inv s"
    and inv_step: "inv s \<Longrightarrow> step s t \<Longrightarrow> inv t"
begin

lemma reach_inv: "reach init step s \<Longrightarrow> inv s"
  by (induction rule: reach.induct) (auto intro: inv_init inv_step)

lemma steps_inv: "inv s \<Longrightarrow> steps step s t \<Longrightarrow> inv t"
  by (rotate_tac, induction rule: steps.induct) (auto intro: inv_step)

end

section \<open>Runs that only move forward\<close>

locale progress_system = invariant_system init step inv
  for init :: "'s \<Rightarrow> bool" and step :: "'s \<Rightarrow> 's \<Rightarrow> bool" and inv :: "'s \<Rightarrow> bool" +
  fixes le :: "'s \<Rightarrow> 's \<Rightarrow> bool"
  assumes le_refl: "le s s"
    and le_trans: "le s t \<Longrightarrow> le t u \<Longrightarrow> le s u"
    and le_step: "inv s \<Longrightarrow> step s t \<Longrightarrow> le s t"
begin

lemma steps_le: "steps step s t \<Longrightarrow> inv s \<Longrightarrow> le s t"
proof (induction rule: steps.induct)
  case (steps_step s t u)
  then have "inv t" by (blast intro: steps_inv)
  with steps_step show ?case by (blast intro: le_trans le_step)
qed (rule le_refl)

end

end
