(* ===== verification/Fleet_Store_Inv.thy ===== *)
theory Fleet_Store_Inv
  imports Fleet_Store Transition_Systems
begin

text \<open>
  The invariant of the lease store and that every method of \<open>FleetStore\<close> preserves it.
\<close>

section \<open>The invariant\<close>

text \<open>What holds of one lease, against the registries and the access rows.\<close>

definition lease_ok :: "registry list \<Rightarrow> access_row list \<Rightarrow> lease \<Rightarrow> bool" where
  "lease_ok regs acc l \<longleftrightarrow>
     (\<exists>a. row (\<lambda>a. a_device a = l_device l) acc = Some a \<and> l_access_revision l \<le> a_revision a \<and>
          (in_service l \<longrightarrow> \<not> a_revoked a \<and> l_expires l \<le> a_expires a)) \<and>
     (\<exists>r g. newest regs = Some r \<and> gateway_of r (l_gateway l) = Some g \<and>
            p_base (g_pool g) + 2 \<le> l_address l \<and> l_address l < broadcast (g_pool g) \<and>
            (in_service l \<longrightarrow> g_state g = ''active'' \<or> g_state g = ''draining'')) \<and>
     (\<exists>r g. row (\<lambda>r. rg_revision r = l_registry_revision l) regs = Some r \<and>
            row (\<lambda>g. g_id g = l_gateway l) (rg_gateways r) = Some g) \<and>
     l_generation l = (if in_service l then 1 else 2)"

text \<open>What two different live leases never share.\<close>

definition no_clash :: "lease \<Rightarrow> lease \<Rightarrow> bool" where
  "no_clash l m \<longleftrightarrow>
     (l_gateway l, l_address l) \<noteq> (l_gateway m, l_address m) \<and>
     (l_device l, l_gateway l) \<noteq> (l_device m, l_gateway m) \<and>
     (l_device l, l_country l, l_transport l, l_version l) \<noteq>
       (l_device m, l_country m, l_transport m, l_version m)"

definition tables_ok :: "registry list \<Rightarrow> access_row list \<Rightarrow> lease list \<Rightarrow> request_row list \<Rightarrow> bool" where
  "tables_ok regs acc ls rqs \<longleftrightarrow>
     distinct (map a_device acc) \<and> distinct (map l_id ls) \<and> distinct (map rg_revision regs) \<and>
     newest regs \<noteq> None \<and> (\<forall>r \<in> set regs. registry_wf r) \<and>
     (\<forall>l \<in> set ls. lease_ok regs acc l) \<and>
     (\<forall>l \<in> set ls. \<forall>m \<in> set ls. l_id l \<noteq> l_id m \<longrightarrow> live l \<longrightarrow> live m \<longrightarrow> no_clash l m) \<and>
     (\<forall>q \<in> set rqs. rq_lease q \<in> l_id ` set ls)"

definition fleet_inv :: "fleet_db \<Rightarrow> bool" where
  "fleet_inv db \<longleftrightarrow> tables_ok (db_registries db) (db_access db) (db_leases db) (db_requests db)"

lemma fleet_inv_frame [simp]:
  "fleet_inv (db\<lparr>db_last_now := n\<rparr>) = fleet_inv db"
  "fleet_inv (db\<lparr>db_schema := v\<rparr>) = fleet_inv db"
  "fleet_inv (db\<lparr>db_events := e\<rparr>) = fleet_inv db"
  "fleet_inv (db\<lparr>db_challenges := c\<rparr>) = fleet_inv db"
  "fleet_inv (db\<lparr>db_jobs := j\<rparr>) = fleet_inv db"
  "fleet_inv (db\<lparr>db_authority := p\<rparr>) = fleet_inv db"
  "fleet_inv (db\<lparr>db_counters := k\<rparr>) = fleet_inv db"
  "fleet_inv (db\<lparr>db_publications := u\<rparr>) = fleet_inv db"
  "fleet_inv (add_event now kind subject db) = fleet_inv db"
  by (simp_all add: fleet_inv_def add_event_def)

lemma transaction_Inr_iff:
  "transaction vs now db body = Inr x \<longleftrightarrow>
     0 \<le> now \<and> now < 2 ^ 63 \<and> db_schema db \<in> set vs \<and> db_last_now db \<le> now \<and>
     body (db\<lparr>db_last_now := now\<rparr>) = Inr x"
  by (auto simp: transaction_def)

section \<open>Changes to single leases\<close>

text \<open>The order in which a lease goes through its states.\<close>

fun stage :: "lease_state \<Rightarrow> nat" where
  "stage Reserved = 0" | "stage Ready = 1" | "stage Retiring = 2" | "stage Released = 3"

text \<open>A change of a lease that keeps its identity, its keys and its expiry, and never brings it back.\<close>

definition lease_advance :: "lease \<Rightarrow> lease \<Rightarrow> bool" where
  "lease_advance l l' \<longleftrightarrow>
     l' = l\<lparr>l_state := l_state l', l_generation := l_generation l'\<rparr> \<and>
     stage (l_state l) \<le> stage (l_state l') \<and> l_generation l \<le> l_generation l' \<and>
     (live l' \<longrightarrow> live l) \<and> (in_service l' \<longrightarrow> in_service l) \<and>
     (l_generation l = (if in_service l then 1 else 2) \<longrightarrow>
      l_generation l' = (if in_service l' then 1 else 2))"

lemma lease_advance_refl [simp]: "lease_advance l l"
  by (simp add: lease_advance_def)

lemma lease_advance_keys:
  assumes "lease_advance l l'"
  shows "l_id l' = l_id l" "l_device l' = l_device l" "l_gateway l' = l_gateway l"
    "l_country l' = l_country l" "l_transport l' = l_transport l" "l_version l' = l_version l"
    "l_address l' = l_address l" "l_registry_revision l' = l_registry_revision l"
    "l_access_revision l' = l_access_revision l" "l_expires l' = l_expires l"
  using assms by (cases l, cases l', simp add: lease_advance_def)+

lemma lease_advance_trans: "lease_advance l m \<Longrightarrow> lease_advance m n \<Longrightarrow> lease_advance l n"
  by (cases l, cases m, cases n) (auto simp: lease_advance_def)

lemma lease_ok_advance: "lease_ok regs acc l \<Longrightarrow> lease_advance l l' \<Longrightarrow> lease_ok regs acc l'"
  unfolding lease_ok_def by (auto simp: lease_advance_keys) (auto simp: lease_advance_def)

lemma no_clash_advance:
  "no_clash l m \<Longrightarrow> lease_advance l l' \<Longrightarrow> lease_advance m m' \<Longrightarrow> no_clash l' m'"
  by (auto simp: no_clash_def lease_advance_keys)

lemma map_id_advance: "(\<And>l. l \<in> set ls \<Longrightarrow> lease_advance l (f l)) \<Longrightarrow> map l_id (map f ls) = map l_id ls"
  by (simp add: lease_advance_keys)

lemma tables_ok_advance:
  assumes ok: "tables_ok regs acc ls rqs" and adv: "\<And>l. l \<in> set ls \<Longrightarrow> lease_advance l (f l)"
  shows "tables_ok regs acc (map f ls) rqs"
proof -
  have ids: "map l_id (map f ls) = map l_id ls" using adv by (rule map_id_advance)
  then have idset: "l_id ` set (map f ls) = l_id ` set ls" by (metis set_map)
  have live: "live (f l) \<Longrightarrow> live l" if "l \<in> set ls" for l
    using adv [OF that] by (simp add: lease_advance_def)
  have lids: "l_id (f l) = l_id l" if "l \<in> set ls" for l
    using adv [OF that] by (rule lease_advance_keys)
  have "lease_ok regs acc (f l)" if "l \<in> set ls" for l
    using ok that adv [OF that] lease_ok_advance by (auto simp: tables_ok_def)
  then have "\<forall>l \<in> set (map f ls). lease_ok regs acc l" by simp
  moreover have "\<forall>l \<in> set (map f ls). \<forall>m \<in> set (map f ls).
      l_id l \<noteq> l_id m \<longrightarrow> live l \<longrightarrow> live m \<longrightarrow> no_clash l m"
  proof -
    have "no_clash (f l) (f m)"
      if "l \<in> set ls" "m \<in> set ls" "l_id l \<noteq> l_id m" "live (f l)" "live (f m)" for l m
    proof -
      have "no_clash l m" using ok that live by (simp add: tables_ok_def)
      then show ?thesis using adv [OF that(1)] adv [OF that(2)] by (rule no_clash_advance)
    qed
    then show ?thesis by (simp add: lids)
  qed
  ultimately show ?thesis
    using ok ids idset by (simp add: tables_ok_def del: map_map)
qed

section \<open>Retirement\<close>

definition retired :: "string set \<Rightarrow> lease \<Rightarrow> lease" where
  "retired S l = (if l_id l \<in> S \<and> in_service l
     then l\<lparr>l_state := Retiring, l_generation := l_generation l + 1\<rparr> else l)"

lemma retired_advance [simp]: "lease_advance l (retired S l)"
  by (auto simp: lease_advance_def retired_def live_def in_service_def)

lemma in_service_retired: "in_service (retired S l) \<longleftrightarrow> in_service l \<and> l_id l \<notin> S"
  by (auto simp: retired_def in_service_def)

lemma live_retired [simp]: "live (retired S l) \<longleftrightarrow> live l"
  by (auto simp: retired_def live_def in_service_def)

lemma retired_retired: "retired T (retired S l) = retired (S \<union> T) l"
  by (auto simp: retired_def in_service_def)

lemma retired_empty [simp]: "retired {} = (\<lambda>l. l)"
  by (simp add: retired_def fun_eq_iff)

lemmas retired_keys [simp] = lease_advance_keys [OF retired_advance]

lemma lease_rowD: "lease_row db lid = Inr l \<Longrightarrow> l \<in> set (db_leases db) \<and> l_id l = lid"
  by (auto simp: lease_row_def split: option.splits)

lemma lease_row_member:
  assumes "distinct (map l_id (db_leases db))" "l \<in> set (db_leases db)"
  shows "lease_row db (l_id l) = Inr l"
  using row_key_unique [OF assms, of "\<lambda>x. l_id x = l_id l"] by (simp add: lease_row_def)

lemma update_lease_eq:
  assumes "distinct (map l_id ls)" "l \<in> set ls" "l_id l = lid" "\<And>m. m \<in> set ls \<Longrightarrow> l_id m \<noteq> lid \<Longrightarrow> g m = m"
    "g l = f l"
  shows "update_rows (\<lambda>m. l_id m = lid) f ls = map g ls"
proof -
  have "m = l" if "m \<in> set ls" "l_id m = lid" for m
    using assms(1-3) that by (metis inj_on_eq_iff distinct_map)
  then show ?thesis using assms(4,5) by (auto simp: update_rows_def)
qed

lemma retire_row_Inr:
  assumes d: "distinct (map l_id (db_leases db))" and r: "retire_row now lid db = Inr (db', l')"
  shows "\<exists>ev. db' = db\<lparr>db_leases := map (retired {lid}) (db_leases db), db_events := ev\<rparr>"
    "l' \<in> set (db_leases db')" "l_id l' = lid"
proof -
  from r obtain l where l: "lease_row db lid = Inr l" by (auto simp: retire_row_def)
  then have mem: "l \<in> set (db_leases db)" "l_id l = lid" by (auto dest: lease_rowD)
  show "l' \<in> set (db_leases db')" "l_id l' = lid"
    using r by (auto simp: retire_row_def Let_def dest: lease_rowD)
  show "\<exists>ev. db' = db\<lparr>db_leases := map (retired {lid}) (db_leases db), db_events := ev\<rparr>"
  proof (cases "in_service l")
    case True
    have "update_rows (\<lambda>m. l_id m = lid) (\<lambda>l. l\<lparr>l_state := Retiring, l_generation := l_generation l + 1\<rparr>)
        (db_leases db) = map (retired {lid}) (db_leases db)"
      using d mem True by (intro update_lease_eq [where l = l]) (auto simp: retired_def)
    with True r l show ?thesis
      by (auto simp: retire_row_def add_event_def set_state_def Let_def)
  next
    case False
    have "map (retired {lid}) (db_leases db) = db_leases db"
    proof (rule map_idI)
      fix m assume "m \<in> set (db_leases db)"
      with d mem have "l_id m = lid \<Longrightarrow> m = l" by (metis inj_on_eq_iff distinct_map)
      with False show "retired {lid} m = m" by (auto simp: retired_def)
    qed
    moreover have "db' = db" using False r l by (auto simp: retire_row_def)
    moreover have "db = db\<lparr>db_leases := db_leases db, db_events := db_events db\<rparr>" by simp
    ultimately show ?thesis by metis
  qed
qed

lemma retire_row_ok:
  assumes "distinct (map l_id (db_leases db))" "lid \<in> l_id ` set (db_leases db)"
  shows "\<exists>db' l'. retire_row now lid db = Inr (db', l')"
proof -
  from assms obtain l where l: "l \<in> set (db_leases db)" "l_id l = lid" by auto
  let ?up = "\<lambda>l. l\<lparr>l_state := Retiring, l_generation := l_generation l + 1\<rparr>"
  let ?db = "add_event now ''retiring'' lid (set_state lid ?up db)"
  have "map l_id (db_leases ?db) = map l_id (db_leases db)"
    by (simp add: add_event_def set_state_def map_update_rows)
  then have d: "distinct (map l_id (db_leases ?db))" and "lid \<in> set (map l_id (db_leases ?db))"
    using assms by (simp_all add: image_iff del: set_map) (metis assms(2) set_map)
  then obtain m where m: "m \<in> set (db_leases ?db)" "l_id m = lid" by auto
  from lease_row_member [OF assms(1) l(1)] lease_row_member [OF d m(1)] l m show ?thesis
    by (auto simp: retire_row_def Let_def)
qed

lemma retire_rows_Inr:
  assumes "distinct (map l_id (db_leases db))" "retire_rows now lids db = Inr (db', ls)"
  shows "\<exists>ev. db' = db\<lparr>db_leases := map (retired (set lids)) (db_leases db), db_events := ev\<rparr>"
  using assms
proof (induction lids arbitrary: db ls)
  case Nil
  then show ?case by (auto intro: exI [of _ "db_events db"])
next
  case (Cons lid lids)
  from Cons.prems obtain db1 l ls1 where
    one: "retire_row now lid db = Inr (db1, l)" and rest: "retire_rows now lids db1 = Inr (db', ls1)"
    by auto
  from retire_row_Inr(1) [OF Cons.prems(1) one] obtain ev
    where db1: "db1 = db\<lparr>db_leases := map (retired {lid}) (db_leases db), db_events := ev\<rparr>" by auto
  then have "distinct (map l_id (db_leases db1))"
    using Cons.prems(1) by (simp add: o_def)
  from Cons.IH [OF this rest] db1 show ?case
    by (auto simp: retired_retired o_def)
qed

lemma retire_rows_ok:
  assumes "distinct (map l_id (db_leases db))" "set lids \<subseteq> l_id ` set (db_leases db)"
  shows "\<exists>db' ls. retire_rows now lids db = Inr (db', ls)"
  using assms
proof (induction lids arbitrary: db)
  case (Cons lid lids)
  then obtain db1 l where one: "retire_row now lid db = Inr (db1, l)"
    using retire_row_ok [of db lid now] by auto
  from retire_row_Inr(1) [OF Cons.prems(1) one]
  have "map l_id (db_leases db1) = map l_id (db_leases db)" by (auto simp: o_def)
  then have "distinct (map l_id (db_leases db1))" "set lids \<subseteq> l_id ` set (db_leases db1)"
    using Cons.prems by (simp_all, metis set_map)
  from Cons.IH [OF this] one show ?case by auto
qed simp

section \<open>Methods that change one lease\<close>

lemma fleet_inv_distinct: "fleet_inv db \<Longrightarrow> distinct (map l_id (db_leases db))"
  by (simp add: fleet_inv_def tables_ok_def)

lemma fleet_inv_leases:
  assumes "fleet_inv db" and "\<And>l. l \<in> set (db_leases db) \<Longrightarrow> lease_advance l (f l)"
  shows "fleet_inv (db\<lparr>db_leases := map f (db_leases db), db_events := ev\<rparr>)"
  using tables_ok_advance assms by (simp add: fleet_inv_def)

lemma retire_rows_inv:
  assumes "fleet_inv db" "retire_rows now lids db = Inr (db', ls)"
  shows "fleet_inv db'"
  using retire_rows_Inr [OF fleet_inv_distinct [OF assms(1)] assms(2)] assms(1)
  by (auto intro!: fleet_inv_leases)

lemma retire_row_inv:
  assumes "fleet_inv db" "retire_row now lid db = Inr (db', l)"
  shows "fleet_inv db'"
  using retire_row_Inr(1) [OF fleet_inv_distinct [OF assms(1)] assms(2)] assms(1)
  by (auto intro!: fleet_inv_leases)

lemma set_state_inv:
  assumes inv: "fleet_inv db" and l: "lease_row db lid = Inr l" and adv: "lease_advance l (f l)"
  shows "fleet_inv (add_event now kind lid (set_state lid f db))"
proof -
  let ?f = "\<lambda>m. if l_id m = lid then f m else m"
  have "lease_advance m (?f m)" if "m \<in> set (db_leases db)" for m
  proof (cases "l_id m = lid")
    case True
    with lease_row_member [OF fleet_inv_distinct [OF inv] that] l have "m = l" by simp
    with adv True show ?thesis by simp
  qed simp
  then have "fleet_inv (db\<lparr>db_leases := map ?f (db_leases db), db_events := db_events db @ [(now, kind, lid)]\<rparr>)"
    by (rule fleet_inv_leases [OF inv])
  then show ?thesis by (simp add: add_event_def set_state_def update_rows_def)
qed

lemma mark_ready_inv: "fleet_inv db \<Longrightarrow> mark_ready now lid gen db = Inr (db', l') \<Longrightarrow> fleet_inv db'"
  by (auto simp: mark_ready_def transaction_Inr_iff Let_def split: if_splits intro!: set_state_inv)
    (auto simp: lease_advance_def in_service_def live_def)

lemma confirm_removed_inv:
  "fleet_inv db \<Longrightarrow> confirm_removed now lid gen db = Inr (db', l') \<Longrightarrow> fleet_inv db'"
  by (auto simp: confirm_removed_def transaction_Inr_iff Let_def split: if_splits intro!: set_state_inv)
    (auto simp: lease_advance_def in_service_def live_def)

lemma retire_inv: "fleet_inv db \<Longrightarrow> retire now lid db = Inr (db', l') \<Longrightarrow> fleet_inv db'"
  by (auto simp: retire_def transaction_Inr_iff intro: retire_row_inv [of "db\<lparr>db_last_now := now\<rparr>"])

lemma expire_inv: "fleet_inv db \<Longrightarrow> expire now limit db = Inr (db', ls) \<Longrightarrow> fleet_inv db'"
  by (auto simp: expire_def transaction_Inr_iff intro: retire_rows_inv [of "db\<lparr>db_last_now := now\<rparr>"])

section \<open>Access changes\<close>

definition access_cut :: "access_row \<Rightarrow> lease list \<Rightarrow> string list" where
  "access_cut new ls = map l_id (filter (\<lambda>l. l_device l = a_device new \<and> in_service l \<and>
     (a_revoked new \<or> a_expires new < l_expires l)) ls)"

lemma lease_ok_access:
  assumes ok: "lease_ok regs acc l" and l: "l \<in> set ls"
    and acc': "row (\<lambda>a. a_device a = l_device l) acc' =
      (if l_device l = a_device new then Some new else row (\<lambda>a. a_device a = l_device l) acc)"
    and rev: "\<And>old. row (\<lambda>a. a_device a = a_device new) acc = Some old \<Longrightarrow> a_revision old < a_revision new"
  shows "lease_ok regs acc' (retired (set (access_cut new ls)) l)"
proof -
  have cut: "l_device l = a_device new \<Longrightarrow> in_service l \<Longrightarrow> a_revoked new \<or> a_expires new < l_expires l \<Longrightarrow>
      l_id l \<in> set (access_cut new ls)"
    using l by (auto simp: access_cut_def)
  have "lease_ok regs acc (retired (set (access_cut new ls)) l)"
    using ok by (rule lease_ok_advance) simp
  moreover have "\<exists>a. row (\<lambda>a. a_device a = l_device l) acc' = Some a \<and> l_access_revision l \<le> a_revision a \<and>
      (in_service (retired (set (access_cut new ls)) l) \<longrightarrow> \<not> a_revoked a \<and> l_expires l \<le> a_expires a)"
  proof (cases "l_device l = a_device new")
    case True
    from ok obtain old where "row (\<lambda>a. a_device a = l_device l) acc = Some old"
      "l_access_revision l \<le> a_revision old" by (auto simp: lease_ok_def)
    with True rev [of old] cut have "l_access_revision l \<le> a_revision new \<and>
      (in_service (retired (set (access_cut new ls)) l) \<longrightarrow> \<not> a_revoked new \<and> l_expires l \<le> a_expires new)"
      using linorder_not_less by (auto simp: in_service_retired)
    moreover have "row (\<lambda>a. a_device a = l_device l) acc' = Some new" using True acc' by simp
    ultimately show ?thesis by blast
  next
    case False
    with ok show ?thesis by (auto simp: acc' lease_ok_def in_service_retired)
  qed
  ultimately show ?thesis by (simp add: lease_ok_def)
qed

lemma tables_ok_access:
  assumes ok: "tables_ok regs acc ls rqs" and d: "distinct (map a_device acc')"
    and acc': "\<And>dev. row (\<lambda>a. a_device a = dev) acc' =
      (if dev = a_device new then Some new else row (\<lambda>a. a_device a = dev) acc)"
    and rev: "\<And>old. row (\<lambda>a. a_device a = a_device new) acc = Some old \<Longrightarrow> a_revision old < a_revision new"
  shows "tables_ok regs acc' (map (retired (set (access_cut new ls))) ls) rqs"
proof -
  let ?f = "retired (set (access_cut new ls))"
  have "tables_ok regs acc (map ?f ls) rqs"
    using ok by (rule tables_ok_advance) simp
  moreover have "lease_ok regs acc' (?f l)" if "l \<in> set ls" for l
    using ok that by (intro lease_ok_access [OF _ that acc' rev]) (auto simp: tables_ok_def)
  ultimately show ?thesis using d by (simp add: tables_ok_def)
qed

lemma upsert_access_Inr:
  assumes u: "upsert_access new db = Inr db1"
    and same: "\<And>old. row (\<lambda>a. a_device a = a_device new) (db_access db) = Some old \<Longrightarrow>
      a_public old = a_public new \<and> a_wg old = a_wg new"
    and d: "distinct (map a_device (db_access db))"
  shows "\<exists>acc'. db1 = db\<lparr>db_access := acc'\<rparr> \<and> distinct (map a_device acc') \<and>
     (\<forall>dev. row (\<lambda>a. a_device a = dev) acc' =
       (if dev = a_device new then Some new else row (\<lambda>a. a_device a = dev) (db_access db)))"
proof (cases "a_device new \<in> a_device ` set (db_access db)")
  case True
  let ?up = "\<lambda>a. a\<lparr>a_revision := a_revision new, a_expires := a_expires new,
     a_max_leases := a_max_leases new, a_revoked := a_revoked new\<rparr>"
  let ?acc = "update_rows (\<lambda>a. a_device a = a_device new) ?up (db_access db)"
  from True obtain old where old: "row (\<lambda>a. a_device a = a_device new) (db_access db) = Some old"
    by (metis not_None_eq row_eq_None_key)
  then have "a_device old = a_device new" by auto
  with same [OF old] have "?up old = new" by (cases old, cases new) simp
  with old have "row (\<lambda>a. a_device a = dev) ?acc =
      (if dev = a_device new then Some new else row (\<lambda>a. a_device a = dev) (db_access db))" for dev
    by (simp add: row_update_rows)
  moreover have "map a_device ?acc = map a_device (db_access db)" by (simp add: map_update_rows)
  ultimately show ?thesis using u True d by (auto simp: upsert_access_def)
next
  case False
  then have "row (\<lambda>a. a_device a = a_device new) (db_access db) = None" by (simp add: row_eq_None_key)
  with u False d show ?thesis
    by (intro exI [of _ "db_access db @ [new]"])
      (auto simp: upsert_access_def row_append split: if_splits option.splits)
qed

lemma set_access_inv:
  assumes inv: "fleet_inv db" and r: "set_access env now new db = Inr (db', u)"
  shows "fleet_inv db'"
proof (cases "access_of db (a_device new) = Some new")
  case True
  with r inv show ?thesis
    by (auto simp: set_access_def transaction_Inr_iff access_of_def)
next
  case False
  let ?db = "db\<lparr>db_last_now := now\<rparr>"
  from r False obtain db1 db2 ls where
    old: "\<And>old. row (\<lambda>a. a_device a = a_device new) (db_access db) = Some old \<Longrightarrow>
        a_public old = a_public new \<and> a_wg old = a_wg new \<and> a_revision old < a_revision new"
    and up: "upsert_access new ?db = Inr db1"
    and ret: "retire_rows now (access_cut new (db_leases db1)) db1 = Inr (db2, ls)"
    and db': "fleet_inv db' = fleet_inv db2"
    by (auto simp: set_access_def transaction_Inr_iff access_of_def access_cut_def split: option.splits)
  from inv have ok: "tables_ok (db_registries db) (db_access db) (db_leases db) (db_requests db)"
    by (simp add: fleet_inv_def)
  have d: "distinct (map a_device (db_access ?db))" using ok by (simp add: tables_ok_def)
  have same: "a_public x = a_public new \<and> a_wg x = a_wg new"
    if "row (\<lambda>a. a_device a = a_device new) (db_access ?db) = Some x" for x
    using old that by simp
  from upsert_access_Inr [OF up same d] obtain acc' where
    db1: "db1 = ?db\<lparr>db_access := acc'\<rparr>" and d': "distinct (map a_device acc')"
    and acc': "\<And>dev. row (\<lambda>a. a_device a = dev) acc' =
       (if dev = a_device new then Some new else row (\<lambda>a. a_device a = dev) (db_access db))"
    by auto
  have leases1: "db_leases db1 = db_leases db" by (simp add: db1)
  have "distinct (map l_id (db_leases db1))" using ok by (simp add: leases1 tables_ok_def)
  from retire_rows_Inr [OF this ret] obtain ev where
    db2: "db2 = db1\<lparr>db_leases := map (retired (set (access_cut new (db_leases db)))) (db_leases db),
       db_events := ev\<rparr>" by (auto simp: leases1)
  have "tables_ok (db_registries db) acc'
     (map (retired (set (access_cut new (db_leases db)))) (db_leases db)) (db_requests db)"
    using old by (intro tables_ok_access [OF ok d' acc']) blast
  then show ?thesis unfolding db' by (simp add: db2 db1 fleet_inv_def)
qed

section \<open>Registry updates\<close>

lemma newest_None [simp]: "newest regs = None \<longleftrightarrow> regs = []"
  by (cases regs) (auto split: option.splits)

lemma newest_SomeD: "newest regs = Some r \<Longrightarrow> r \<in> set regs \<and> (\<forall>q \<in> set regs. rg_revision q \<le> rg_revision r)"
proof (induction regs arbitrary: r)
  case (Cons a regs)
  show ?case
  proof (cases "newest regs")
    case (Some m)
    with Cons.IH [OF Some] Cons.prems show ?thesis by (fastforce split: if_splits)
  qed (use Cons.prems in auto)
qed simp

lemma newest_append:
  "newest regs = Some p \<Longrightarrow> rg_revision p < rg_revision c \<Longrightarrow> newest (regs @ [c]) = Some c"
proof (induction regs arbitrary: p)
  case (Cons r rs)
  show ?case
  proof (cases "newest rs")
    case None
    with Cons.prems show ?thesis by simp
  next
    case (Some m)
    with Cons.prems have "rg_revision m < rg_revision c" by (auto split: if_splits)
    moreover from this have "rg_revision r < rg_revision c"
      using newest_SomeD [OF Cons.prems(1)] Cons.prems(2) by force
    ultimately show ?thesis using Cons.IH [OF Some] by simp
  qed
qed simp

definition out_of_service :: "gateway \<Rightarrow> bool" where
  "out_of_service g \<longleftrightarrow> g_state g = ''disabled'' \<or> g_state g = ''provisioning''"

lemma install_nodes_Inr:
  assumes "install_nodes p now nodes db = Inr db'" "distinct (map l_id (db_leases db))"
  shows "\<exists>S ev. db' = db\<lparr>db_leases := map (retired S) (db_leases db), db_events := ev\<rparr> \<and>
     (\<forall>node \<in> set nodes. \<forall>l \<in> set (db_leases db). l_gateway l = g_id node \<longrightarrow> in_service l \<longrightarrow>
        out_of_service node \<longrightarrow> gateway_of p (g_id node) \<noteq> None \<longrightarrow> l_id l \<in> S)"
  using assms
proof (induction nodes arbitrary: db)
  case Nil
  then show ?case by (auto intro!: exI [of _ "{}"] exI [of _ "db_events db"] simp: retired_def)
next
  case (Cons node nodes)
  show ?case
  proof (cases "out_of_service node \<and> gateway_of p (g_id node) \<noteq> None")
    case False
    with Cons.prems have "install_nodes p now nodes db = Inr db'"
      by (auto simp: out_of_service_def split: option.splits if_splits)
    from Cons.IH [OF this Cons.prems(2)] False show ?thesis by auto
  next
    case True
    let ?ids = "map l_id (filter (\<lambda>l. l_gateway l = g_id node \<and> in_service l) (db_leases db))"
    from True Cons.prems obtain db1 ls where
      ret: "retire_rows now ?ids db = Inr (db1, ls)" and rest: "install_nodes p now nodes db1 = Inr db'"
      by (auto simp: out_of_service_def split: option.splits if_splits)
    from retire_rows_Inr [OF Cons.prems(2) ret] obtain ev1 where
      db1: "db1 = db\<lparr>db_leases := map (retired (set ?ids)) (db_leases db), db_events := ev1\<rparr>" by blast
    have "distinct (map l_id (db_leases db1))"
      using Cons.prems(2) by (simp add: db1 retired_keys comp_def)
    from Cons.IH [OF rest this] obtain S ev where
      db': "db' = db1\<lparr>db_leases := map (retired S) (db_leases db1), db_events := ev\<rparr>" and
      S: "\<And>n l. n \<in> set nodes \<Longrightarrow> l \<in> set (db_leases db1) \<Longrightarrow> l_gateway l = g_id n \<Longrightarrow> in_service l \<Longrightarrow>
        out_of_service n \<Longrightarrow> gateway_of p (g_id n) \<noteq> None \<Longrightarrow> l_id l \<in> S" by blast
    have S': "l_id l \<in> S \<union> set ?ids"
      if "n \<in> set (node # nodes)" "l \<in> set (db_leases db)" "l_gateway l = g_id n" "in_service l"
        "out_of_service n" "gateway_of p (g_id n) \<noteq> None" for n l
    proof (cases "n = node \<or> l_id l \<in> set ?ids")
      case True
      with that show ?thesis by auto
    next
      case False
      with that have "n \<in> set nodes" by simp
      moreover have "retired (set ?ids) l = l" using False by (simp add: retired_def)
      then have "l \<in> set (db_leases db1)" using that(2) by (force simp: db1)
      ultimately show ?thesis using S [of n l] that by simp
    qed
    have "db' = db\<lparr>db_leases := map (retired (S \<union> set ?ids)) (db_leases db), db_events := ev\<rparr>"
      by (simp add: db' db1 comp_def retired_retired Un_commute)
    with S' show ?thesis by blast
  qed
qed

lemma tables_ok_registry:
  assumes ok: "tables_ok regs acc ls rqs" and p: "newest regs = Some p"
    and c: "registry_wf c" and up: "validate_update p c = Inr c'"
    and S: "\<And>node l. node \<in> set (rg_gateways c) \<Longrightarrow> l \<in> set ls \<Longrightarrow> l_gateway l = g_id node \<Longrightarrow>
        in_service l \<Longrightarrow> out_of_service node \<Longrightarrow> gateway_of p (g_id node) \<noteq> None \<Longrightarrow> l_id l \<in> S"
  shows "tables_ok (regs @ [c]) acc (map (retired S) ls) rqs"
proof -
  have rev: "rg_revision p < rg_revision c" by (rule validate_updateD [OF up])
  have new: "newest (regs @ [c]) = Some c" using p rev by (rule newest_append)
  have fresh: "rg_revision c \<notin> rg_revision ` set regs"
    using newest_SomeD [OF p] rev by force
  have "tables_ok regs acc (map (retired S) ls) rqs"
    using ok by (rule tables_ok_advance) simp
  moreover have "lease_ok (regs @ [c]) acc (retired S l)" if l: "l \<in> set ls" for l
  proof -
    have "lease_ok regs acc l" using ok l by (simp add: tables_ok_def)
    then have lok: "lease_ok regs acc (retired S l)" by (rule lease_ok_advance) simp
    then obtain g where g: "gateway_of p (l_gateway l) = Some g"
      "p_base (g_pool g) + 2 \<le> l_address l" "l_address l < broadcast (g_pool g)"
      using p by (auto simp: lease_ok_def retired_keys)
    from validate_updateD(3) [OF up g(1)] obtain h where
      h: "gateway_of c (l_gateway l) = Some h" "g_pool h = g_pool g" by blast
    have "h \<in> set (rg_gateways c)" "g_id h = l_gateway l" using gateway_of_SomeD [OF h(1)] by auto
    with S [of h l] g(1) l have cut: "in_service l \<Longrightarrow> out_of_service h \<Longrightarrow> l_id l \<in> S" by auto
    have "g_state h \<in> {''provisioning'', ''active'', ''draining'', ''disabled''}"
      using registry_wf_gateway [OF c h(1)] by (simp add: valid_gateway_def)
    with cut have "in_service (retired S l) \<Longrightarrow> g_state h = ''active'' \<or> g_state h = ''draining''"
      by (auto simp: in_service_retired out_of_service_def)
    moreover have "row (\<lambda>r. rg_revision r = l_registry_revision l) (regs @ [c]) =
        row (\<lambda>r. rg_revision r = l_registry_revision l) regs"
      using lok by (auto simp: lease_ok_def row_append retired_keys)
    ultimately show ?thesis using lok new h g by (simp add: lease_ok_def retired_keys)
  qed
  ultimately show ?thesis using c new fresh by (simp add: tables_ok_def)
qed

lemma install_registry_inv:
  assumes inv: "fleet_inv db" and r: "install_registry env now reg db = Inr (db', u)"
  shows "fleet_inv db'"
proof -
  let ?db = "db\<lparr>db_last_now := now\<rparr>"
  from inv have ok: "tables_ok (db_registries db) (db_access db) (db_leases db) (db_requests db)"
    by (simp add: fleet_inv_def)
  from r obtain c p where c: "registry_wf c" and p: "newest (db_registries db) = Some p"
    and body: "(c = p \<and> db' = ?db) \<or> (\<exists>c' db1. validate_update p c = Inr c' \<and>
      install_nodes p now (rg_gateways c) ?db = Inr db1 \<and>
      db' = add_event now ''registry'' (str_int (rg_revision c)) (db1\<lparr>db_registries := db_registries db1 @ [c]\<rparr>))"
    by (auto simp: install_registry_def transaction_Inr_iff registry_row_def
        dest: load_registryD split: option.splits if_splits)
  from body show ?thesis
  proof (elim disjE exE conjE)
    fix c' db1
    assume up: "validate_update p c = Inr c'" and nodes: "install_nodes p now (rg_gateways c) ?db = Inr db1"
      and db': "db' = add_event now ''registry'' (str_int (rg_revision c)) (db1\<lparr>db_registries := db_registries db1 @ [c]\<rparr>)"
    have "distinct (map l_id (db_leases ?db))" using ok by (simp add: tables_ok_def)
    from install_nodes_Inr [OF nodes this] obtain S ev where
      db1: "db1 = ?db\<lparr>db_leases := map (retired S) (db_leases db), db_events := ev\<rparr>" and
      S: "\<forall>node \<in> set (rg_gateways c). \<forall>l \<in> set (db_leases db). l_gateway l = g_id node \<longrightarrow> in_service l \<longrightarrow>
        out_of_service node \<longrightarrow> gateway_of p (g_id node) \<noteq> None \<longrightarrow> l_id l \<in> S" by auto
    have "tables_ok (db_registries db @ [c]) (db_access db) (map (retired S) (db_leases db)) (db_requests db)"
      using S by (intro tables_ok_registry [OF ok p c up]) blast
    then show ?thesis by (simp add: db' db1 fleet_inv_def add_event_def)
  qed (simp add: inv)
qed

end
