(* ===== verification/Fleet_Safety.thy ===== *)
theory Fleet_Safety
  imports Fleet_Store_Inv
begin

text \<open>
  Allocation, and the lease store as a state machine: \<open>fleet_op\<close> is one call of a public method of
  \<open>FleetStore\<close>, \<open>fleet_exec\<close> its effect on the database, and the theorems speak of every database that
  any sequence of calls reaches from \<open>initialize\<close>.
\<close>

section \<open>Choosing a gateway and an address\<close>

lemma find_SomeD: "List.find P xs = Some x \<Longrightarrow> x \<in> set xs \<and> P x"
  by (induction xs) (auto split: if_splits)

lemma free_address_SomeD:
  assumes "free_address db gid pool = Some n"
  shows "p_base pool + 2 \<le> n" "n < broadcast pool"
    "l \<in> set (db_leases db) \<Longrightarrow> l_gateway l = gid \<Longrightarrow> live l \<Longrightarrow> l_address l \<noteq> n"
  using assms by (auto simp: free_address_def dest!: find_SomeD)

lemma free_address_NoneD:
  assumes "free_address db gid pool = None"
  shows "{p_base pool + 2 .. broadcast pool - 1} \<subseteq>
    set (map l_address (filter (\<lambda>l. l_gateway l = gid \<and> live l) (db_leases db)))"
  using assms by (auto simp: free_address_def find_None_iff)

text \<open>A gateway below its durable limit always has an address left: \<open>capacity_matches_pool\<close> keeps the
  limit within the hosts of the pool.\<close>

lemma room_has_address:
  assumes "valid_gateway node" "live_count db gid < g_max_devices node"
  shows "free_address db gid (g_pool node) \<noteq> None"
proof
  let ?used = "map l_address (filter (\<lambda>l. l_gateway l = gid \<and> live l) (db_leases db))"
  let ?hosts = "{p_base (g_pool node) + 2 .. broadcast (g_pool node) - 1}"
  assume "free_address db gid (g_pool node) = None"
  then have "?hosts \<subseteq> set ?used" by (rule free_address_NoneD)
  then have "card ?hosts \<le> card (set ?used)" by (intro card_mono) auto
  also have "\<dots> \<le> length ?used" by (rule card_length)
  finally have "int (card ?hosts) \<le> live_count db gid"
    unfolding live_count_def count_rows_def by (simp only: length_map of_nat_le_iff)
  moreover have "int (card ?hosts) \<ge> num_addresses (g_pool node) - 3" by (simp add: broadcast_def)
  moreover have "g_max_devices node \<le> num_addresses (g_pool node) - 3"
    using assms(1) by (simp add: valid_gateway_def capacity_matches_pool_def)
  ultimately show False using assms(2) by linarith
qed

lemma pick_gateway_InrD:
  "pick_gateway registry db used gids = Inr (gid, address) \<Longrightarrow>
     gid \<in> set gids \<and> gid \<notin> used \<and> (\<exists>node. gateway_of registry gid = Some node \<and>
       live_count db gid < g_max_devices node \<and> free_address db gid (g_pool node) = Some address)"
  by (induction gids) (auto split: option.splits if_splits)

lemma pick_gateway_InlD:
  assumes "pick_gateway registry db used gids = Inl e" "registry_wf registry"
    "\<And>gid. gid \<in> set gids \<Longrightarrow> gateway_of registry gid \<noteq> None"
  shows "e = LeaseRejected ''no-capacity'' \<and>
     (\<forall>gid \<in> set gids. gid \<in> used \<or> (\<exists>node. gateway_of registry gid = Some node \<and> g_max_devices node \<le> live_count db gid))"
  using assms
proof (induction gids)
  case (Cons gid gids)
  from Cons.prems(3) obtain node where node: "gateway_of registry gid = Some node" by fastforce
  have "gid \<in> used \<or> g_max_devices node \<le> live_count db gid"
  proof (rule ccontr)
    assume no: "\<not> ?thesis"
    then obtain a where "free_address db gid (g_pool node) = Some a"
      using room_has_address [OF registry_wf_gateway [OF Cons.prems(2) node], of db gid] by fastforce
    with no node Cons.prems(1) show False by simp
  qed
  with Cons node show ?case by (auto split: if_splits)
qed simp

lemma rank_none_active:
  assumes "rank_gateways dg r obs device country transport version now None max_age families = Inr ids"
    "registry_wf r" "gid \<in> set ids"
  obtains g where "gateway_of r gid = Some g" "g_state g = ''active''" "serves country transport version families g"
proof -
  from rank_gateways_InrD [OF assms(1)] obtain samples where s: "collect_samples [] obs = Inr samples" by blast
  from rank_gateways_set [OF assms(1) s assms(2)] assms(3) obtain g s where
    g: "g \<in> set (rg_gateways r)" "g_id g = gid" "has_room g s"
    "admitting r samples country transport version now max_age families g = Some s" by auto
  then have "serves country transport version families g"
    by (auto simp: admitting_def split: option.splits if_splits)
  with that gateway_of_member [OF assms(2) g(1)] g show thesis by (auto simp: has_room_def)
qed

section \<open>Reservation\<close>

text \<open>What a successful allocation did.\<close>

definition allocated ::
  "fleet_env \<Rightarrow> int \<Rightarrow> string \<Rightarrow> access_row \<Rightarrow> reservation \<Rightarrow> fleet_db \<Rightarrow> fleet_db \<Rightarrow> lease \<Rightarrow> bool" where
  "allocated env now uuid access rv db db' l \<longleftrightarrow>
     (\<exists>registry node gid address.
        l = new_lease now uuid access rv registry gid address \<and>
        newest (db_registries db) = Some registry \<and> gateway_of registry gid = Some node \<and>
        g_state node = ''active'' \<and>
        serves (Some (rv_country rv)) (rv_transport rv) (rv_version rv) (rv_families rv) node \<and>
        live_count db gid < g_max_devices node \<and>
        free_address db gid (g_pool node) = Some address) \<and>
     int (length (filter (\<lambda>m. l_device m = a_device access \<and> live m) (db_leases db))) < a_max_leases access \<and>
     (\<forall>m \<in> set (db_leases db). l_device m = a_device access \<longrightarrow> live m \<longrightarrow> l_gateway m \<noteq> l_gateway l \<and>
        (l_country m, l_transport m, l_version m) \<noteq> (rv_country rv, rv_transport rv, rv_version rv)) \<and>
     uuid \<notin> l_id ` set (db_leases db) \<and>
     db' = db\<lparr>db_leases := db_leases db @ [l],
              db_requests := db_requests db @ [\<lparr>rq_device = a_device access, rq_request_id = rv_request_id rv,
                 rq_fingerprint = fingerprint env rv, rq_lease = uuid\<rparr>],
              db_events := db_events db @ [(now, ''reserved'', uuid)]\<rparr>"

lemma allocatedE:
  assumes "allocated env now uuid access rv db db' l"
  obtains registry node gid address where
    "l = new_lease now uuid access rv registry gid address"
    "newest (db_registries db) = Some registry" "gateway_of registry gid = Some node" "g_state node = ''active''"
    "serves (Some (rv_country rv)) (rv_transport rv) (rv_version rv) (rv_families rv) node"
    "live_count db gid < g_max_devices node" "free_address db gid (g_pool node) = Some address"
    "uuid \<notin> l_id ` set (db_leases db)"
    "db' = db\<lparr>db_leases := db_leases db @ [l],
      db_requests := db_requests db @ [\<lparr>rq_device = a_device access, rq_request_id = rv_request_id rv,
         rq_fingerprint = fingerprint env rv, rq_lease = uuid\<rparr>],
      db_events := db_events db @ [(now, ''reserved'', uuid)]\<rparr>"
  using assms unfolding allocated_def by (elim conjE exE) (rule that; assumption)

lemma fleet_inv_newest:
  assumes "fleet_inv db" "registry_row db = Inr r"
  shows "newest (db_registries db) = Some r" "registry_wf r" "r \<in> set (db_registries db)"
  using assms newest_SomeD [of "db_registries db" r]
  by (auto simp: fleet_inv_def tables_ok_def registry_row_def split: option.splits)

lemma lease_row_appended:
  assumes "l_id l \<notin> l_id ` set (db_leases db)"
  shows "lease_row (db\<lparr>db_leases := db_leases db @ [l], db_requests := q, db_events := e\<rparr>) (l_id l) = Inr l"
proof -
  have "row (\<lambda>m. l_id m = l_id l) (db_leases db) = None" using assms by (simp add: row_eq_None_key)
  then show ?thesis by (simp add: lease_row_def row_append)
qed

lemma allocate_Inr:
  assumes inv: "fleet_inv db" and r: "allocate env now uuid access rv obs db = Inr (db', l)"
  shows "allocated env now uuid access rv db db' l"
proof -
  let ?existing = "filter (\<lambda>m. l_device m = a_device access \<and> live m) (db_leases db)"
  from r obtain registry ids gid address db1 db2 where
    reg: "registry_row db = Inr registry"
    and chk: "\<not> list_ex (\<lambda>m. (l_country m, l_transport m, l_version m) =
        (rv_country rv, rv_transport rv, rv_version rv)) ?existing"
      "int (length ?existing) < a_max_leases access"
    and rank: "rank_gateways (env_sha256 env) registry (with_durable_counts db obs) (a_device access)
        (Some (rv_country rv)) (rv_transport rv) (rv_version rv) now None 45 (rv_families rv) = Inr ids"
    and pick: "pick_gateway registry db (l_gateway ` set ?existing) ids = Inr (gid, address)"
    and ins: "insert_lease (new_lease now uuid access rv registry gid address) db = Inr db1"
    and req: "insert_request \<lparr>rq_device = a_device access, rq_request_id = rv_request_id rv,
        rq_fingerprint = fingerprint env rv, rq_lease = uuid\<rparr> db1 = Inr db2"
    and db': "db' = add_event now ''reserved'' uuid db2" and l: "lease_row db' uuid = Inr l"
    by (auto simp: allocate_def Let_def)
  let ?new = "new_lease now uuid access rv registry gid address"
  note nw = fleet_inv_newest [OF inv reg]
  from pick_gateway_InrD [OF pick] obtain node where
    node: "gid \<in> set ids" "gid \<notin> l_gateway ` set ?existing" "gateway_of registry gid = Some node"
      "live_count db gid < g_max_devices node" "free_address db gid (g_pool node) = Some address" by blast
  have act: "g_state node = ''active''"
    "serves (Some (rv_country rv)) (rv_transport rv) (rv_version rv) (rv_families rv) node"
    using rank_none_active [OF rank nw(2) node(1)] node(3) by auto
  have uuid: "uuid \<notin> l_id ` set (db_leases db)" and db1: "db1 = db\<lparr>db_leases := db_leases db @ [?new]\<rparr>"
    using ins by (auto simp: insert_lease_def new_lease_def split: if_splits)
  have db2: "db2 = db1\<lparr>db_requests := db_requests db1 @ [\<lparr>rq_device = a_device access,
      rq_request_id = rv_request_id rv, rq_fingerprint = fingerprint env rv, rq_lease = uuid\<rparr>]\<rparr>"
    using req by (auto simp: insert_request_def split: if_splits)
  have "lease_row db' (l_id ?new) = Inr ?new"
    unfolding db' db2 db1 add_event_def using lease_row_appended [of ?new db] uuid by (simp add: new_lease_def)
  with l have l_eq: "l = ?new" by (simp add: new_lease_def)
  have ex: "\<exists>registry node gid address. l = new_lease now uuid access rv registry gid address \<and>
      newest (db_registries db) = Some registry \<and> gateway_of registry gid = Some node \<and>
      g_state node = ''active'' \<and>
      serves (Some (rv_country rv)) (rv_transport rv) (rv_version rv) (rv_families rv) node \<and>
      live_count db gid < g_max_devices node \<and> free_address db gid (g_pool node) = Some address"
    using nw(1) node act l_eq by blast
  have others: "l_gateway m \<noteq> l_gateway l \<and>
      (l_country m, l_transport m, l_version m) \<noteq> (rv_country rv, rv_transport rv, rv_version rv)"
    if "m \<in> set (db_leases db)" "l_device m = a_device access" "live m" for m
    using node(2) chk(1) that by (auto simp: l_eq new_lease_def list_ex_iff)
  show ?thesis
    unfolding allocated_def
    by (intro conjI ex chk uuid ballI impI others) (simp_all add: db' db2 db1 add_event_def l_eq)
qed

lemma row_member: "r \<in> set t \<Longrightarrow> distinct (map k t) \<Longrightarrow> row (\<lambda>x. k x = k r) t = Some r"
  using row_key_unique [of k t r "\<lambda>x. k x = k r"] by simp

lemma row_gateway:
  assumes "registry_wf r" "gateway_of r gid = Some g"
  shows "row (\<lambda>g. g_id g = gid) (rg_gateways r) = Some g"
proof -
  have "distinct (map g_id (rg_gateways r))"
    using assms(1) unique_inventoryD(2) by (force simp: registry_wf_def)
  with gateway_of_SomeD [OF assms(2)] row_member [of g "rg_gateways r" g_id] show ?thesis by auto
qed

lemma new_lease_fields [simp]:
  "l_id (new_lease now uuid access rv registry gid address) = uuid"
  "l_device (new_lease now uuid access rv registry gid address) = a_device access"
  "l_gateway (new_lease now uuid access rv registry gid address) = gid"
  "l_address (new_lease now uuid access rv registry gid address) = address"
  "l_country (new_lease now uuid access rv registry gid address) = rv_country rv"
  "l_transport (new_lease now uuid access rv registry gid address) = rv_transport rv"
  "l_version (new_lease now uuid access rv registry gid address) = rv_version rv"
  "l_registry_revision (new_lease now uuid access rv registry gid address) = rg_revision registry"
  "l_access_revision (new_lease now uuid access rv registry gid address) = a_revision access"
  "l_expires (new_lease now uuid access rv registry gid address) = min (now + rv_lifetime rv) (a_expires access)"
  "l_generation (new_lease now uuid access rv registry gid address) = 1"
  "in_service (new_lease now uuid access rv registry gid address)"
  "live (new_lease now uuid access rv registry gid address)"
  by (simp_all add: new_lease_def in_service_def live_def)

lemma new_lease_ok:
  assumes ok: "tables_ok regs acc ls rqs" and a: "row (\<lambda>a. a_device a = a_device access) acc = Some access"
    and "\<not> a_revoked access" and r: "newest regs = Some registry" and g: "gateway_of registry gid = Some node"
    and "g_state node = ''active''" "p_base (g_pool node) + 2 \<le> address" "address < broadcast (g_pool node)"
  shows "lease_ok regs acc (new_lease now uuid access rv registry gid address)"
proof -
  have wf: "registry_wf registry" and mem: "registry \<in> set regs" and d: "distinct (map rg_revision regs)"
    using ok newest_SomeD [OF r] by (auto simp: tables_ok_def)
  show ?thesis
    using assms row_member [OF mem d] row_gateway [OF wf g] by (simp add: lease_ok_def)
qed

lemma tables_ok_insert:
  assumes ok: "tables_ok regs acc ls rqs" and new: "lease_ok regs acc l" "l_id l \<notin> l_id ` set ls"
    and clash: "\<And>m. m \<in> set ls \<Longrightarrow> live m \<Longrightarrow> no_clash l m"
    and q: "rq_lease q = l_id l"
  shows "tables_ok regs acc (ls @ [l]) (rqs @ [q])"
proof -
  have "no_clash m l" if "m \<in> set ls" "live m" for m
    using clash [OF that] by (auto simp: no_clash_def)
  then have "\<forall>x \<in> set (ls @ [l]). \<forall>y \<in> set (ls @ [l]). l_id x \<noteq> l_id y \<longrightarrow> live x \<longrightarrow> live y \<longrightarrow> no_clash x y"
    using ok clash by (simp add: tables_ok_def)
  moreover have "\<forall>r \<in> set (rqs @ [q]). rq_lease r \<in> l_id ` set (ls @ [l])"
    using ok q by (auto simp: tables_ok_def)
  ultimately show ?thesis using ok new unfolding tables_ok_def by simp
qed

lemma allocated_no_clash:
  assumes "allocated env now uuid access rv db db' l" "m \<in> set (db_leases db)" "live m"
  shows "no_clash l m"
  using assms(1)
proof (cases rule: allocatedE)
  case al: (1 registry node gid address)
  have "l_gateway m \<noteq> gid \<and> (l_country m, l_transport m, l_version m) \<noteq> (rv_country rv, rv_transport rv, rv_version rv)"
    if "l_device m = a_device access"
    using assms that unfolding allocated_def al(1) new_lease_fields by blast
  with free_address_SomeD(3) [OF al(7) assms(2) _ assms(3)] show ?thesis
    by (auto simp: no_clash_def al(1))
qed

lemma allocated_inv:
  assumes inv: "fleet_inv db" and al: "allocated env now uuid access rv db db' l"
    and a: "access_of db (a_device access) = Some access" "\<not> a_revoked access"
  shows "fleet_inv db'"
  using al
proof (cases rule: allocatedE)
  case al': (1 registry node gid address)
  have ok: "tables_ok (db_registries db) (db_access db) (db_leases db) (db_requests db)"
    using inv by (simp add: fleet_inv_def)
  have row: "row (\<lambda>x. a_device x = a_device access) (db_access db) = Some access"
    using a(1) by (simp add: access_of_def)
  have lok: "lease_ok (db_registries db) (db_access db) l"
    unfolding al'(1) by (rule new_lease_ok [OF ok row a(2) al'(2-4) free_address_SomeD(1,2) [OF al'(7)]])
  have id: "l_id l \<notin> l_id ` set (db_leases db)" using al'(8) unfolding al'(1) new_lease_fields .
  have "tables_ok (db_registries db) (db_access db) (db_leases db @ [l]) (db_requests db @ [\<lparr>rq_device = a_device access,
      rq_request_id = rv_request_id rv, rq_fingerprint = fingerprint env rv, rq_lease = uuid\<rparr>])"
    by (rule tables_ok_insert [OF ok lok id allocated_no_clash [OF al]]) (simp_all add: al'(1))
  then show ?thesis unfolding al'(9) by (simp add: fleet_inv_def)
qed

lemma authorized_InrD:
  "authorized db device now = Inr a \<Longrightarrow>
     access_of db device = Some a \<and> a_device a = device \<and> \<not> a_revoked a \<and> now < a_expires a"
  by (auto simp: authorized_def access_of_def split: option.splits if_splits)

lemma reserve_Inr:
  assumes "fleet_inv db" "reserve env now uuid device rv obs db = Inr (db', l)"
  obtains
    (prior) q where "q \<in> set (db_requests db)" "rq_device q = device" "rq_request_id q = rv_request_id rv"
      "rq_fingerprint q = fingerprint env rv" "db' = db\<lparr>db_last_now := now\<rparr>" "lease_row db (rq_lease q) = Inr l"
  | (fresh) access where "authorized db device now = Inr access"
      "allocated env now uuid access rv (db\<lparr>db_last_now := now\<rparr>) db' l"
      "row (\<lambda>q. rq_device q = device \<and> rq_request_id q = rv_request_id rv) (db_requests db) = None"
proof -
  let ?db = "db\<lparr>db_last_now := now\<rparr>"
  from assms(2) have "reserve_row env now uuid device rv obs ?db = Inr (db', l)"
    by (simp add: reserve_def transaction_Inr_iff)
  then obtain access where a: "authorized ?db device now = Inr access" and
    body: "(case row (\<lambda>q. rq_device q = device \<and> rq_request_id q = rv_request_id rv) (db_requests ?db) of
       Some prior \<Rightarrow>
         bind_res (check (rq_fingerprint prior = fingerprint env rv) (LeaseRejected ''request-conflict'')) (\<lambda>_.
         bind_res (lease_row ?db (rq_lease prior)) (\<lambda>l. Inr (?db, l)))
     | None \<Rightarrow> allocate env now uuid access rv obs ?db) = Inr (db', l)"
    by (auto simp: reserve_row_def)
  show thesis
  proof (cases "row (\<lambda>q. rq_device q = device \<and> rq_request_id q = rv_request_id rv) (db_requests ?db)")
    case None
    with body have "allocate env now uuid access rv obs ?db = Inr (db', l)" by simp
    with assms(1) have "allocated env now uuid access rv ?db db' l" by (intro allocate_Inr) simp_all
    moreover have "authorized db device now = Inr access" using a by (simp add: authorized_def access_of_def)
    ultimately show thesis using None by (intro fresh) simp_all
  next
    case (Some q)
    with body have "rq_fingerprint q = fingerprint env rv" "db' = ?db" "lease_row db (rq_lease q) = Inr l"
      by (auto simp: lease_row_def)
    with row_SomeD [OF Some] show thesis by (intro prior) simp_all
  qed
qed

lemma reserve_inv:
  assumes "fleet_inv db" "reserve env now uuid device rv obs db = Inr (db', l)"
  shows "fleet_inv db'"
  using assms
proof (cases rule: reserve_Inr)
  case (fresh access)
  note a = authorized_InrD [OF fresh(1)]
  show ?thesis
    by (rule allocated_inv [OF _ fresh(2)]) (use a assms(1) in \<open>simp_all add: access_of_def\<close>)
qed (use assms in simp)

end
