(* ===== verification/Device_Proof.thy ===== *)
theory Device_Proof
  imports Json
begin

text \<open>
  Ownership proofs of \<open>device_identity/device.py\<close>: a device identity signs its transport key together
  with a challenge of the server.  The Reticulum identity (its hash, its signatures) is code outside the
  sources and a parameter: \<open>ident raw\<close> is the hash of the identity with public key \<open>raw\<close>, \<open>validates raw
  signature message\<close> its signature check.  What arrives from the wire is a \<open>json\<close> value.
\<close>

section \<open>Wire fields\<close>

text \<open>\<open>_decode(value, size)\<close> on a value of any type.\<close>

definition decode_value :: "nat \<Rightarrow> json \<Rightarrow> (string, string) res" where
  "decode_value n v = (case v of JStr s \<Rightarrow> decode_field n s | _ \<Rightarrow> Inl ''invalid public field'')"

text \<open>\<open>d.get(key)\<close>, and the value of a key that is present.\<close>

definition get_field :: "(string \<times> json) list \<Rightarrow> string \<Rightarrow> json" where
  "get_field d k = (case map_of d k of Some v \<Rightarrow> v | None \<Rightarrow> JNull)"

section \<open>Bindings\<close>

record transport_binding =
  tb_public :: string
  tb_wg :: string
  tb_challenge :: string
  tb_audience :: string

definition enrollment_audience :: string where
  "enrollment_audience = ''family-connect/enrollment/v1''"

definition reservation_audience :: string where
  "reservation_audience = ''family-connect/fleet-reservation/v1''"

definition transport_binding_of :: "json \<Rightarrow> json \<Rightarrow> json \<Rightarrow> json \<Rightarrow> (string, transport_binding) res" where
  "transport_binding_of public wg challenge audience =
     bind_res (decode_value 64 public) (\<lambda>_.
     bind_res (decode_value 32 wg) (\<lambda>_.
     bind_res (decode_value 32 challenge) (\<lambda>_.
     case (public, wg, challenge, audience) of
       (JStr p, JStr w, JStr c, JStr a) \<Rightarrow>
         if a \<in> {enrollment_audience, reservation_audience}
         then Inr \<lparr>tb_public = p, tb_wg = w, tb_challenge = c, tb_audience = a\<rparr>
         else Inl ''invalid enrollment audience''
     | _ \<Rightarrow> Inl ''invalid enrollment audience'')))"

definition binding_domain :: string where
  "binding_domain = ''family-connect/transport-key-binding/v1'' @ [byte_char 0]"

definition transport_message :: "transport_binding \<Rightarrow> string" where
  "transport_message b = binding_domain @ dumps (JObj
     [(''audience'', JStr (tb_audience b)), (''challenge'', JStr (tb_challenge b)),
      (''public_identity'', JStr (tb_public b)), (''schema_version'', JInt 1),
      (''transport'', JStr ''wireguard''), (''wireguard_public_key'', JStr (tb_wg b))])"

section \<open>Proving and verifying\<close>

text \<open>\<open>DeviceIdentity.prove_transport_key\<close>: the identity is its public key and its signing function.\<close>

definition prove_transport_key ::
  "string \<Rightarrow> string \<Rightarrow> (string \<Rightarrow> string) \<Rightarrow> json \<Rightarrow> string \<Rightarrow> (string, json) res" where
  "prove_transport_key public wg sign challenge audience =
     bind_res (transport_binding_of (JStr (b64encode public)) (JStr (b64encode wg)) challenge (JStr audience)) (\<lambda>b.
     Inr (JObj [(''schema_version'', JInt 1), (''public_identity'', JStr (tb_public b)),
       (''wireguard_public_key'', JStr (tb_wg b)), (''challenge'', JStr (tb_challenge b)),
       (''audience'', JStr (tb_audience b)), (''transport'', JStr ''wireguard''),
       (''signature'', JStr (b64encode (sign (transport_message b))))]))"

definition proof_fields :: "string list" where
  "proof_fields = [''schema_version'', ''public_identity'', ''wireguard_public_key'', ''challenge'',
     ''audience'', ''transport'', ''signature'']"

definition verify_transport_key_proof ::
  "(string \<Rightarrow> string) \<Rightarrow> (string \<Rightarrow> string \<Rightarrow> string \<Rightarrow> bool) \<Rightarrow> json \<Rightarrow> json \<Rightarrow> string \<Rightarrow> (string, string) res" where
  "verify_transport_key_proof ident validates proof expected_challenge audience =
     (case proof of
        JObj d \<Rightarrow>
          bind_res (check (set (map fst d) = set proof_fields) ''invalid ownership proof'') (\<lambda>_.
          bind_res (check (get_field d ''schema_version'' = JInt 1) ''unsupported ownership schema'') (\<lambda>_.
          bind_res (check (get_field d ''transport'' = JStr ''wireguard'') ''unsupported transport'') (\<lambda>_.
          bind_res (transport_binding_of (get_field d ''public_identity'') (get_field d ''wireguard_public_key'')
                      (get_field d ''challenge'') (get_field d ''audience'')) (\<lambda>b.
          bind_res (decode_value 32 expected_challenge) (\<lambda>_.
          bind_res (check (JStr (tb_challenge b) = expected_challenge \<and> tb_audience b = audience)
                      ''ownership challenge mismatch'') (\<lambda>_.
          bind_res (decode_field 64 (tb_public b)) (\<lambda>public.
          bind_res (decode_value 64 (get_field d ''signature'')) (\<lambda>signature.
          bind_res (check (validates public signature (transport_message b)) ''invalid ownership signature'') (\<lambda>_.
          Inr (bytes_hex (ident public)))))))))))
      | _ \<Rightarrow> Inl ''invalid ownership proof'')"

section \<open>Lemmas\<close>

lemma decode_value_Inr: "decode_value n v = Inr raw \<longleftrightarrow> (\<exists>s. v = JStr s \<and> decode_field n s = Inr raw)"
  by (cases v) (auto simp: decode_value_def)

lemma b64encode_length: "length (b64encode bs) = 4 * ((length bs + 2) div 3)"
proof (induction bs rule: b64encode.induct)
  case (4 a b c rest)
  have "(length (a # b # c # rest) + 2) div 3 = Suc ((length rest + 2) div 3)" by simp
  with 4 show ?case by (simp only: b64encode.simps list.size) simp
qed simp_all

lemma decode_field_encode: "length raw = n \<Longrightarrow> n \<le> 190 \<Longrightarrow> decode_field n (b64encode raw) = Inr raw"
  by (auto simp: decode_field_def b64decode_encode b64encode_length)

lemma transport_binding_of_Inr:
  "transport_binding_of public wg challenge audience = Inr b \<longleftrightarrow>
     public = JStr (tb_public b) \<and> wg = JStr (tb_wg b) \<and> challenge = JStr (tb_challenge b) \<and>
     audience = JStr (tb_audience b) \<and> tb_audience b \<in> {enrollment_audience, reservation_audience} \<and>
     is_ok (decode_field 64 (tb_public b)) \<and> is_ok (decode_field 32 (tb_wg b)) \<and> is_ok (decode_field 32 (tb_challenge b))"
  by (cases b) (auto simp: transport_binding_of_def decode_value_def is_ok_def split: json.splits sum.splits)

lemma transport_message_inj: "transport_message b = transport_message c \<longleftrightarrow> b = c"
proof
  assume "transport_message b = transport_message c"
  then have "tb_audience b = tb_audience c" "tb_challenge b = tb_challenge c" "tb_public b = tb_public c" "tb_wg b = tb_wg c"
    unfolding transport_message_def same_append_eq dumps_inj by simp_all
  then show "b = c" by simp
qed simp

lemma verify_transport_key_proof_Inr:
  "verify_transport_key_proof ident validates proof expected audience = Inr device \<longleftrightarrow>
     (\<exists>d b public signature. proof = JObj d \<and> set (map fst d) = set proof_fields \<and>
        get_field d ''schema_version'' = JInt 1 \<and> get_field d ''transport'' = JStr ''wireguard'' \<and>
        transport_binding_of (get_field d ''public_identity'') (get_field d ''wireguard_public_key'')
          (get_field d ''challenge'') (get_field d ''audience'') = Inr b \<and>
        expected = JStr (tb_challenge b) \<and> tb_audience b = audience \<and>
        decode_field 64 (tb_public b) = Inr public \<and>
        decode_value 64 (get_field d ''signature'') = Inr signature \<and>
        validates public signature (transport_message b) \<and> device = bytes_hex (ident public))"
proof (cases "proof")
  case (JObj d)
  have chal: "(\<exists>raw. decode_value 32 expected = Inr raw) \<and> JStr (tb_challenge b) = expected \<longleftrightarrow> expected = JStr (tb_challenge b)"
    if "transport_binding_of p w c a = Inr b" for p w c a b
    using that by (auto simp: transport_binding_of_Inr decode_value_Inr is_ok_def split: sum.splits)
  show ?thesis
    unfolding JObj verify_transport_key_proof_def json.case bind_res_Inr_iff check_Inr_iff
    using chal by (simp) blast
qed (simp_all add: verify_transport_key_proof_def)

end
