(* ===== verification/Fleet_Access.thy ===== *)
theory Fleet_Access
  imports Fleet_Safety Device_Proof
begin

text \<open>
  Proof-gated reservation, \<open>control/fleet_access.py\<close>: \<open>FleetAccess.challenge\<close> issues a nonce for one exact
  request of one device, \<open>FleetAccess.complete\<close> consumes it against a signed ownership proof and reserves
  in the same transaction.  The stored JSON of the request is the request itself.  The 32 random bytes of
  the nonce are an argument.
\<close>

section \<open>Definitions\<close>

definition valid_request :: "reservation \<Rightarrow> bool" where
  "valid_request rv \<longleftrightarrow>
     fullmatch is_word_dash 1 64 (rv_request_id rv) \<and>
     1 \<le> rv_registry_revision rv \<and> rv_registry_revision rv < 2 ^ 63 \<and>
     fullmatch is_lower 2 2 (rv_country rv) \<and>
     rv_transport rv \<in> {''wireguard'', ''amneziawg''} \<and> rv_version rv \<in> {''1'', ''2.0'', ''3.1''} \<and>
     1 \<le> rv_lifetime rv \<and> rv_lifetime rv \<le> 86400 \<and>
     rv_version rv \<in> (if rv_transport rv = ''amneziawg'' then {''2.0'', ''3.1''} else {''1''}) \<and>
     rv_families rv \<in> {[4], [6], [4, 6]}"

record challenge_reply =
  cr_challenge :: string
  cr_audience :: string
  cr_expires :: int
  cr_request :: reservation

definition nonce_key :: "fleet_env \<Rightarrow> string \<Rightarrow> string" where
  "nonce_key env nonce = bytes_hex (env_sha256 env nonce)"

definition challenge ::
  "fleet_env \<Rightarrow> int \<Rightarrow> string \<Rightarrow> json \<Rightarrow> json \<Rightarrow> reservation \<Rightarrow> fleet_db \<Rightarrow> challenge_reply fleet_res" where
  "challenge env now random public wg request db =
     bind_res (check (valid_request request) (ValueError ''invalid reservation'')) (\<lambda>_.
     bind_res (map_err ValueError (decode_value 64 public)) (\<lambda>raw.
     bind_res (map_err ValueError (decode_value 32 wg)) (\<lambda>_.
     let device = bytes_hex (env_identity env raw) in
     transaction [3] now db (\<lambda>db.
     bind_res (authorized db device now) (\<lambda>access.
     bind_res (check (JStr (a_public access) = public \<and> JStr (a_wg access) = wg) (LeaseRejected ''binding-mismatch'')) (\<lambda>_.
     let kept = filter (\<lambda>c. \<not> ch_expires c \<le> now) (db_challenges db);
         nonce = b64encode random;
         expires = min (now + 120) (a_expires access) in
     bind_res (check (count_rows (\<lambda>c. ch_device c = device) kept < 8) (LeaseRejected ''challenge-limit'')) (\<lambda>_.
     bind_res (check (nonce_key env nonce \<notin> ch_nonce ` set kept) IntegrityError) (\<lambda>_.
     Inr (db\<lparr>db_challenges := kept @ [\<lparr>ch_nonce = nonce_key env nonce, ch_device = device,
            ch_revision = a_revision access, ch_request = request, ch_expires = expires\<rparr>]\<rparr>,
          \<lparr>cr_challenge = nonce, cr_audience = reservation_audience, cr_expires = expires,
           cr_request = request\<rparr>)))))))))"

text \<open>The check of \<open>complete\<close> under the lock.\<close>

definition challenge_matches ::
  "(string \<times> json) list \<Rightarrow> string \<Rightarrow> int \<Rightarrow> access_row \<Rightarrow> challenge_row \<Rightarrow> bool" where
  "challenge_matches d device now access c \<longleftrightarrow>
     ch_device c = device \<and> \<not> ch_expires c \<le> now \<and> ch_revision c = a_revision access \<and>
     JStr (a_public access) = get_field d ''public_identity'' \<and> JStr (a_wg access) = get_field d ''wireguard_public_key''"

definition complete ::
  "fleet_env \<Rightarrow> (string \<Rightarrow> string \<Rightarrow> string \<Rightarrow> bool) \<Rightarrow> int \<Rightarrow> string \<Rightarrow> json \<Rightarrow> observation list \<Rightarrow> fleet_db \<Rightarrow>
   lease fleet_res" where
  "complete env validates now uuid proof obs db =
     (case proof of
        JObj d \<Rightarrow>
          bind_res (map_err ValueError (verify_transport_key_proof (env_identity env) validates proof
                      (get_field d ''challenge'') reservation_audience)) (\<lambda>device.
          case get_field d ''challenge'' of
            JStr chal \<Rightarrow>
              let nonce = nonce_key env chal in
              transaction [3] now db (\<lambda>db.
              bind_res (authorized db device now) (\<lambda>access.
              case row (\<lambda>c. ch_nonce c = nonce) (db_challenges db) of
                None \<Rightarrow> Inl (LeaseRejected ''challenge-denied'')
              | Some c \<Rightarrow>
                  bind_res (check (challenge_matches d device now access c) (LeaseRejected ''challenge-denied'')) (\<lambda>_.
                  bind_res (reserve_row env now uuid device (ch_request c) obs db) (\<lambda>(db', lease).
                  Inr (db'\<lparr>db_challenges := filter (\<lambda>c. ch_nonce c \<noteq> nonce) (db_challenges db')\<rparr>, lease)))))
          | _ \<Rightarrow> Inl (ValueError ''invalid public field''))
      | _ \<Rightarrow> Inl (LeaseRejected ''invalid-proof''))"

section \<open>Lemmas\<close>

text \<open>No challenge outlives the access it was issued under, and a device holds at most eight.\<close>

definition challenges_ok :: "fleet_db \<Rightarrow> bool" where
  "challenges_ok db \<longleftrightarrow> distinct (map ch_nonce (db_challenges db)) \<and>
     (\<forall>c \<in> set (db_challenges db). valid_request (ch_request c)) \<and>
     (\<forall>device. count_rows (\<lambda>c. ch_device c = device) (db_challenges db) \<le> 8)"

lemma challenges_ok_frame [simp]:
  "challenges_ok (db\<lparr>db_last_now := n\<rparr>) = challenges_ok db"
  "challenges_ok (db\<lparr>db_events := e\<rparr>) = challenges_ok db"
  "challenges_ok (db\<lparr>db_leases := l\<rparr>) = challenges_ok db"
  "challenges_ok (db\<lparr>db_requests := q\<rparr>) = challenges_ok db"
  by (simp_all add: challenges_ok_def)

lemma count_rows_filter: "count_rows p (filter q t) \<le> count_rows p t"
  by (induction t) auto

lemma challenges_ok_filter: "challenges_ok db \<Longrightarrow> challenges_ok (db\<lparr>db_challenges := filter p (db_challenges db)\<rparr>)"
  by (auto simp: challenges_ok_def intro: distinct_map_filter order_trans [OF count_rows_filter])

lemma challenge_Inr:
  assumes "challenge env now random public wg request db = Inr (db', r)"
  obtains access kept where
    "authorized db (a_device access) now = Inr access" "JStr (a_public access) = public" "JStr (a_wg access) = wg"
    "valid_request request" "kept = filter (\<lambda>c. \<not> ch_expires c \<le> now) (db_challenges db)"
    "count_rows (\<lambda>c. ch_device c = a_device access) kept < 8"
    "nonce_key env (b64encode random) \<notin> ch_nonce ` set kept"
    "db' = db\<lparr>db_last_now := now, db_challenges := kept @ [\<lparr>ch_nonce = nonce_key env (b64encode random),
       ch_device = a_device access, ch_revision = a_revision access, ch_request = request,
       ch_expires = min (now + 120) (a_expires access)\<rparr>]\<rparr>"
    "r = \<lparr>cr_challenge = b64encode random, cr_audience = reservation_audience,
       cr_expires = min (now + 120) (a_expires access), cr_request = request\<rparr>"
proof -
  from assms obtain raw access where
    a: "authorized (db\<lparr>db_last_now := now\<rparr>) (bytes_hex (env_identity env raw)) now = Inr access"
    and rest: "JStr (a_public access) = public" "JStr (a_wg access) = wg" "valid_request request"
      "count_rows (\<lambda>c. ch_device c = bytes_hex (env_identity env raw)) (filter (\<lambda>c. \<not> ch_expires c \<le> now) (db_challenges db)) < 8"
      "nonce_key env (b64encode random) \<notin> ch_nonce ` set (filter (\<lambda>c. \<not> ch_expires c \<le> now) (db_challenges db))"
      "db' = db\<lparr>db_last_now := now, db_challenges := filter (\<lambda>c. \<not> ch_expires c \<le> now) (db_challenges db) @
         [\<lparr>ch_nonce = nonce_key env (b64encode random), ch_device = bytes_hex (env_identity env raw),
           ch_revision = a_revision access, ch_request = request, ch_expires = min (now + 120) (a_expires access)\<rparr>]\<rparr>"
      "r = \<lparr>cr_challenge = b64encode random, cr_audience = reservation_audience,
         cr_expires = min (now + 120) (a_expires access), cr_request = request\<rparr>"
    by (auto simp: challenge_def transaction_Inr_iff Let_def)
  have dev: "bytes_hex (env_identity env raw) = a_device access" using authorized_InrD [OF a] by simp
  have "authorized db (a_device access) now = Inr access"
    using a by (simp add: dev authorized_def access_of_def)
  from that [OF this rest(1-3) refl rest(4-7) [unfolded dev]] show thesis .
qed

lemma challenge_inv: "fleet_inv db \<Longrightarrow> challenge env now random public wg request db = Inr (db', r) \<Longrightarrow> fleet_inv db'"
  by (erule challenge_Inr) simp

lemma challenge_challenges_ok:
  assumes ok: "challenges_ok db" and r: "challenge env now random public wg request db = Inr (db', r)"
  shows "challenges_ok db'"
  using r
proof (cases rule: challenge_Inr)
  case (1 access kept)
  have "challenges_ok (db\<lparr>db_challenges := kept\<rparr>)" unfolding 1(5) by (rule challenges_ok_filter [OF ok])
  with 1(4,6,7) show ?thesis unfolding 1(8) by (auto simp: challenges_ok_def)
qed

lemma reserve_row_Inr:
  assumes "fleet_inv db" "reserve_row env now uuid device rv obs db = Inr (db', l)"
  shows "fleet_inv db' \<and> db_challenges db' = db_challenges db \<and> db_schema db' = db_schema db \<and>
     db_last_now db' = db_last_now db"
proof -
  have "db\<lparr>db_last_now := db_last_now db\<rparr> = db" by simp
  from assms(2) obtain access where a: "authorized db device now = Inr access" and
    body: "(\<exists>q. row (\<lambda>q. rq_device q = device \<and> rq_request_id q = rv_request_id rv) (db_requests db) = Some q \<and> db' = db) \<or>
      allocate env now uuid access rv obs db = Inr (db', l)"
    by (auto simp: reserve_row_def split: option.splits)
  from body show ?thesis
  proof
    assume "allocate env now uuid access rv obs db = Inr (db', l)"
    with assms(1) have al: "allocated env now uuid access rv db db' l" by (rule allocate_Inr)
    moreover have "fleet_inv db'"
      using allocated_inv [OF assms(1) al] authorized_InrD [OF a] by simp
    ultimately show ?thesis by (auto elim!: allocatedE)
  qed (use assms(1) in auto)
qed

text \<open>A completed proof: what was verified, what was consumed, what was reserved.\<close>

lemma complete_Inr:
  assumes "complete env validates now uuid proof obs db = Inr (db', l)"
  obtains d chal device access c db1 where
    "proof = JObj d" "get_field d ''challenge'' = JStr chal"
    "verify_transport_key_proof (env_identity env) validates proof (JStr chal) reservation_audience = Inr device"
    "db_schema db = 3" "db_last_now db \<le> now"
    "authorized db device now = Inr access"
    "row (\<lambda>c. ch_nonce c = nonce_key env chal) (db_challenges db) = Some c"
    "challenge_matches d device now access c"
    "reserve_row env now uuid device (ch_request c) obs (db\<lparr>db_last_now := now\<rparr>) = Inr (db1, l)"
    "db' = db1\<lparr>db_challenges := filter (\<lambda>c. ch_nonce c \<noteq> nonce_key env chal) (db_challenges db1)\<rparr>"
proof -
  obtain d where d: "proof = JObj d" using assms by (cases "proof") (auto simp: complete_def)
  from assms obtain device where
    v: "verify_transport_key_proof (env_identity env) validates proof (get_field d ''challenge'') reservation_audience = Inr device"
    by (auto simp: complete_def d)
  from v obtain chal where t: "get_field d ''challenge'' = JStr chal"
    by (auto simp: verify_transport_key_proof_Inr)
  let ?db = "db\<lparr>db_last_now := now\<rparr>"
  from assms obtain access c db1 where
    s: "db_schema db = 3" "db_last_now db \<le> now" and
    a: "authorized ?db device now = Inr access" and
    c: "row (\<lambda>c. ch_nonce c = nonce_key env chal) (db_challenges ?db) = Some c" "challenge_matches d device now access c" and
    r: "reserve_row env now uuid device (ch_request c) obs ?db = Inr (db1, l)"
      "db' = db1\<lparr>db_challenges := filter (\<lambda>c. ch_nonce c \<noteq> nonce_key env chal) (db_challenges db1)\<rparr>"
    using v by (auto simp: complete_def d t transaction_Inr_iff Let_def split: option.splits)
  have "authorized db device now = Inr access" using a by (simp add: authorized_def access_of_def)
  moreover have "row (\<lambda>c. ch_nonce c = nonce_key env chal) (db_challenges db) = Some c" using c by simp
  ultimately show thesis using that d t v s c(2) r by simp
qed

lemma complete_inv:
  assumes "fleet_inv db" "complete env validates now uuid proof obs db = Inr (db', l)"
  shows "fleet_inv db'"
  using assms(2)
proof (cases rule: complete_Inr)
  case (1 d chal device access c db1)
  have "fleet_inv (db\<lparr>db_last_now := now\<rparr>)" using assms(1) by simp
  from reserve_row_Inr [OF this 1(9)] show ?thesis by (simp add: 1(10))
qed

lemma complete_challenges_ok:
  assumes "fleet_inv db" "challenges_ok db" "complete env validates now uuid proof obs db = Inr (db', l)"
  shows "challenges_ok db'"
  using assms(3)
proof (cases rule: complete_Inr)
  case (1 d chal device access c db1)
  have "fleet_inv (db\<lparr>db_last_now := now\<rparr>)" using assms(1) by simp
  from reserve_row_Inr [OF this 1(9)] assms(2) have "challenges_ok db1" by (simp add: challenges_ok_def)
  then show ?thesis unfolding 1(10) by (rule challenges_ok_filter)
qed

end
