(* ===== verification/Fleet_Machine.thy ===== *)
theory Fleet_Machine
  imports Fleet_Access
begin

text \<open>
  The lease store as a state machine.  An operation of \<open>fleet_op\<close> is one call of a public method of \<open>FleetStore\<close> or
  \<open>FleetAccess\<close> with the clock, the random values and the telemetry it reads; \<open>fleet_exec\<close> is what the call leaves
  on disk, also when it raises.  The theorems hold of every database that any sequence of calls reaches
  from \<open>initialize\<close>.
\<close>

section \<open>Operations\<close>

datatype fleet_op =
    InstallRegistry int registry
  | SetAccess int access_row
  | Reserve int string string reservation "observation list"
  | Challenge int string json json reservation
  | Complete int string json "observation list"
  | GetLease int string
  | Pending int int
  | WorkItem int string int
  | MarkReady int string int
  | Publishable int string
  | Expire int int
  | ConfirmRemoved int string int
  | Retire int string
  | UpgradeServices int
  | PinAuthority int string
  | ClaimWork int string int
  | FinishWork int lease string string
  | Published int string string

fun fleet_exec ::
  "fleet_env \<Rightarrow> (string \<Rightarrow> string \<Rightarrow> string \<Rightarrow> bool) \<Rightarrow> fleet_db \<Rightarrow> fleet_op \<Rightarrow> fleet_db" where
  "fleet_exec env v db (InstallRegistry now r) = commit db (install_registry env now r db)"
| "fleet_exec env v db (SetAccess now a) = commit db (set_access env now a db)"
| "fleet_exec env v db (Reserve now uuid device rv obs) = commit db (reserve env now uuid device rv obs db)"
| "fleet_exec env v db (Challenge now random public wg rv) = commit db (challenge env now random public wg rv db)"
| "fleet_exec env v db (Complete now uuid prf obs) = commit db (complete env v now uuid prf obs db)"
| "fleet_exec env v db (GetLease now lid) = commit db (get_lease now lid db)"
| "fleet_exec env v db (Pending now limit) = commit db (pending now limit db)"
| "fleet_exec env v db (WorkItem now lid gen) = commit db (work_item now lid gen db)"
| "fleet_exec env v db (MarkReady now lid gen) = commit db (mark_ready now lid gen db)"
| "fleet_exec env v db (Publishable now lid) = commit db (publishable now lid db)"
| "fleet_exec env v db (Expire now limit) = commit db (expire now limit db)"
| "fleet_exec env v db (ConfirmRemoved now lid gen) = commit db (confirm_removed now lid gen db)"
| "fleet_exec env v db (Retire now lid) = commit db (retire now lid db)"
| "fleet_exec env v db (UpgradeServices now) = commit db (upgrade_services now db)"
| "fleet_exec env v db (PinAuthority now public) = commit db (pin_publication_authority now public db)"
| "fleet_exec env v db (ClaimWork now token hold) = commit db (claim_work now token hold db)"
| "fleet_exec env v db (FinishWork now l token result) = commit db (finish_work now l token result db)"
| "fleet_exec env v db (Published now lid device) = commit db (published now lid device db)"

definition fleet_init :: "fleet_env \<Rightarrow> fleet_db \<Rightarrow> bool" where
  "fleet_init env db \<longleftrightarrow> (\<exists>now r. initialize env now r = Inr db)"

definition fleet_step ::
  "fleet_env \<Rightarrow> (string \<Rightarrow> string \<Rightarrow> string \<Rightarrow> bool) \<Rightarrow> fleet_db \<Rightarrow> fleet_db \<Rightarrow> bool" where
  "fleet_step env v db db' \<longleftrightarrow> (\<exists>p. db' = fleet_exec env v db p)"

section \<open>How a database grows\<close>

text \<open>Registries and leases are only appended, leases only advance, access rows keep their binding and
  never lose revisions, and the clock never runs backwards.\<close>

definition leases_le :: "lease list \<Rightarrow> lease list \<Rightarrow> bool" where
  "leases_le ls ls' \<longleftrightarrow> (\<exists>f ys. ls' = map f ls @ ys \<and> (\<forall>l \<in> set ls. lease_advance l (f l)))"

definition access_le :: "access_row list \<Rightarrow> access_row list \<Rightarrow> bool" where
  "access_le acc acc' \<longleftrightarrow> (\<forall>a \<in> set acc. \<exists>a' \<in> set acc'. a_device a' = a_device a \<and> a_public a' = a_public a \<and>
     a_wg a' = a_wg a \<and> a_revision a \<le> a_revision a')"

definition grows :: "fleet_db \<Rightarrow> fleet_db \<Rightarrow> bool" where
  "grows db db' \<longleftrightarrow> db_last_now db \<le> db_last_now db' \<and> leases_le (db_leases db) (db_leases db') \<and>
     access_le (db_access db) (db_access db') \<and> (\<exists>rs. db_registries db' = db_registries db @ rs) \<and>
     (\<exists>qs. db_requests db' = db_requests db @ qs)"

text \<open>The UNIQUE columns of the access table.\<close>

definition keys_unique :: "fleet_db \<Rightarrow> bool" where
  "keys_unique db \<longleftrightarrow> distinct (map a_public (db_access db)) \<and> distinct (map a_wg (db_access db))"

lemma leases_le_map: "(\<And>l. l \<in> set ls \<Longrightarrow> lease_advance l (f l)) \<Longrightarrow> leases_le ls (map f ls)"
  unfolding leases_le_def by (intro exI [of _ f] exI [of _ "[]"]) simp

lemma leases_le_refl [simp]: "leases_le ls ls"
  using leases_le_map [of ls "\<lambda>l. l"] by simp

lemma leases_le_snoc [simp]: "leases_le ls (ls @ ys)"
  unfolding leases_le_def by (intro exI [of _ "\<lambda>l. l"] exI [of _ ys]) simp

lemma leases_le_trans:
  assumes "leases_le a b" "leases_le b c"
  shows "leases_le a c"
proof -
  from assms(1) obtain f ys where b: "b = map f a @ ys" "\<forall>l \<in> set a. lease_advance l (f l)"
    unfolding leases_le_def by blast
  from assms(2) obtain g zs where c: "c = map g b @ zs" "\<forall>l \<in> set b. lease_advance l (g l)"
    unfolding leases_le_def by blast
  have "lease_advance l (g (f l))" if "l \<in> set a" for l
    by (rule lease_advance_trans [of l "f l"]) (use that b c in auto)
  then show ?thesis
    unfolding leases_le_def by (intro exI [of _ "g \<circ> f"] exI [of _ "map g ys @ zs"]) (simp add: b c)
qed

lemma access_le_refl [simp]: "access_le acc acc"
  by (auto simp: access_le_def)

lemma access_le_trans: "access_le a b \<Longrightarrow> access_le b c \<Longrightarrow> access_le a c"
  unfolding access_le_def
proof
  fix x
  assume ab: "\<forall>x \<in> set a. \<exists>y \<in> set b. a_device y = a_device x \<and> a_public y = a_public x \<and> a_wg y = a_wg x \<and> a_revision x \<le> a_revision y"
    and bc: "\<forall>x \<in> set b. \<exists>y \<in> set c. a_device y = a_device x \<and> a_public y = a_public x \<and> a_wg y = a_wg x \<and> a_revision x \<le> a_revision y"
    and x: "x \<in> set a"
  from ab x obtain y where y: "y \<in> set b" "a_device y = a_device x \<and> a_public y = a_public x \<and> a_wg y = a_wg x" "a_revision x \<le> a_revision y"
    by blast
  from bc y(1) obtain z where z: "z \<in> set c" "a_device z = a_device y \<and> a_public z = a_public y \<and> a_wg z = a_wg y" "a_revision y \<le> a_revision z"
    by blast
  from z y show "\<exists>z \<in> set c. a_device z = a_device x \<and> a_public z = a_public x \<and> a_wg z = a_wg x \<and> a_revision x \<le> a_revision z"
    by (intro bexI [of _ z]) simp_all
qed

lemma grows_refl [simp]: "grows db db"
  by (simp add: grows_def)

lemma grows_trans: "grows a b \<Longrightarrow> grows b c \<Longrightarrow> grows a c"
  unfolding grows_def using leases_le_trans access_le_trans by auto

lemma grows_frame:
  "db_last_now db \<le> db_last_now db' \<Longrightarrow> db_leases db' = db_leases db \<Longrightarrow> db_access db' = db_access db \<Longrightarrow>
     db_registries db' = db_registries db \<Longrightarrow> db_requests db' = db_requests db \<Longrightarrow> grows db db'"
  by (simp add: grows_def)

lemma grows_leases:
  "db_last_now db \<le> n \<Longrightarrow> (\<And>l. l \<in> set (db_leases db) \<Longrightarrow> lease_advance l (f l)) \<Longrightarrow>
     grows db (db\<lparr>db_last_now := n, db_leases := map f (db_leases db), db_events := ev\<rparr>)"
  by (simp add: grows_def leases_le_map)

section \<open>Every method keeps the invariant and grows the database\<close>

text \<open>What each method has to show: what a successful call does to the three tables the invariant is about.\<close>

definition kept :: "fleet_db \<Rightarrow> fleet_db \<Rightarrow> bool" where
  "kept db db' \<longleftrightarrow> (fleet_inv db \<longrightarrow> fleet_inv db' \<and> grows db db') \<and>
     (fleet_inv db \<and> keys_unique db \<longrightarrow> keys_unique db') \<and> (fleet_inv db \<and> challenges_ok db \<longrightarrow> challenges_ok db')"

text \<open>The leases whose removal was confirmed.\<close>

definition released :: "lease list \<Rightarrow> (string \<times> string) set" where
  "released ls = (\<lambda>l. (l_id l, l_gateway l)) ` {l \<in> set ls. l_state l = Released}"

text \<open>All methods but \<open>confirm_removed\<close> release nothing.\<close>

definition sound :: "fleet_db \<Rightarrow> fleet_db \<Rightarrow> bool" where
  "sound db db' \<longleftrightarrow> kept db db' \<and> (fleet_inv db \<longrightarrow> released (db_leases db') \<subseteq> released (db_leases db))"

lemma kept_refl [simp]: "kept db db"
  by (simp add: kept_def)

lemma sound_outside: "\<not> fleet_inv db \<Longrightarrow> sound db db'"
  by (simp add: sound_def kept_def)

lemma soundI:
  assumes "fleet_inv db'" "grows db db'" "keys_unique db \<Longrightarrow> keys_unique db'" "challenges_ok db \<Longrightarrow> challenges_ok db'"
    "released (db_leases db') \<subseteq> released (db_leases db)"
  shows "sound db db'"
  using assms by (simp add: sound_def kept_def)

lemma sound_refl [simp]: "sound db db"
  by (simp add: sound_def kept_def)

lemma sound_frame:
  assumes "db_last_now db \<le> db_last_now db'" "db_leases db' = db_leases db" "db_access db' = db_access db"
    "db_registries db' = db_registries db" "db_requests db' = db_requests db" "db_challenges db' = db_challenges db"
  shows "sound db db'"
  using assms by (simp add: sound_def kept_def grows_frame keys_unique_def challenges_ok_def fleet_inv_def)

lemma released_map:
  assumes "\<And>l. l \<in> set ls \<Longrightarrow> lease_advance l (f l)" "\<And>l. l \<in> set ls \<Longrightarrow> l_state (f l) = Released \<Longrightarrow> l_state l = Released"
  shows "released (map f ls) \<subseteq> released ls"
proof
  fix x
  assume "x \<in> released (map f ls)"
  then obtain l where l: "l \<in> set ls" "l_state (f l) = Released" "x = (l_id (f l), l_gateway (f l))"
    by (auto simp: released_def)
  with assms show "x \<in> released ls"
    unfolding released_def by (intro image_eqI [of _ _ l]) (simp_all add: lease_advance_keys [OF assms(1)])
qed

lemma released_retired [simp]: "released (map (retired S) ls) \<subseteq> released ls"
  by (rule released_map, rule retired_advance) (simp add: retired_def split: if_splits)

lemma released_append [simp]: "released (ls @ ys) = released ls \<union> released ys"
  by (auto simp: released_def)

lemma released_single [simp]: "l_state l \<noteq> Released \<Longrightarrow> released [l] = {}"
  by (auto simp: released_def)

lemma kept_leases:
  assumes "db_last_now db \<le> n" "fleet_inv db \<Longrightarrow> (\<And>l. l \<in> set (db_leases db) \<Longrightarrow> lease_advance l (f l))"
    "db' = db\<lparr>db_last_now := n, db_leases := map f (db_leases db), db_events := ev\<rparr>"
  shows "kept db db'"
proof -
  have "fleet_inv (db\<lparr>db_leases := map f (db_leases db), db_events := ev\<rparr>)" if "fleet_inv db"
    using that assms(2) [OF that] by (rule fleet_inv_leases)
  then show ?thesis
    using assms by (auto simp: kept_def grows_leases keys_unique_def challenges_ok_def fleet_inv_def)
qed

lemma retire_rows_sound:
  assumes "retire_rows now lids (db\<lparr>db_last_now := n\<rparr>) = Inr (db', ls)" "db_last_now db \<le> n"
  shows "sound db db'"
proof (cases "fleet_inv db")
  case True
  have "distinct (map l_id (db_leases (db\<lparr>db_last_now := n\<rparr>)))" using fleet_inv_distinct [OF True] by simp
  from retire_rows_Inr [OF this assms(1)] obtain ev where
    db': "db' = db\<lparr>db_last_now := n, db_leases := map (retired (set lids)) (db_leases db), db_events := ev\<rparr>" by auto
  with assms(2) have "kept db db'" by (intro kept_leases) simp_all
  then show ?thesis by (simp add: sound_def db')
qed (rule sound_outside)

lemma retire_row_sound:
  assumes "retire_row now lid (db\<lparr>db_last_now := n\<rparr>) = Inr (db', l)" "db_last_now db \<le> n"
  shows "sound db db'"
proof -
  have "retire_rows now [lid] (db\<lparr>db_last_now := n\<rparr>) = Inr (db', [l])" using assms(1) by simp
  then show ?thesis using assms(2) by (rule retire_rows_sound)
qed

lemma set_state_kept:
  assumes l: "lease_row db lid = Inr l" and adv: "lease_advance l (f l)" and n: "db_last_now db \<le> n"
    and db': "db' = add_event now kind lid (set_state lid f (db\<lparr>db_last_now := n\<rparr>))"
  shows "kept db db'" and "fleet_inv db \<Longrightarrow> (l_state (f l) = Released \<Longrightarrow> l_state l = Released) \<Longrightarrow>
    released (db_leases db') \<subseteq> released (db_leases db)"
proof -
  let ?f = "\<lambda>m. if l_id m = lid then f m else m"
  have eq: "m = l" if inv: "fleet_inv db" and m: "m \<in> set (db_leases db)" "l_id m = lid" for m
    using lease_row_member [OF fleet_inv_distinct [OF inv] m(1)] m(2) l by simp
  then have adv': "lease_advance m (?f m)" if "fleet_inv db" "m \<in> set (db_leases db)" for m
    using adv that by auto
  have leases: "db' = db\<lparr>db_last_now := n, db_leases := map ?f (db_leases db), db_events := db_events db @ [(now, kind, lid)]\<rparr>"
    by (simp add: db' add_event_def set_state_def update_rows_def)
  show "kept db db'" by (rule kept_leases [OF n adv' leases])
  show "released (db_leases db') \<subseteq> released (db_leases db)"
    if inv: "fleet_inv db" and st: "l_state (f l) = Released \<Longrightarrow> l_state l = Released"
  proof -
    have "released (map ?f (db_leases db)) \<subseteq> released (db_leases db)"
    proof (rule released_map)
      show "l_state m = Released" if "m \<in> set (db_leases db)" "l_state (?f m) = Released" for m
        using eq [OF inv that(1)] st that(2) by (auto split: if_splits)
    qed (rule adv' [OF inv])
    then show ?thesis unfolding leases by simp
  qed
qed

lemma set_state_sound:
  assumes "lease_row db lid = Inr l" "lease_advance l (f l)" "db_last_now db \<le> n"
    "l_state (f l) = Released \<Longrightarrow> l_state l = Released"
  shows "sound db (add_event now kind lid (set_state lid f (db\<lparr>db_last_now := n\<rparr>)))"
  unfolding sound_def
  using set_state_kept(1) [where f = f and n = n, OF assms(1-3) refl]
    set_state_kept(2) [where f = f and n = n, OF assms(1-3) refl] assms(4)
  by blast

lemma lease_row_frame [simp]: "lease_row (db\<lparr>db_last_now := n\<rparr>) lid = lease_row db lid"
  by (simp add: lease_row_def)

lemma sound_tick [simp]: "db_last_now db \<le> n \<Longrightarrow> sound db (db\<lparr>db_last_now := n\<rparr>)"
  by (rule sound_frame) simp_all

lemma mark_ready_sound: "mark_ready now lid gen db = Inr (db', l) \<Longrightarrow> sound db db'"
  by (auto simp: mark_ready_def transaction_Inr_iff Let_def split: if_splits intro!: set_state_sound)
    (auto simp: lease_advance_def in_service_def live_def)

lemma confirm_removed_kept: "confirm_removed now lid gen db = Inr (db', l) \<Longrightarrow> kept db db'"
  by (auto simp: confirm_removed_def transaction_Inr_iff Let_def sound_tick [unfolded sound_def] split: if_splits
      intro!: set_state_kept(1) [OF _ _ _ refl])
    (auto simp: lease_advance_def in_service_def live_def)

lemma retire_sound: "retire now lid db = Inr (db', l) \<Longrightarrow> sound db db'"
  by (auto simp: retire_def transaction_Inr_iff intro: retire_row_sound)

lemma expire_sound: "expire now limit db = Inr (db', ls) \<Longrightarrow> sound db db'"
  by (auto simp: expire_def transaction_Inr_iff intro: retire_rows_sound)

lemma reads_sound:
  "get_lease now lid db = Inr (db', l) \<Longrightarrow> sound db db'"
  "pending now limit db = Inr (db', ls) \<Longrightarrow> sound db db'"
  "work_item now lid gen db = Inr (db', w) \<Longrightarrow> sound db db'"
  "publishable now lid db = Inr (db', l) \<Longrightarrow> sound db db'"
  "published now lid device db = Inr (db', e) \<Longrightarrow> sound db db'"
  by (auto simp: get_lease_def pending_def work_item_def publishable_def published_def transaction_Inr_iff Let_def
      split: option.split_asm if_split_asm)

lemma services_sound:
  "upgrade_services now db = Inr (db', u) \<Longrightarrow> sound db db'"
  "pin_publication_authority now public db = Inr (db', u) \<Longrightarrow> sound db db'"
  "claim_work now token hold db = Inr (db', c) \<Longrightarrow> sound db db'"
  "finish_work now l token result db = Inr (db', b) \<Longrightarrow> sound db db'"
  by (auto simp: upgrade_services_def pin_publication_authority_def claim_work_def finish_work_def upsert_job_def
      add_event_def transaction_Inr_iff Let_def split: option.split_asm if_split_asm list.split_asm intro!: sound_frame)

lemma upsert_access_grows:
  assumes u: "upsert_access new db = Inr db1"
    and old: "\<And>x. x \<in> set (db_access db) \<Longrightarrow> a_device x = a_device new \<Longrightarrow> a_revision x \<le> a_revision new"
  shows "db_leases db1 = db_leases db \<and> db_registries db1 = db_registries db \<and> db_challenges db1 = db_challenges db \<and> db_last_now db1 = db_last_now db \<and>
     db_requests db1 = db_requests db" "access_le (db_access db) (db_access db1)"
    "keys_unique db \<Longrightarrow> keys_unique db1"
proof -
  let ?p = "\<lambda>a. a_device a = a_device new"
  let ?up = "\<lambda>a. a\<lparr>a_revision := a_revision new, a_expires := a_expires new,
     a_max_leases := a_max_leases new, a_revoked := a_revoked new\<rparr>"
  from u consider (upd) "db1 = db\<lparr>db_access := update_rows ?p ?up (db_access db)\<rparr>"
    | (ins) "db1 = db\<lparr>db_access := db_access db @ [new]\<rparr>" "a_public new \<notin> a_public ` set (db_access db)"
        "a_wg new \<notin> a_wg ` set (db_access db)"
    by (auto simp: upsert_access_def split: if_splits)
  then have all: "(db_leases db1 = db_leases db \<and> db_registries db1 = db_registries db \<and> db_challenges db1 = db_challenges db \<and> db_last_now db1 = db_last_now db \<and>
     db_requests db1 = db_requests db) \<and>
     access_le (db_access db) (db_access db1) \<and> (keys_unique db \<longrightarrow> keys_unique db1)"
  proof cases
    case upd
    have "\<exists>a' \<in> set (update_rows ?p ?up (db_access db)). a_device a' = a_device a \<and> a_public a' = a_public a \<and>
        a_wg a' = a_wg a \<and> a_revision a \<le> a_revision a'" if "a \<in> set (db_access db)" for a
      by (rule bexI [of _ "if ?p a then ?up a else a"]) (use that old in \<open>auto simp: in_update_rows\<close>)
    then show ?thesis
      by (simp add: upd access_le_def keys_unique_def map_update_rows)
  next
    case ins
    then show ?thesis
      by (auto simp: access_le_def keys_unique_def)
  qed
  then show "db_leases db1 = db_leases db \<and> db_registries db1 = db_registries db \<and> db_challenges db1 = db_challenges db \<and> db_last_now db1 = db_last_now db \<and>
     db_requests db1 = db_requests db"
    "access_le (db_access db) (db_access db1)" "keys_unique db \<Longrightarrow> keys_unique db1" by blast+
qed

lemma set_access_sound:
  assumes r: "set_access env now new db = Inr (db', u)"
  shows "sound db db'"
proof (cases "fleet_inv db")
  case inv: True
  show ?thesis
  proof (cases "access_of db (a_device new) = Some new")
    case True
    with r show ?thesis by (auto simp: set_access_def transaction_Inr_iff access_of_def)
  next
    case False
    let ?db = "db\<lparr>db_last_now := now\<rparr>"
    from r False obtain db1 db2 ls where
      now: "db_last_now db \<le> now" and
      old: "\<And>old. row (\<lambda>a. a_device a = a_device new) (db_access db) = Some old \<Longrightarrow> a_revision old < a_revision new"
      and up: "upsert_access new ?db = Inr db1"
      and ret: "retire_rows now (access_cut new (db_leases db1)) db1 = Inr (db2, ls)"
      and db': "db' = add_event now (if a_revoked new then ''access-revoked'' else ''access'') (a_device new) db2"
      by (auto simp: set_access_def transaction_Inr_iff access_of_def access_cut_def split: option.splits)
    have d: "distinct (map a_device (db_access db))" using inv by (simp add: fleet_inv_def tables_ok_def)
    have "a_revision x \<le> a_revision new" if "x \<in> set (db_access ?db)" "a_device x = a_device new" for x
      using old [of x] row_member [of x "db_access db" a_device] that d by simp
    note g = upsert_access_grows [OF up this]
    have leases1: "db_leases db1 = db_leases db" using g(1) by simp
    then have "distinct (map l_id (db_leases db1))" using fleet_inv_distinct [OF inv] by simp
    from retire_rows_Inr [OF this ret] obtain ev where
      db2: "db2 = db1\<lparr>db_leases := map (retired (set (access_cut new (db_leases db1)))) (db_leases db1), db_events := ev\<rparr>"
      by blast
    have fields: "db_last_now db1 = now" "db_registries db1 = db_registries db" "db_challenges db1 = db_challenges db"
      "db_requests db1 = db_requests db"
      using g(1) by simp_all
    have "grows db db'"
      using now g(2) unfolding grows_def db' db2 add_event_def by (simp add: leases1 fields leases_le_map)
    moreover have "keys_unique db \<Longrightarrow> keys_unique db'" "challenges_ok db \<Longrightarrow> challenges_ok db'"
      using g(3) unfolding db' db2 add_event_def by (simp_all add: keys_unique_def challenges_ok_def fields)
    moreover have "released (db_leases db') \<subseteq> released (db_leases db)"
      by (simp add: db' db2 add_event_def leases1)
    ultimately show ?thesis using set_access_inv [OF inv r] by (intro soundI)
  qed
qed (rule sound_outside)

lemma install_registry_sound:
  assumes r: "install_registry env now reg db = Inr (db', u)"
  shows "sound db db'"
proof (cases "fleet_inv db")
  case inv: True
  let ?db = "db\<lparr>db_last_now := now\<rparr>"
  from r obtain c p where now: "db_last_now db \<le> now" and
    body: "db' = ?db \<or> (\<exists>db1. install_nodes p now (rg_gateways c) ?db = Inr db1 \<and>
      db' = add_event now ''registry'' (str_int (rg_revision c)) (db1\<lparr>db_registries := db_registries db1 @ [c]\<rparr>))"
    by (auto simp: install_registry_def transaction_Inr_iff split: if_splits)
  from body show ?thesis
  proof (elim disjE exE conjE)
    fix db1
    assume nodes: "install_nodes p now (rg_gateways c) ?db = Inr db1"
      and db': "db' = add_event now ''registry'' (str_int (rg_revision c)) (db1\<lparr>db_registries := db_registries db1 @ [c]\<rparr>)"
    have "distinct (map l_id (db_leases ?db))" using fleet_inv_distinct [OF inv] by simp
    from install_nodes_Inr [OF nodes this] obtain S ev where
      db1: "db1 = ?db\<lparr>db_leases := map (retired S) (db_leases db), db_events := ev\<rparr>" by auto
    have "grows db db'"
      using now unfolding db' db1 grows_def add_event_def by (simp add: leases_le_map)
    then show ?thesis
      using install_registry_inv [OF inv r]
      by (intro soundI) (simp_all add: db' db1 keys_unique_def challenges_ok_def add_event_def)
  qed (simp add: now)
qed (rule sound_outside)

lemma allocated_grows:
  assumes "allocated env now uuid access rv db db' l"
  shows "grows db db' \<and> keys_unique db' = keys_unique db \<and> challenges_ok db' = challenges_ok db \<and>
    released (db_leases db') = released (db_leases db)"
  using assms by (rule allocatedE) (simp add: grows_def keys_unique_def challenges_ok_def new_lease_def)

lemma reserve_sound:
  assumes r: "reserve env now uuid device rv obs db = Inr (db', l)"
  shows "sound db db'"
proof (cases "fleet_inv db")
  case inv: True
  have now: "db_last_now db \<le> now" using r by (simp add: reserve_def transaction_Inr_iff)
  from inv r show ?thesis
  proof (cases rule: reserve_Inr)
    case (prior q)
    with now show ?thesis by simp
  next
    case (fresh access)
    note g = allocated_grows [OF fresh(2)]
    have "grows db (db\<lparr>db_last_now := now\<rparr>)" using now by (simp add: grows_def)
    with g have "grows db db'" by (blast intro: grows_trans)
    then show ?thesis
      using g reserve_inv [OF inv r] by (intro soundI) (simp_all add: keys_unique_def)
  qed
qed (rule sound_outside)

lemma reserve_row_sound:
  assumes "fleet_inv db" "reserve_row env now uuid device rv obs db = Inr (db', l)"
  shows "grows db db' \<and> keys_unique db' = keys_unique db \<and> released (db_leases db') = released (db_leases db)"
proof -
  from assms(2) obtain access where
    body: "db' = db \<or> allocate env now uuid access rv obs db = Inr (db', l)"
    by (auto simp: reserve_row_def split: option.splits)
  with allocated_grows [OF allocate_Inr [OF assms(1)]] show ?thesis by auto
qed

lemma challenge_sound:
  assumes r: "challenge env now random public wg request db = Inr (db', c)"
  shows "sound db db'"
proof -
  have now: "db_last_now db \<le> now" using r by (auto simp: challenge_def transaction_Inr_iff Let_def)
  from r have "grows db db' \<and> (keys_unique db \<longrightarrow> keys_unique db') \<and> db_leases db' = db_leases db"
    by (rule challenge_Inr) (use now in \<open>simp add: grows_def keys_unique_def\<close>)
  then show ?thesis
    using challenge_inv [OF _ r] challenge_challenges_ok [OF _ r] by (simp add: sound_def kept_def)
qed

lemma complete_sound:
  assumes r: "complete env v now uuid prf obs db = Inr (db', l)"
  shows "sound db db'"
proof (cases "fleet_inv db")
  case inv: True
  from r show ?thesis
  proof (cases rule: complete_Inr)
    case (1 d chal device access c db1)
    have "fleet_inv (db\<lparr>db_last_now := now\<rparr>)" using inv by simp
    note rs = reserve_row_sound [OF this 1(9)]
    have "grows db (db\<lparr>db_last_now := now\<rparr>)" using 1(5) by (simp add: grows_def)
    with rs have "grows db db1" by (blast intro: grows_trans)
    then have "grows db db'" by (simp add: 1(10) grows_def)
    moreover have "keys_unique db \<longrightarrow> keys_unique db'" using rs by (simp add: 1(10) keys_unique_def)
    moreover have "released (db_leases db') \<subseteq> released (db_leases db)" using rs by (simp add: 1(10))
    ultimately show ?thesis
      using complete_inv [OF inv r] complete_challenges_ok [OF inv _ r] by (intro soundI) simp_all
  qed
qed (rule sound_outside)

lemma commit_sound: "(\<And>db' x. r = Inr (db', x) \<Longrightarrow> sound db db') \<Longrightarrow> sound db (commit db r)"
  by (auto simp: commit_def split: sum.splits)

lemmas method_sound = install_registry_sound set_access_sound reserve_sound challenge_sound complete_sound
  mark_ready_sound retire_sound expire_sound reads_sound services_sound

lemma fleet_exec_sound:
  assumes "\<And>now lid gen. p \<noteq> ConfirmRemoved now lid gen"
  shows "sound db (fleet_exec env v db p)"
  using assms by (cases p) (auto intro!: commit_sound dest: method_sound)

lemma fleet_exec_kept: "kept db (fleet_exec env v db p)"
proof (cases "\<exists>now lid gen. p = ConfirmRemoved now lid gen")
  case True
  then obtain now lid gen where p: "p = ConfirmRemoved now lid gen" by blast
  show ?thesis
  proof (cases "confirm_removed now lid gen db")
    case (Inl e)
    then show ?thesis by (simp add: p commit_def)
  next
    case (Inr x)
    then show ?thesis using confirm_removed_kept by (cases x) (auto simp: p commit_def)
  qed
next
  case False
  then show ?thesis using fleet_exec_sound [of p db env v] by (auto simp: sound_def)
qed

section \<open>The machine\<close>

lemma initialize_inv:
  assumes "initialize env now r = Inr db"
  shows "fleet_inv db \<and> keys_unique db \<and> challenges_ok db"
  using assms
  by (auto simp: initialize_def empty_db_def fleet_inv_def tables_ok_def keys_unique_def challenges_ok_def add_event_def
      dest!: load_registryD)

definition store_inv :: "fleet_db \<Rightarrow> bool" where
  "store_inv db \<longleftrightarrow> fleet_inv db \<and> keys_unique db \<and> challenges_ok db"

interpretation fleet: progress_system "fleet_init env" "fleet_step env v" store_inv grows for env v
proof
  show "store_inv db" if "fleet_init env db" for db
    using that initialize_inv by (auto simp: fleet_init_def store_inv_def)
next
  fix db db'
  assume inv: "store_inv db" and step: "fleet_step env v db db'"
  then obtain p where "db' = fleet_exec env v db p" by (auto simp: fleet_step_def)
  with fleet_exec_kept [of db env v p] inv show "store_inv db'" "grows db db'"
    by (auto simp: kept_def store_inv_def)
qed (auto intro: grows_trans)

text \<open>A run of calls, one after the other, from an initialised store.\<close>

lemma run_reach:
  assumes "initialize env now r = Inr db"
  shows "reach (fleet_init env) (fleet_step env v) (run (fleet_exec env v) db ps)"
proof (induction ps rule: rev_induct)
  case Nil
  from assms show ?case by (auto intro: reach_init simp: fleet_init_def)
next
  case (snoc p ps)
  then show ?case by (auto simp: run_append fleet_step_def intro: reach_step)
qed

end
