(* ===== verification/Fleet_Example.thy ===== *)
theory Fleet_Example
  imports Fleet_Machine
begin

text \<open>
  A small fleet on which the properties of the store are instantiated: one gateway, one ingress, one device
  whose identity hash is the first 16 bytes of its public key, and a hash function that returns its input.
\<close>

definition ex_env :: fleet_env where
  "ex_env = \<lparr>env_sha256 = (\<lambda>s. s), env_identity = take 16, env_dump_size = (\<lambda>_. 512)\<rparr>"

definition ex_validates :: "string \<Rightarrow> string \<Rightarrow> string \<Rightarrow> bool" where
  "ex_validates public signature message \<longleftrightarrow> signature = public"

definition ex_gateway :: gateway where
  "ex_gateway = \<lparr>g_id = ''fi-1'', g_failure_domain = ''hel'', g_country = ''fi'', g_state = ''active'',
     g_endpoints = [\<lparr>ep_transport = ''wireguard'', ep_version = ''1'', ep_address = IPv4 0x08080808, ep_port = 51820\<rparr>],
     g_pool = \<lparr>p_base = 0x0A000000, p_len = 24\<rparr>, g_max_devices = 200, g_weight = 1, g_egress = 1000\<rparr>"

definition ex_registry :: registry where
  "ex_registry = \<lparr>rg_schema = 1, rg_revision = 1, rg_gateways = [ex_gateway],
     rg_ingresses = [\<lparr>i_id = ''in-1'', i_failure_domain = ''hel'', i_address = IPv4 0x08080404, i_port = 443,
       i_provider = b64encode (replicate 64 CHR ''P'')\<rparr>]\<rparr>"

definition ex_public :: string where "ex_public = replicate 64 CHR ''A''"
definition ex_wg :: string where "ex_wg = replicate 32 CHR ''B''"
definition ex_device :: string where "ex_device = bytes_hex (replicate 16 CHR ''A'')"

definition ex_access :: access_row where
  "ex_access = \<lparr>a_device = ex_device, a_public = b64encode ex_public, a_wg = b64encode ex_wg, a_revision = 1,
     a_expires = 100000, a_max_leases = 2, a_revoked = False\<rparr>"

definition ex_request :: reservation where
  "ex_request = \<lparr>rv_request_id = ''req-1'', rv_registry_revision = 1, rv_country = ''fi'',
     rv_transport = ''wireguard'', rv_version = ''1'', rv_lifetime = 3600, rv_families = [4]\<rparr>"

definition ex_sample :: observation where
  "ex_sample = \<lparr>o_gateway = ''fi-1'', o_revision = 1, o_at = 100, o_ready = [''wireguard''], o_allocated = 0,
     o_cpu = 10, o_memory = 20, o_tx = 5\<rparr>"

definition ex_uuid :: string where "ex_uuid = replicate 32 CHR ''a''"

definition ex_db0 :: fleet_db where
  "ex_db0 = (empty_db 100)\<lparr>db_registries := [ex_registry], db_events := [(100, ''registry'', ''1'')]\<rparr>"

definition ex_db1 :: fleet_db where
  "ex_db1 = ex_db0\<lparr>db_access := [ex_access], db_events := [(100, ''registry'', ''1''), (100, ''access'', ex_device)]\<rparr>"

definition ex_lease :: lease where
  "ex_lease = \<lparr>l_id = ex_uuid, l_device = ex_device, l_gateway = ''fi-1'', l_country = ''fi'', l_transport = ''wireguard'',
     l_version = ''1'', l_address = 0x0A000002, l_registry_revision = 1, l_access_revision = 1, l_created = 100,
     l_expires = 3700, l_state = Reserved, l_generation = 1\<rparr>"

definition ex_db2 :: fleet_db where
  "ex_db2 = ex_db1\<lparr>db_leases := [ex_lease],
     db_requests := [\<lparr>rq_device = ex_device, rq_request_id = ''req-1'', rq_fingerprint = fingerprint ex_env ex_request, rq_lease = ex_uuid\<rparr>],
     db_events := [(100, ''registry'', ''1''), (100, ''access'', ex_device), (100, ''reserved'', ex_uuid)]\<rparr>"

lemma ex_chars: "CHR ''P'' \<noteq> byte_char 0" "CHR ''B'' \<noteq> byte_char 0" "byte_char 49 = CHR ''1''"
  by code_simp+

lemma ex_gateway_valid: "valid_gateway ex_gateway"
  by code_simp

lemma ex_ingress_valid: "valid_public 64 (b64encode (replicate 64 CHR ''P''))"
  using decode_canonical_encode [of "replicate 64 CHR ''P''"] by (simp add: valid_public_def ex_chars)

lemma ex_registry_valid: "load_registry (env_dump_size ex_env) ex_registry = Inr ex_registry"
proof -
  have "list_all valid_gateway (rg_gateways ex_registry)" by (simp add: ex_registry_def ex_gateway_valid)
  moreover have "list_all valid_ingress (rg_ingresses ex_registry)"
    by (simp add: ex_registry_def valid_ingress_def ex_ingress_valid) code_simp
  moreover have "unique_inventory ex_registry = Inr ex_registry"
    by (simp add: unique_inventory_def ex_registry_def ex_gateway_def endpoint_socket_def)
  ultimately show ?thesis
    by (simp add: load_registry_def ex_env_def) (simp add: ex_registry_def)
qed

lemma ex_init: "initialize ex_env 100 ex_registry = Inr ex_db0"
  by (simp add: initialize_def ex_registry_valid)
    (simp add: ex_db0_def empty_db_def add_event_def ex_registry_def str_int_def str_nat.simps ex_chars)

lemma ex_set_access: "set_access ex_env 100 ex_access ex_db0 = Inr (ex_db1, ())"
proof -
  have "decode_field 64 (b64encode ex_public) = Inr ex_public" "decode_field 32 (b64encode ex_wg) = Inr ex_wg"
    by (simp_all add: decode_field_encode ex_public_def ex_wg_def)
  moreover have "bytes_hex (env_identity ex_env ex_public) = ex_device"
    by (simp add: ex_env_def ex_public_def ex_device_def)
  moreover have "ex_wg \<noteq> replicate 32 (byte_char 0)" by (simp add: ex_wg_def ex_chars)
  ultimately show ?thesis
    by (simp add: set_access_def positive_def ex_access_def transaction_def ex_db0_def empty_db_def access_of_def
        upsert_access_def add_event_def ex_db1_def)
qed

lemma ex_rank: "rank_gateways sha256 ex_registry [ex_sample] ex_device (Some ''fi'') ''wireguard'' ''1'' 100 None 45 [4] = Inr [''fi-1'']"
  by (simp add: rank_gateways_def request_ok_def transports_def versions_of_def ex_device_def admitting_def sample_of_def
      ex_registry_def ex_gateway_def ex_sample_def serves_def authorises_def has_room_def pressure_def)

lemma ex_free: "free_address ex_db1 ''fi-1'' (g_pool ex_gateway) = Some 0x0A000002"
proof -
  have "[0x0A000002..0x0A0000FE] = 0x0A000002 # [0x0A000003..0x0A0000FE :: int]" by (subst upto_rec1) simp_all
  then show ?thesis
    by (simp add: free_address_def ex_gateway_def broadcast_def num_addresses_def ex_db1_def ex_db0_def empty_db_def)
qed

lemma ex_authorized: "authorized ex_db1 ex_device 100 = Inr ex_access"
  by (simp add: authorized_def access_of_def ex_db1_def) (simp add: ex_access_def)

lemma ex_gateway_of: "gateway_of ex_registry ''fi-1'' = Some ex_gateway"
  by (simp add: gateway_of_def ex_registry_def) (simp add: ex_gateway_def)

lemma ex_pick: "pick_gateway ex_registry ex_db1 {} [''fi-1''] = Inr (''fi-1'', 0x0A000002)"
  by (simp add: ex_gateway_of ex_free)
    (simp add: ex_gateway_def live_count_def ex_db1_def ex_db0_def empty_db_def)

lemma ex_reserve: "reserve ex_env 100 ex_uuid ex_device ex_request [ex_sample] ex_db1 = Inr (ex_db2, ex_lease)"
proof -
  have req: "reservation_ok ex_request" by code_simp
  have db: "ex_db1\<lparr>db_last_now := 100\<rparr> = ex_db1" by (simp add: ex_db1_def ex_db0_def empty_db_def)
  have tables: "db_leases ex_db1 = []" "db_requests ex_db1 = []" "db_registries ex_db1 = [ex_registry]"
    "db_access ex_db1 = [ex_access]" "db_schema ex_db1 = 3" "db_last_now ex_db1 = 100"
    by (simp_all add: ex_db1_def ex_db0_def empty_db_def)
  have obs: "with_durable_counts ex_db1 [ex_sample] = [ex_sample]"
    by (simp add: with_durable_counts_def live_count_def tables ex_sample_def)
  have fields: "rg_revision ex_registry = 1" "a_device ex_access = ex_device" "a_revision ex_access = 1"
    "a_expires ex_access = 100000" "a_max_leases ex_access = 2" "rv_request_id ex_request = ''req-1''"
    "rv_registry_revision ex_request = 1" "rv_country ex_request = ''fi''" "rv_transport ex_request = ''wireguard''"
    "rv_version ex_request = ''1''" "rv_lifetime ex_request = 3600" "rv_families ex_request = [4]"
    by (simp_all add: ex_registry_def ex_access_def ex_request_def)
  have al: "allocate ex_env 100 ex_uuid ex_access ex_request [ex_sample] ex_db1 = Inr (ex_db2, ex_lease)"
    using ex_rank [of "env_sha256 ex_env"]
    by (simp add: allocate_def registry_row_def tables obs ex_pick insert_lease_def
        insert_request_def new_lease_def add_event_def lease_row_def fields del: pick_gateway.simps)
      (simp add: ex_db2_def ex_lease_def ex_db1_def)
  then show ?thesis
    by (simp add: reserve_def transaction_def tables db reserve_row_def positive_def req ex_authorized fields)
qed

text \<open>The store after the device was admitted, and after it reserved its first lease.\<close>

lemma ex_run1: "run (fleet_exec ex_env v) ex_db0 [SetAccess 100 ex_access] = ex_db1"
  by (simp add: ex_set_access commit_def)

lemma ex_run2:
  "run (fleet_exec ex_env v) ex_db0
     [SetAccess 100 ex_access, Reserve 100 ex_uuid ex_device ex_request [ex_sample]] = ex_db2"
  by (simp add: ex_set_access ex_reserve commit_def)

lemma ex_reach1: "reach (fleet_init ex_env) (fleet_step ex_env v) ex_db1"
  using run_reach [OF ex_init, where ps = "[SetAccess 100 ex_access]"] by (simp only: ex_run1)

lemma ex_reach2: "reach (fleet_init ex_env) (fleet_step ex_env v) ex_db2"
  using run_reach [OF ex_init, where ps = "[SetAccess 100 ex_access, Reserve 100 ex_uuid ex_device ex_request [ex_sample]]"]
  by (simp only: ex_run2)

lemma ex_steps: "steps (fleet_step ex_env v) ex_db1 ex_db2"
proof -
  have "fleet_step ex_env v ex_db1 ex_db2"
    unfolding fleet_step_def
    by (rule exI [of _ "Reserve 100 ex_uuid ex_device ex_request [ex_sample]"]) (simp add: ex_reserve commit_def)
  then show ?thesis by (rule steps_step [OF steps_refl])
qed

lemma ex_db2_tables:
  "db_leases ex_db2 = [ex_lease]" "db_access ex_db2 = [ex_access]" "db_registries ex_db2 = [ex_registry]"
  "db_last_now ex_db2 = 100" "db_schema ex_db2 = 3" "db_jobs ex_db2 = []"
  by (simp_all add: ex_db2_def ex_db1_def ex_db0_def empty_db_def)

end
