(* ===== verification/Fleet_Props.thy ===== *)
theory Fleet_Props
  imports Fleet_Example
begin

text \<open>
  The properties of the lease store in every database it can reach, each with a concrete instance.
\<close>

section \<open>Isolation\<close>

lemma store_invD: "reach (fleet_init env) (fleet_step env v) db \<Longrightarrow> fleet_inv db \<and> keys_unique db \<and> challenges_ok db"
  using fleet.reach_inv by (auto simp: store_inv_def)

lemma fleet_inv_lease_ok: "fleet_inv db \<Longrightarrow> l \<in> set (db_leases db) \<Longrightarrow> lease_ok (db_registries db) (db_access db) l"
  by (simp add: fleet_inv_def tables_ok_def)

lemma live_addresses_differ:
  assumes inv: "fleet_inv db" and l: "l \<in> set (db_leases db)" "live l" and m: "m \<in> set (db_leases db)" "live m"
    and ne: "l_id l \<noteq> l_id m"
  shows "l_address l \<noteq> l_address m"
proof (cases "l_gateway l = l_gateway m")
  case True
  have "no_clash l m" using inv l m ne by (simp add: fleet_inv_def tables_ok_def)
  with True show ?thesis by (simp add: no_clash_def)
next
  case False
  from fleet_inv_lease_ok [OF inv l(1)] obtain r g where
    g: "newest (db_registries db) = Some r" "gateway_of r (l_gateway l) = Some g" "in_pool (l_address l) (g_pool g)"
    by (auto simp: lease_ok_def in_pool_def)
  from fleet_inv_lease_ok [OF inv m(1)] g(1) obtain h where
    h: "gateway_of r (l_gateway m) = Some h" "in_pool (l_address m) (g_pool h)"
    by (auto simp: lease_ok_def in_pool_def)
  have "registry_wf r" using inv newest_SomeD [OF g(1)] by (simp add: fleet_inv_def tables_ok_def)
  from registry_wf_disjoint [OF this g(2) h(1) False, of "l_address l"] g(3) h(2) show ?thesis by auto
qed

text \<open>C1. In every reachable store two different leases that are not released never share a tunnel address, not
  even on different gateways and across any sequence of registry updates: an address is free for reuse only
  after the removal of its old peer was confirmed.\<close>

theorem live_leases_have_distinct_addresses:
  assumes "reach (fleet_init env) (fleet_step env v) db"
  shows "distinct (map l_address (filter live (db_leases db)))"
proof -
  have inv: "fleet_inv db" using store_invD [OF assms] by simp
  have "inj_on l_address (set (filter live (db_leases db)))"
  proof (rule inj_onI)
    fix l m
    assume lm: "l \<in> set (filter live (db_leases db))" "m \<in> set (filter live (db_leases db))" "l_address l = l_address m"
    then have "l_id l = l_id m" using live_addresses_differ [OF inv] by fastforce
    then show "l = m" using fleet_inv_distinct [OF inv] lm by (auto simp: distinct_map inj_on_def)
  qed
  moreover have "distinct (filter live (db_leases db))"
    using fleet_inv_distinct [OF inv] by (simp add: distinct_map)
  ultimately show ?thesis by (simp add: distinct_map)
qed

theorem live_leases_have_distinct_addresses_witness:
  "distinct (map l_address (filter live (db_leases ex_db2))) \<and> length (filter live (db_leases ex_db2)) = 1"
  using live_leases_have_distinct_addresses [OF ex_reach2] by (simp add: ex_db2_tables ex_lease_def live_def)

text \<open>C2. A lease in service is backed by access that is not revoked and does not end before the lease, and its
  gateway is active or draining in the newest registry and its address a host of that gateway's pool.\<close>

theorem service_is_authorised:
  assumes "reach (fleet_init env) (fleet_step env v) db" and "l \<in> set (db_leases db)" and "in_service l"
  shows "(\<exists>a. access_of db (l_device l) = Some a \<and> \<not> a_revoked a \<and> l_expires l \<le> a_expires a \<and>
             l_access_revision l \<le> a_revision a) \<and>
         (\<exists>r g. registry_row db = Inr r \<and> gateway_of r (l_gateway l) = Some g \<and> in_pool (l_address l) (g_pool g) \<and>
             (g_state g = ''active'' \<or> g_state g = ''draining''))"
proof -
  have "fleet_inv db" using store_invD [OF assms(1)] by simp
  from fleet_inv_lease_ok [OF this assms(2)] assms(3) show ?thesis
    by (force simp: lease_ok_def access_of_def registry_row_def in_pool_def)
qed

theorem service_is_authorised_witness:
  "(\<exists>a. access_of ex_db2 (l_device ex_lease) = Some a \<and> \<not> a_revoked a \<and> l_expires ex_lease \<le> a_expires a \<and>
        l_access_revision ex_lease \<le> a_revision a) \<and>
   (\<exists>r g. registry_row ex_db2 = Inr r \<and> gateway_of r (l_gateway ex_lease) = Some g \<and>
        in_pool (l_address ex_lease) (g_pool g) \<and> (g_state g = ''active'' \<or> g_state g = ''draining''))"
  by (rule service_is_authorised [OF ex_reach2]) (simp_all add: ex_db2_tables ex_lease_def in_service_def)

section \<open>Life of a lease\<close>

text \<open>C3. Whatever is called, a lease is never deleted or rebound: in every later store it is still there with the
  same device, gateway, address, transport and expiry, it has only moved forward through reserved, ready,
  retiring and released, and its generation is 1 in service and 2 afterwards. The clock of the store never
  runs backwards.\<close>

theorem lease_lifecycle:
  assumes "reach (fleet_init env) (fleet_step env v) db" and "steps (fleet_step env v) db db'"
    and "l \<in> set (db_leases db)"
  shows "db_last_now db \<le> db_last_now db' \<and>
     (\<exists>l' \<in> set (db_leases db'). l_id l' = l_id l \<and> l_device l' = l_device l \<and> l_gateway l' = l_gateway l \<and>
        l_address l' = l_address l \<and> l_transport l' = l_transport l \<and> l_expires l' = l_expires l \<and>
        stage (l_state l) \<le> stage (l_state l') \<and> l_generation l' = (if in_service l' then 1 else 2))"
proof -
  have "grows db db'"
    using fleet.steps_le [OF assms(2)] fleet.reach_inv [OF assms(1)] by blast
  then obtain f ys where now: "db_last_now db \<le> db_last_now db'" and
    ls: "db_leases db' = map f (db_leases db) @ ys" "\<forall>l \<in> set (db_leases db). lease_advance l (f l)"
    unfolding grows_def leases_le_def by blast
  from ls assms(3) have mem: "f l \<in> set (db_leases db')" and adv: "lease_advance l (f l)" by auto
  have "fleet_inv db'" using store_invD [OF reach_steps [OF assms(1,2)]] by simp
  from fleet_inv_lease_ok [OF this mem] have "l_generation (f l) = (if in_service (f l) then 1 else 2)"
    by (simp add: lease_ok_def)
  then show ?thesis
    using now mem adv by (intro conjI bexI [of _ "f l"]) (simp_all add: lease_advance_keys, simp add: lease_advance_def)
qed

theorem lease_lifecycle_witness:
  "\<exists>l' \<in> set (db_leases ex_db2). l_id l' = l_id ex_lease \<and> stage (l_state ex_lease) \<le> stage (l_state l')"
  using lease_lifecycle [OF ex_reach2 steps_refl, of ex_lease] by (simp add: ex_db2_tables)

end
