(* ===== verification/Fleet_Gateway.thy ===== *)
theory Fleet_Gateway
  imports Fleet_Registry Transition_Systems
begin

text \<open>
  The gateway side of the fleet, \<open>control/fleet_gateway.py\<close>: the peer commands with their canonical texts
  and receipts, and the durable journal \<open>FencedGateway\<close> that fences them.

  The journal is its SQLite tables.  An \<open>execute\<close> commits its intent before it calls the backend, so a failing
  backend leaves the intent behind: the result, the journal and the world are returned side by side.  The
  backend is a parameter over any type of world (a pair of \<open>preflight\<close>, if the backend has one, and \<open>ensure\<close>,
  which may fail after it changed something).  The readings of the clock are arguments, one per call of \<open>_now\<close>.
  A host route string such as \<open>10.0.0.7/32\<close> is represented by the address it denotes; the command column of
  a row by the command whose canonical text it holds.
\<close>

section \<open>Commands\<close>

datatype peer_op = Present | Absent

record peer_command =
  pc_lease :: string
  pc_gateway :: string
  pc_device :: string
  pc_wg :: string
  pc_address :: int
  pc_transport :: string
  pc_version :: string
  pc_expires :: int
  pc_generation :: int
  pc_operation :: peer_op

definition valid_command :: "peer_command \<Rightarrow> bool" where
  "valid_command c \<longleftrightarrow>
     fullmatch is_hex 32 32 (pc_lease c) \<and> is_identifier (pc_gateway c) \<and> fullmatch is_hex 32 32 (pc_device c) \<and>
     valid_public 32 (pc_wg c) \<and> 0 \<le> pc_address c \<and> pc_address c < 2 ^ 32 \<and>
     pc_transport c \<in> {''wireguard'', ''amneziawg''} \<and> pc_version c \<in> {''1'', ''2.0'', ''3.1''} \<and>
     1 \<le> pc_expires c \<and> pc_expires c < 2 ^ 63 \<and>
     pc_generation c = (if pc_operation c = Present then 1 else 2) \<and>
     pc_version c \<in> (if pc_transport c = ''amneziawg'' then {''2.0'', ''3.1''} else {''1''})"

text \<open>\<open>str(IPv4Address(n))\<close> and the host route.\<close>

definition ipv4_text :: "int \<Rightarrow> string" where
  "ipv4_text n = str_int (n div 16777216) @ ''.'' @ str_int (n div 65536 mod 256) @ ''.'' @
     str_int (n div 256 mod 256) @ ''.'' @ str_int (n mod 256)"

definition host_route :: "int \<Rightarrow> string" where
  "host_route n = ipv4_text n @ ''/32''"

definition op_text :: "peer_op \<Rightarrow> string" where
  "op_text p = (case p of Present \<Rightarrow> ''present'' | Absent \<Rightarrow> ''absent'')"

definition canonical :: "peer_command \<Rightarrow> string" where
  "canonical c = dumps (JObj
     [(''address'', JStr (host_route (pc_address c))), (''device'', JStr (pc_device c)),
      (''expires_at'', JInt (pc_expires c)), (''gateway_id'', JStr (pc_gateway c)),
      (''generation'', JInt (pc_generation c)), (''lease_id'', JStr (pc_lease c)),
      (''operation'', JStr (op_text (pc_operation c))), (''transport'', JStr (pc_transport c)),
      (''version'', JStr (pc_version c)), (''wg'', JStr (pc_wg c))])"

definition binding :: "peer_command \<Rightarrow> string" where
  "binding c = dumps (JObj
     [(''address'', JStr (host_route (pc_address c))), (''device'', JStr (pc_device c)),
      (''expires_at'', JInt (pc_expires c)), (''gateway_id'', JStr (pc_gateway c)),
      (''lease_id'', JStr (pc_lease c)), (''transport'', JStr (pc_transport c)),
      (''version'', JStr (pc_version c)), (''wg'', JStr (pc_wg c))])"

record receipt =
  rc_lease :: string
  rc_gateway :: string
  rc_generation :: int
  rc_operation :: peer_op
  rc_digest :: string

definition receipt_of :: "(string \<Rightarrow> string) \<Rightarrow> peer_command \<Rightarrow> receipt" where
  "receipt_of sha256 c = \<lparr>rc_lease = pc_lease c, rc_gateway = pc_gateway c, rc_generation = pc_generation c,
     rc_operation = pc_operation c, rc_digest = bytes_hex (sha256 (canonical c))\<rparr>"

section \<open>The journal\<close>

datatype fence_error = FenceRejected string | CommandInvalid | BackendFailed string

record command_row =
  cm_lease :: string
  cm_binding :: string
  cm_command :: peer_command
  cm_generation :: int
  cm_address :: int
  cm_wg :: string
  cm_held :: bool
  cm_done :: bool

record fence =
  fn_schema :: int
  fn_gateway :: gateway
  fn_last_now :: int
  fn_commands :: "command_row list"

record 'w backend =
  be_preflight :: "(peer_command \<Rightarrow> 'w \<Rightarrow> fence_error option) option"
  be_ensure :: "peer_command \<Rightarrow> 'w \<Rightarrow> fence_error option \<times> 'w"

definition clock_ok :: "int \<Rightarrow> bool" where
  "clock_ok now \<longleftrightarrow> 0 \<le> now \<and> now < 2 ^ 63"

definition init_fence :: "gateway \<Rightarrow> int \<Rightarrow> (fence_error, fence) res" where
  "init_fence g now =
     bind_res (check (clock_ok now) (FenceRejected ''clock'')) (\<lambda>_.
     Inr \<lparr>fn_schema = 1, fn_gateway = g, fn_last_now = now, fn_commands = []\<rparr>)"

definition gate :: "gateway \<Rightarrow> int \<Rightarrow> fence \<Rightarrow> (fence_error, unit) res" where
  "gate g now f =
     bind_res (check (fn_schema f = 1) (FenceRejected ''gateway-state'')) (\<lambda>_.
     bind_res (check (clock_ok now) (FenceRejected ''clock'')) (\<lambda>_.
     check (\<not> now < fn_last_now f \<and> fn_gateway f = g) (FenceRejected ''gateway-state'')))"

definition bound_to :: "gateway \<Rightarrow> peer_command \<Rightarrow> bool" where
  "bound_to g c \<longleftrightarrow> pc_gateway c = g_id g \<and> in_pool (pc_address c) (g_pool g) \<and>
     pc_address c \<notin> {p_base (g_pool g), p_base (g_pool g) + 1, broadcast (g_pool g)} \<and>
     list_ex (\<lambda>e. (ep_transport e, ep_version e) = (pc_transport c, pc_version c)) (g_endpoints g)"

definition journal_row :: "fence \<Rightarrow> string \<Rightarrow> command_row option" where
  "journal_row f lid = row (\<lambda>r. cm_lease r = lid) (fn_commands f)"

text \<open>The checks between the gate and the journal; \<open>Inr True\<close> answers at once with the receipt of a
  command that is already done.\<close>

definition fence_decide :: "int \<Rightarrow> bool \<Rightarrow> peer_command \<Rightarrow> command_row option \<Rightarrow> (fence_error, bool) res" where
  "fence_decide now restore c old =
     bind_res (check (case old of None \<Rightarrow> True
                      | Some r \<Rightarrow> cm_binding r = binding c \<and> \<not> cm_generation r > pc_generation c)
                (FenceRejected ''stale-or-conflicting-command'')) (\<lambda>_.
     bind_res (if pc_operation c = Present
               then bind_res (check (clock_ok now) (FenceRejected ''clock'')) (\<lambda>_.
                    check (\<not> pc_expires c \<le> now) (FenceRejected ''expired-command''))
               else Inr ()) (\<lambda>_.
     case old of
       None \<Rightarrow> Inr False
     | Some r \<Rightarrow>
         if cm_generation r = pc_generation c
         then if canonical (cm_command r) \<noteq> canonical c then Inl (FenceRejected ''command-conflict'')
              else Inr (cm_done r \<and> \<not> (restore \<and> pc_operation c = Present))
         else Inr False))"

text \<open>The upsert, and the check of the unique indexes \<open>held_ip\<close> and \<open>held_key\<close>.\<close>

definition put_row :: "peer_command \<Rightarrow> bool \<Rightarrow> bool \<Rightarrow> command_row list \<Rightarrow> command_row list" where
  "put_row c held d rows =
     (if pc_lease c \<in> cm_lease ` set rows
      then update_rows (\<lambda>r. cm_lease r = pc_lease c)
             (\<lambda>r. r\<lparr>cm_command := c, cm_generation := pc_generation c, cm_held := held, cm_done := d\<rparr>) rows
      else rows @ [\<lparr>cm_lease = pc_lease c, cm_binding = binding c, cm_command = c,
             cm_generation = pc_generation c, cm_address = pc_address c, cm_wg = pc_wg c,
             cm_held = held, cm_done = d\<rparr>])"

definition upsert_command :: "peer_command \<Rightarrow> bool \<Rightarrow> bool \<Rightarrow> command_row list \<Rightarrow> command_row list option" where
  "upsert_command c held d rows =
     (let rows' = put_row c held d rows in
      if list_ex (\<lambda>r. cm_lease r = pc_lease c \<and> cm_held r \<and>
           list_ex (\<lambda>s. cm_lease s \<noteq> pc_lease c \<and> cm_held s \<and> (cm_address s = cm_address r \<or> cm_wg s = cm_wg r)) rows') rows'
      then None else Some rows')"

definition preflight_error :: "'w backend \<Rightarrow> peer_command \<Rightarrow> command_row option \<Rightarrow> 'w \<Rightarrow> fence_error option" where
  "preflight_error be c old w =
     (if old = None \<and> pc_operation c = Present
      then (case be_preflight be of None \<Rightarrow> None | Some p \<Rightarrow> p c w) else None)"

definition finish_command :: "peer_command \<Rightarrow> fence \<Rightarrow> fence" where
  "finish_command c f = f\<lparr>fn_commands := update_rows (\<lambda>r. cm_lease r = pc_lease c)
     (\<lambda>r. r\<lparr>cm_done := True, cm_held := (pc_operation c = Present)\<rparr>) (fn_commands f)\<rparr>"

text \<open>The intent is committed, then the backend is called, then the command is marked done.\<close>

definition apply_command ::
  "(string \<Rightarrow> string) \<Rightarrow> 'w backend \<Rightarrow> int \<Rightarrow> peer_command \<Rightarrow> bool \<Rightarrow> bool \<Rightarrow> fence \<Rightarrow> 'w \<Rightarrow>
   (fence_error, receipt) res \<times> fence \<times> 'w" where
  "apply_command sha256 be now c never_installed held f w =
     (if \<not> clock_ok now then (Inl (FenceRejected ''clock''), f, w)
      else case upsert_command c held never_installed (fn_commands f) of
        None \<Rightarrow> (Inl (FenceRejected ''resource-owned''), f, w)
      | Some rows \<Rightarrow>
          let f1 = f\<lparr>fn_last_now := now, fn_commands := rows\<rparr> in
          if never_installed then (Inr (receipt_of sha256 c), f1, w)
          else case be_ensure be c w of
            (Some e, w1) \<Rightarrow> (Inl e, f1, w1)
          | (None, w1) \<Rightarrow> (Inr (receipt_of sha256 c), finish_command c f1, w1))"

definition was_held :: "command_row option \<Rightarrow> bool" where
  "was_held old = (case old of None \<Rightarrow> False | Some r \<Rightarrow> cm_held r)"

definition execute ::
  "(string \<Rightarrow> string) \<Rightarrow> gateway \<Rightarrow> 'w backend \<Rightarrow> int \<Rightarrow> int \<Rightarrow> int \<Rightarrow> bool \<Rightarrow> peer_command \<Rightarrow> fence \<Rightarrow> 'w \<Rightarrow>
   (fence_error, receipt) res \<times> fence \<times> 'w" where
  "execute sha256 g be now0 now1 now2 restore c f w =
     (if \<not> valid_command c then (Inl CommandInvalid, f, w)
      else if \<not> bound_to g c then (Inl (FenceRejected ''gateway-binding''), f, w)
      else case gate g now0 f of Inl e \<Rightarrow> (Inl e, f, w) | Inr _ \<Rightarrow>
      let old = journal_row f (pc_lease c) in
      case fence_decide now1 restore c old of
        Inl e \<Rightarrow> (Inl e, f, w)
      | Inr True \<Rightarrow> (Inr (receipt_of sha256 c), f, w)
      | Inr False \<Rightarrow>
          (case preflight_error be c old w of
             Some e \<Rightarrow> (Inl e, f, w)
           | None \<Rightarrow> apply_command sha256 be now2 c (old = None \<and> pc_operation c = Absent)
                       (pc_operation c = Present \<or> was_held old) f w))"

text \<open>\<open>recover\<close>: the rows to restore in the order of the query, each executed again with its own readings
  of the clock; the first error ends it.\<close>

definition restorable :: "fence \<Rightarrow> peer_command list" where
  "restorable f = map cm_command (sort_key (\<lambda>r. (- cm_generation r, cm_lease r))
     (filter (\<lambda>r. cm_held r \<or> \<not> cm_done r) (fn_commands f)))"

fun restore_all ::
  "(string \<Rightarrow> string) \<Rightarrow> gateway \<Rightarrow> 'w backend \<Rightarrow> (nat \<Rightarrow> int) \<Rightarrow> peer_command list \<Rightarrow> fence \<Rightarrow> 'w \<Rightarrow>
   (fence_error, receipt list) res \<times> fence \<times> 'w" where
  "restore_all sha256 g be clk [] f w = (Inr [], f, w)"
| "restore_all sha256 g be clk (c # cs) f w =
     (case execute sha256 g be (clk 0) (clk 1) (clk 2) True c f w of
        (Inl e, f1, w1) \<Rightarrow> (Inl e, f1, w1)
      | (Inr r, f1, w1) \<Rightarrow>
          (case restore_all sha256 g be (\<lambda>n. clk (n + 3)) cs f1 w1 of
             (Inl e, f2, w2) \<Rightarrow> (Inl e, f2, w2)
           | (Inr rs, f2, w2) \<Rightarrow> (Inr (r # rs), f2, w2)))"

definition recover ::
  "(string \<Rightarrow> string) \<Rightarrow> gateway \<Rightarrow> 'w backend \<Rightarrow> (nat \<Rightarrow> int) \<Rightarrow> fence \<Rightarrow> 'w \<Rightarrow>
   (fence_error, receipt list) res \<times> fence \<times> 'w" where
  "recover sha256 g be clk f w =
     (case gate g (clk 0) f of
        Inl e \<Rightarrow> (Inl e, f, w)
      | Inr _ \<Rightarrow> restore_all sha256 g be (\<lambda>n. clk (n + 1)) (restorable f) f w)"

section \<open>Canonical texts\<close>

lemma str_int_sep:
  assumes "str_int i @ c # r = str_int j @ c # s" "\<not> is_digit c" "c \<noteq> CHR ''-''"
  shows "i = j \<and> r = s"
proof -
  let ?p = "\<lambda>c. is_digit c \<or> c = CHR ''-''"
  have "list_all ?p (str_int n)" for n
    using str_nat_digits [of "nat n"] str_nat_digits [of "nat (- n)"] by (auto simp: str_int_def list_all_iff)
  then have "str_int i = str_int j \<and> c # r = c # s"
    using assms by (intro span_prefix [of ?p]) auto
  then show ?thesis by (simp add: str_int_inj)
qed

lemma is_digit_separators [simp]: "\<not> is_digit CHR ''.''" "\<not> is_digit CHR ''/''"
  by (simp_all add: is_digit_def)

lemma quad_unique:
  fixes m n :: int
  assumes "m div 16777216 = n div 16777216" "m div 65536 mod 256 = n div 65536 mod 256"
    "m div 256 mod 256 = n div 256 mod 256" "m mod 256 = n mod 256"
  shows "m = n"
proof -
  have join: "x = y" if "x div 256 = y div 256" "x mod 256 = y mod 256" for x y :: int
    using that by (metis div_mult_mod_eq)
  have "m div 65536 div 256 = n div 65536 div 256" using assms(1) by (simp add: zdiv_zmult2_eq [symmetric])
  then have "m div 65536 = n div 65536" using assms(2) by (rule join)
  then have "m div 256 div 256 = n div 256 div 256" by (simp add: zdiv_zmult2_eq [symmetric])
  then have "m div 256 = n div 256" using assms(3) by (rule join)
  then show ?thesis using assms(4) by (rule join)
qed

lemma host_route_inj: "host_route m = host_route n \<longleftrightarrow> m = n"
proof
  assume "host_route m = host_route n"
  then have eq: "str_int (m div 16777216) @ CHR ''.'' # str_int (m div 65536 mod 256) @ CHR ''.'' #
      str_int (m div 256 mod 256) @ CHR ''.'' # str_int (m mod 256) @ CHR ''/'' # ''32'' =
    str_int (n div 16777216) @ CHR ''.'' # str_int (n div 65536 mod 256) @ CHR ''.'' #
      str_int (n div 256 mod 256) @ CHR ''.'' # str_int (n mod 256) @ CHR ''/'' # ''32''"
    by (simp add: host_route_def ipv4_text_def)
  have e1: "m div 16777216 = n div 16777216 \<and> str_int (m div 65536 mod 256) @ CHR ''.'' #
      str_int (m div 256 mod 256) @ CHR ''.'' # str_int (m mod 256) @ CHR ''/'' # ''32'' =
    str_int (n div 65536 mod 256) @ CHR ''.'' #
      str_int (n div 256 mod 256) @ CHR ''.'' # str_int (n mod 256) @ CHR ''/'' # ''32''"
    using eq by (rule str_int_sep) simp_all
  have e2: "m div 65536 mod 256 = n div 65536 mod 256 \<and>
      str_int (m div 256 mod 256) @ CHR ''.'' # str_int (m mod 256) @ CHR ''/'' # ''32'' =
      str_int (n div 256 mod 256) @ CHR ''.'' # str_int (n mod 256) @ CHR ''/'' # ''32''"
    using conjunct2 [OF e1] by (rule str_int_sep) simp_all
  have e3: "m div 256 mod 256 = n div 256 mod 256 \<and>
      str_int (m mod 256) @ CHR ''/'' # ''32'' = str_int (n mod 256) @ CHR ''/'' # ''32''"
    using conjunct2 [OF e2] by (rule str_int_sep) simp_all
  have e4: "m mod 256 = n mod 256 \<and> ''32'' = ''32''"
    using conjunct2 [OF e3] by (rule str_int_sep) simp_all
  show "m = n"
    by (rule quad_unique [OF conjunct1 [OF e1] conjunct1 [OF e2] conjunct1 [OF e3] conjunct1 [OF e4]])
qed simp

lemma op_text_inj: "op_text p = op_text q \<longleftrightarrow> p = q"
  by (cases p; cases q) (simp_all add: op_text_def)

lemma canonical_inj: "canonical c = canonical d \<longleftrightarrow> c = d"
proof
  assume "canonical c = canonical d"
  then have "pc_address c = pc_address d" "pc_device c = pc_device d" "pc_expires c = pc_expires d"
    "pc_gateway c = pc_gateway d" "pc_generation c = pc_generation d" "pc_lease c = pc_lease d"
    "pc_operation c = pc_operation d" "pc_transport c = pc_transport d" "pc_version c = pc_version d" "pc_wg c = pc_wg d"
    unfolding canonical_def dumps_inj by (simp_all add: host_route_inj op_text_inj)
  then show "c = d" by (intro peer_command.equality) simp_all
qed simp

lemma binding_eq:
  "binding c = binding d \<longleftrightarrow> pc_address c = pc_address d \<and> pc_device c = pc_device d \<and> pc_expires c = pc_expires d \<and>
     pc_gateway c = pc_gateway d \<and> pc_lease c = pc_lease d \<and> pc_transport c = pc_transport d \<and>
     pc_version c = pc_version d \<and> pc_wg c = pc_wg d"
  unfolding binding_def dumps_inj by (auto simp: host_route_inj)

end
