(* ===== verification/Fleet_Fence.thy ===== *)
theory Fleet_Fence
  imports Fleet_Gateway
begin

text \<open>
  What the gateway's fence guarantees for any backend: the invariant of the journal, that executing any
  command keeps it, and that a recorded removal can never be overtaken by the installation it removed.
\<close>

section \<open>The invariant of the journal\<close>

definition row_ok :: "command_row \<Rightarrow> bool" where
  "row_ok r \<longleftrightarrow> valid_command (cm_command r) \<and> cm_lease r = pc_lease (cm_command r) \<and>
     cm_binding r = binding (cm_command r) \<and> cm_generation r = pc_generation (cm_command r) \<and>
     cm_address r = pc_address (cm_command r) \<and> cm_wg r = pc_wg (cm_command r) \<and>
     (cm_held r \<longleftrightarrow> pc_operation (cm_command r) = Present \<or> \<not> cm_done r)"

definition rows_ok :: "command_row list \<Rightarrow> bool" where
  "rows_ok rows \<longleftrightarrow> distinct (map cm_lease rows) \<and> (\<forall>r \<in> set rows. row_ok r) \<and>
     (\<forall>r \<in> set rows. \<forall>s \<in> set rows. cm_lease r \<noteq> cm_lease s \<longrightarrow> cm_held r \<longrightarrow> cm_held s \<longrightarrow>
        cm_address r \<noteq> cm_address s \<and> cm_wg r \<noteq> cm_wg s)"

definition fence_inv :: "fence \<Rightarrow> bool" where
  "fence_inv f \<longleftrightarrow> rows_ok (fn_commands f)"

lemma valid_command_generation: "valid_command c \<Longrightarrow> pc_generation c = (if pc_operation c = Present then 1 else 2)"
  by (simp add: valid_command_def)

lemma journal_row_SomeD: "journal_row f lid = Some r \<Longrightarrow> r \<in> set (fn_commands f) \<and> cm_lease r = lid"
  by (auto simp: journal_row_def)

lemma journal_row_None: "journal_row f lid = None \<longleftrightarrow> lid \<notin> cm_lease ` set (fn_commands f)"
  by (simp add: journal_row_def row_eq_None_key)

lemma journal_row_member:
  "rows_ok (fn_commands f) \<Longrightarrow> r \<in> set (fn_commands f) \<Longrightarrow> journal_row f (cm_lease r) = Some r"
  using row_key_unique [of cm_lease "fn_commands f" r "\<lambda>x. cm_lease x = cm_lease r"]
  by (simp add: rows_ok_def journal_row_def)

section \<open>The upsert\<close>

text \<open>The row a journaled command leaves for its lease.\<close>

definition written :: "peer_command \<Rightarrow> bool \<Rightarrow> bool \<Rightarrow> command_row \<Rightarrow> bool" where
  "written c held d r \<longleftrightarrow> cm_lease r = pc_lease c \<and> cm_binding r = binding c \<and> cm_command r = c \<and>
     cm_generation r = pc_generation c \<and> cm_address r = pc_address c \<and> cm_wg r = pc_wg c \<and> cm_held r = held \<and> cm_done r = d"

lemma upsert_command_Some:
  "upsert_command c held d rows = Some rows' \<longleftrightarrow> rows' = put_row c held d rows \<and>
     (\<forall>r \<in> set rows'. \<forall>s \<in> set rows'. cm_lease r = pc_lease c \<longrightarrow> cm_held r \<longrightarrow> cm_lease s \<noteq> pc_lease c \<longrightarrow> cm_held s \<longrightarrow>
        cm_address s \<noteq> cm_address r \<and> cm_wg s \<noteq> cm_wg r)"
  unfolding upsert_command_def Let_def by (simp add: list_ex_iff) blast

lemma put_row_distinct:
  "distinct (map cm_lease rows) \<Longrightarrow> distinct (map cm_lease (put_row c held d rows))"
  by (auto simp: put_row_def map_update_rows)

lemma put_row_set:
  assumes "rows_ok rows" and "\<And>r. r \<in> set rows \<Longrightarrow> cm_lease r = pc_lease c \<Longrightarrow> cm_binding r = binding c"
    and r: "r \<in> set (put_row c held d rows)"
  shows "if cm_lease r = pc_lease c then written c held d r else r \<in> set rows"
proof -
  have "cm_address s = pc_address c \<and> cm_wg s = pc_wg c" if "s \<in> set rows" "cm_lease s = pc_lease c" for s
    using assms(1,2) that by (auto simp: rows_ok_def row_ok_def binding_eq)
  note key = this
  show ?thesis
  proof (cases "pc_lease c \<in> cm_lease ` set rows")
    case True
    with r obtain s where s: "s \<in> set rows" "r = (if cm_lease s = pc_lease c
        then s\<lparr>cm_command := c, cm_generation := pc_generation c, cm_held := held, cm_done := d\<rparr> else s)"
      by (auto simp: put_row_def in_update_rows)
    then show ?thesis using key [OF s(1)] assms(2) [OF s(1)] by (cases "cm_lease s = pc_lease c") (simp_all add: written_def)
  next
    case False
    then have "r \<in> set rows \<Longrightarrow> cm_lease r \<noteq> pc_lease c" by (metis imageI)
    with False r show ?thesis by (auto simp: put_row_def written_def)
  qed
qed

lemma put_row_others: "s \<in> set rows \<Longrightarrow> cm_lease s \<noteq> pc_lease c \<Longrightarrow> s \<in> set (put_row c held d rows)"
  by (auto simp: put_row_def in_update_rows)

lemma put_row_written:
  assumes "rows_ok rows" and "\<And>r. r \<in> set rows \<Longrightarrow> cm_lease r = pc_lease c \<Longrightarrow> cm_binding r = binding c"
  shows "\<exists>r \<in> set (put_row c held d rows). written c held d r"
proof -
  have "map cm_lease (put_row c held d rows) =
      (if pc_lease c \<in> cm_lease ` set rows then map cm_lease rows else map cm_lease rows @ [pc_lease c])"
    by (simp add: put_row_def map_update_rows)
  then have "pc_lease c \<in> set (map cm_lease (put_row c held d rows))" by (simp only:) auto
  then obtain r where r: "r \<in> set (put_row c held d rows)" "cm_lease r = pc_lease c" by auto
  from put_row_set [OF assms r(1)] r show ?thesis by auto
qed

text \<open>The index check fails exactly when another held row owns the address or the key.\<close>

lemma upsert_command_iff:
  assumes ok: "rows_ok rows" and bind: "\<And>r. r \<in> set rows \<Longrightarrow> cm_lease r = pc_lease c \<Longrightarrow> cm_binding r = binding c"
  shows "upsert_command c held d rows = Some rows' \<longleftrightarrow> rows' = put_row c held d rows \<and>
     (held \<longrightarrow> (\<forall>s \<in> set rows. cm_lease s \<noteq> pc_lease c \<longrightarrow> cm_held s \<longrightarrow> cm_address s \<noteq> pc_address c \<and> cm_wg s \<noteq> pc_wg c))"
    (is "?L = (?E \<and> ?R)")
proof
  assume L: ?L
  then have E: ?E by (simp add: upsert_command_Some)
  obtain r where r: "r \<in> set rows'" "written c held d r" using put_row_written [OF ok bind] E by blast
  have "cm_address s \<noteq> pc_address c \<and> cm_wg s \<noteq> pc_wg c"
    if "held" "s \<in> set rows" "cm_lease s \<noteq> pc_lease c" "cm_held s" for s
    using L r put_row_others [OF that(2,3)] that E by (auto simp: upsert_command_Some written_def)
  with E show "?E \<and> ?R" by blast
next
  assume R: "?E \<and> ?R"
  have mem: "if cm_lease r = pc_lease c then written c held d r else r \<in> set rows" if "r \<in> set rows'" for r
    using put_row_set [OF ok bind] that R by blast
  have "cm_address s \<noteq> cm_address r \<and> cm_wg s \<noteq> cm_wg r"
    if "r \<in> set rows'" "s \<in> set rows'" "cm_lease r = pc_lease c" "cm_held r" "cm_lease s \<noteq> pc_lease c" "cm_held s" for r s
    using mem [OF that(1)] mem [OF that(2)] that R by (auto simp: written_def)
  with R show ?L by (auto simp: upsert_command_Some)
qed

lemma upsert_command_ok:
  assumes ok: "rows_ok rows" and bind: "\<And>r. r \<in> set rows \<Longrightarrow> cm_lease r = pc_lease c \<Longrightarrow> cm_binding r = binding c"
    and c: "valid_command c" and held: "held \<longleftrightarrow> pc_operation c = Present \<or> \<not> d"
    and up: "upsert_command c held d rows = Some rows'"
  shows "rows_ok rows'"
proof -
  have rows': "rows' = put_row c held d rows"
    and uniq: "\<And>r s. r \<in> set rows' \<Longrightarrow> s \<in> set rows' \<Longrightarrow> cm_lease r = pc_lease c \<Longrightarrow> cm_held r \<Longrightarrow> cm_lease s \<noteq> pc_lease c \<Longrightarrow>
        cm_held s \<Longrightarrow> cm_address s \<noteq> cm_address r \<and> cm_wg s \<noteq> cm_wg r"
    using up by (auto simp: upsert_command_Some)
  have mem: "if cm_lease r = pc_lease c then written c held d r else r \<in> set rows" if "r \<in> set rows'" for r
    using put_row_set [OF ok bind] that unfolding rows' by blast
  have "row_ok r" if "r \<in> set rows'" for r
    using mem [OF that] ok c held by (auto simp: written_def row_ok_def rows_ok_def split: if_splits)
  moreover have "cm_address r \<noteq> cm_address s \<and> cm_wg r \<noteq> cm_wg s"
    if rs: "r \<in> set rows'" "s \<in> set rows'" "cm_lease r \<noteq> cm_lease s" "cm_held r" "cm_held s" for r s
  proof (cases "cm_lease r = pc_lease c \<or> cm_lease s = pc_lease c")
    case True
    then show ?thesis
    proof
      assume a: "cm_lease r = pc_lease c"
      from uniq [OF rs(1,2) a rs(4) _ rs(5)] a rs(3) show ?thesis by auto
    next
      assume a: "cm_lease s = pc_lease c"
      from uniq [OF rs(2,1) a rs(5) _ rs(4)] a rs(3) show ?thesis by auto
    qed
  next
    case False
    with mem [OF rs(1)] mem [OF rs(2)] have "r \<in> set rows" "s \<in> set rows" by auto
    with ok rs show ?thesis by (simp add: rows_ok_def)
  qed
  moreover have "distinct (map cm_lease rows')" unfolding rows' by (rule put_row_distinct) (use ok in \<open>simp add: rows_ok_def\<close>)
  ultimately show ?thesis by (simp add: rows_ok_def)
qed

section \<open>Executing a command\<close>

lemma finish_put:
  "finish_command c (f\<lparr>fn_last_now := n, fn_commands := put_row c True False rows\<rparr>) =
     f\<lparr>fn_last_now := n, fn_commands := put_row c (pc_operation c = Present) True rows\<rparr>"
proof -
  have "rows' = map (\<lambda>r. if cm_lease r = pc_lease c then r\<lparr>cm_done := True, cm_held := (pc_operation c = Present)\<rparr> else r) rows'"
    if "pc_lease c \<notin> cm_lease ` set rows'" for rows'
  proof -
    have "cm_lease r \<noteq> pc_lease c" if "r \<in> set rows'" for r
      using \<open>pc_lease c \<notin> cm_lease ` set rows'\<close> that by (metis imageI)
    then show ?thesis by (intro map_idI [symmetric]) simp
  qed
  note other = this
  show ?thesis
  proof (cases "pc_lease c \<in> cm_lease ` set rows")
    case True
    then show ?thesis by (simp add: finish_command_def put_row_def update_rows_def comp_def if_distrib cong: if_cong)
  next
    case False
    then show ?thesis using other [OF False] by (simp add: finish_command_def put_row_def update_rows_def)
  qed
qed

text \<open>A row that records a finished removal.\<close>

definition removed :: "command_row \<Rightarrow> bool" where
  "removed r \<longleftrightarrow> pc_operation (cm_command r) = Absent \<and> cm_done r"

text \<open>A command that passed the checks of \<open>execute\<close> up to the journal.\<close>

definition admitted :: "gateway \<Rightarrow> int \<Rightarrow> peer_command \<Rightarrow> fence \<Rightarrow> bool" where
  "admitted g now c f \<longleftrightarrow> valid_command c \<and> bound_to g c \<and> fn_gateway f = g \<and>
     (pc_operation c = Present \<longrightarrow> now < pc_expires c) \<and>
     (\<forall>r \<in> set (fn_commands f). cm_lease r = pc_lease c \<longrightarrow> cm_binding r = binding c \<and>
        cm_generation r \<le> pc_generation c \<and> \<not> removed r)"

lemma fence_decide_Inr:
  assumes "fence_decide now restore c old = Inr b"
  shows "case old of None \<Rightarrow> \<not> b
    | Some r \<Rightarrow> cm_binding r = binding c \<and> cm_generation r \<le> pc_generation c \<and>
        (cm_generation r = pc_generation c \<longrightarrow> cm_command r = c \<and> (b \<longleftrightarrow> cm_done r \<and> \<not> (restore \<and> pc_operation c = Present))) \<and>
        (cm_generation r \<noteq> pc_generation c \<longrightarrow> \<not> b)"
    "pc_operation c = Present \<longrightarrow> now < pc_expires c"
  using assms by (auto simp: fence_decide_def canonical_inj split: option.splits if_splits)

lemma admitted_held:
  assumes "fence_inv f" "journal_row f (pc_lease c) = Some r" "fence_decide now restore c (Some r) = Inr False" "valid_command c"
  shows "pc_operation c = Present \<or> cm_held r"
proof -
  have r: "row_ok r" using assms(1) journal_row_SomeD [OF assms(2)] by (simp add: fence_inv_def rows_ok_def)
  note d = fence_decide_Inr(1) [OF assms(3), simplified]
  show ?thesis
  proof (cases "cm_generation r = pc_generation c")
    case True
    with d r show ?thesis by (auto simp: row_ok_def)
  next
    case False
    with d r valid_command_generation [of "cm_command r"] valid_command_generation [OF assms(4)] show ?thesis
      by (auto simp: row_ok_def split: if_splits)
  qed
qed

lemma execute_cases [consumes 2, case_names refused already fenced failed applied]:
  assumes "execute sha256 g be now0 now1 now2 restore c f w = (res, f', w')" and inv: "fence_inv f"
  obtains
    e where "res = Inl e" "f' = f" "w' = w"
  | r where "journal_row f (pc_lease c) = Some r" "cm_command r = c" "cm_done r" "res = Inr (receipt_of sha256 c)" "f' = f" "w' = w"
  | "admitted g now1 c f" "journal_row f (pc_lease c) = None" "pc_operation c = Absent"
      "upsert_command c False True (fn_commands f) = Some (put_row c False True (fn_commands f))"
      "f' = f\<lparr>fn_last_now := now2, fn_commands := put_row c False True (fn_commands f)\<rparr>"
      "res = Inr (receipt_of sha256 c)" "w' = w"
  | e where "admitted g now1 c f" "upsert_command c True False (fn_commands f) = Some (put_row c True False (fn_commands f))"
      "f' = f\<lparr>fn_last_now := now2, fn_commands := put_row c True False (fn_commands f)\<rparr>"
      "res = Inl e" "be_ensure be c w = (Some e, w')" "journal_row f (pc_lease c) = None \<longrightarrow> pc_operation c = Present"
  | "admitted g now1 c f" "upsert_command c True False (fn_commands f) = Some (put_row c True False (fn_commands f))"
      "f' = f\<lparr>fn_last_now := now2, fn_commands := put_row c (pc_operation c = Present) True (fn_commands f)\<rparr>"
      "res = Inr (receipt_of sha256 c)" "be_ensure be c w = (None, w')"
      "journal_row f (pc_lease c) = None \<longrightarrow> pc_operation c = Present"
proof -
  let ?old = "journal_row f (pc_lease c)"
  show thesis
  proof (cases "valid_command c \<and> bound_to g c \<and> (\<exists>u. gate g now0 f = Inr u) \<and> (\<exists>b. fence_decide now1 restore c ?old = Inr b)")
    case False
    then have "\<exists>e. res = Inl e \<and> f' = f \<and> w' = w"
      using assms(1) by (auto simp: execute_def Let_def split: if_splits sum.splits)
    then show thesis using that(1) by blast
  next
    case True
    then obtain b where v: "valid_command c" "bound_to g c" and g: "gate g now0 f = Inr ()" and b: "fence_decide now1 restore c ?old = Inr b"
      by auto
    show thesis
    proof (cases b)
      case True
      with b fence_decide_Inr [OF b] obtain r where r: "?old = Some r" "cm_command r = c" "cm_done r"
        by (auto split: option.splits)
      have "res = Inr (receipt_of sha256 c)" "f' = f" "w' = w"
        using assms(1) v g b True by (simp_all add: execute_def Let_def)
      with r show thesis by (intro that(2))
    next
      case False
      then have b': "fence_decide now1 restore c ?old = Inr False" using b by simp
      note dec = fence_decide_Inr [OF b']
      have uniq: "r = s" if "?old = Some s" "r \<in> set (fn_commands f)" "cm_lease r = pc_lease c" for r s
        using journal_row_member [of f r] inv that by (simp add: fence_inv_def)
      have adm: "admitted g now1 c f"
        unfolding admitted_def
      proof (intro conjI ballI impI)
        fix r assume r: "r \<in> set (fn_commands f)" "cm_lease r = pc_lease c"
        then have "?old = Some r" using journal_row_member [of f r] inv by (simp add: fence_inv_def)
        with dec(1) have d: "cm_binding r = binding c" "cm_generation r \<le> pc_generation c"
          "cm_generation r = pc_generation c \<longrightarrow> cm_command r = c \<and> \<not> (cm_done r \<and> \<not> (restore \<and> pc_operation c = Present))"
          by auto
        then show "cm_binding r = binding c" "cm_generation r \<le> pc_generation c" by auto
        have "row_ok r" using r inv by (simp add: fence_inv_def rows_ok_def)
        then have "cm_generation r = (if pc_operation (cm_command r) = Present then 1 else 2)"
          using valid_command_generation [of "cm_command r"] by (simp add: row_ok_def)
        moreover have "pc_generation c \<le> 2" using valid_command_generation [OF v(1)] by simp
        ultimately have "cm_generation r = pc_generation c" if "removed r"
          using d(2) that by (simp add: removed_def)
        with d(3) show "\<not> removed r" by (auto simp: removed_def)
      qed (use v g dec(2) in \<open>auto simp: gate_def\<close>)
      let ?ni = "?old = None \<and> pc_operation c = Absent"
      have held: "(pc_operation c = Present \<or> was_held ?old) = (\<not> ?ni)"
        using admitted_held [OF inv _ _ v(1)] b' by (cases "pc_operation c") (auto simp: was_held_def split: option.splits)
      have "(res, f', w') =
         (case preflight_error be c ?old w of Some e \<Rightarrow> (Inl e, f, w)
          | None \<Rightarrow> apply_command sha256 be now2 c ?ni (pc_operation c = Present \<or> was_held ?old) f w)"
        using assms(1) v g b' unfolding execute_def Let_def by simp
      then have run: "(res, f', w') = (case preflight_error be c ?old w of Some e \<Rightarrow> (Inl e, f, w)
          | None \<Rightarrow> apply_command sha256 be now2 c ?ni (\<not> ?ni) f w)" unfolding held .
      show thesis
      proof (cases "preflight_error be c ?old w = None \<and> clock_ok now2 \<and> upsert_command c (\<not> ?ni) ?ni (fn_commands f) \<noteq> None")
        case False
        with run have "\<exists>e. res = Inl e \<and> f' = f \<and> w' = w"
          by (auto simp: apply_command_def split: option.splits if_splits)
        then show thesis using that(1) by blast
      next
        case True
        then have up: "upsert_command c (\<not> ?ni) ?ni (fn_commands f) = Some (put_row c (\<not> ?ni) ?ni (fn_commands f))"
          by (auto simp: upsert_command_Some)
        show thesis
        proof (cases ?ni)
          case ni: True
          with run True up have "res = Inr (receipt_of sha256 c)" "w' = w"
            "f' = f\<lparr>fn_last_now := now2, fn_commands := put_row c False True (fn_commands f)\<rparr>" by (simp_all add: apply_command_def)
          with adm ni up show thesis by (intro that(3)) simp_all
        next
          case ni: False
          then have pres: "?old = None \<longrightarrow> pc_operation c = Present" by (cases "pc_operation c") auto
          have ni': "?ni = False" using ni by simp
          from up have up': "upsert_command c True False (fn_commands f) = Some (put_row c True False (fn_commands f))"
            unfolding ni' by simp
          from run have run': "(res, f', w') = apply_command sha256 be now2 c False True f w"
            using True unfolding ni' by simp
          obtain r w1 where e: "be_ensure be c w = (r, w1)" by fastforce
          show thesis
          proof (cases r)
            case None
            with run' True up' e have "res = Inr (receipt_of sha256 c)" "w' = w1"
              "f' = finish_command c (f\<lparr>fn_last_now := now2, fn_commands := put_row c True False (fn_commands f)\<rparr>)" by (simp_all add: apply_command_def)
            with adm up' pres e None show thesis by (intro that(5)) (simp_all add: finish_put)
          next
            case (Some x)
            with run' True up' e have "res = Inl x" "w' = w1"
              "f' = f\<lparr>fn_last_now := now2, fn_commands := put_row c True False (fn_commands f)\<rparr>" by (simp_all add: apply_command_def)
            with adm up' pres e Some show thesis by (intro that(4)) simp_all
          qed
        qed
      qed
    qed
  qed
qed

section \<open>What a step keeps\<close>

lemma admitted_binding:
  "admitted g now c f \<Longrightarrow> r \<in> set (fn_commands f) \<Longrightarrow> cm_lease r = pc_lease c \<Longrightarrow> cm_binding r = binding c"
  by (simp add: admitted_def)

lemma journal_put:
  assumes "fence_inv f" "admitted g now c f"
  shows "journal_row (f\<lparr>fn_last_now := n, fn_commands := put_row c held d (fn_commands f)\<rparr>) lid =
     (if lid = pc_lease c then Some \<lparr>cm_lease = pc_lease c, cm_binding = binding c, cm_command = c,
          cm_generation = pc_generation c, cm_address = pc_address c, cm_wg = pc_wg c, cm_held = held, cm_done = d\<rparr>
      else journal_row f lid)"
proof -
  let ?rows = "put_row c held d (fn_commands f)"
  have ok: "rows_ok (fn_commands f)" using assms(1) by (simp add: fence_inv_def)
  have dist: "distinct (map cm_lease ?rows)" using ok by (intro put_row_distinct) (simp add: rows_ok_def)
  obtain r where r: "r \<in> set ?rows" "written c held d r"
    using put_row_written [OF ok admitted_binding [OF assms(2)]] by blast
  have eq: "r = \<lparr>cm_lease = pc_lease c, cm_binding = binding c, cm_command = c,
      cm_generation = pc_generation c, cm_address = pc_address c, cm_wg = pc_wg c, cm_held = held, cm_done = d\<rparr>"
    using r(2) by (intro command_row.equality) (simp_all add: written_def)
  show ?thesis
  proof (cases "lid = pc_lease c")
    case True
    have "row (\<lambda>x. cm_lease x = cm_lease r) ?rows = Some r"
      using row_key_unique [OF dist r(1), of "\<lambda>x. cm_lease x = cm_lease r"] by simp
    then show ?thesis using True r(2) by (simp add: journal_row_def written_def eq)
  next
    case False
    have "row (\<lambda>x. cm_lease x = lid) ?rows = row (\<lambda>x. cm_lease x = lid) (fn_commands f)"
      using False by (auto simp: put_row_def row_append row_update_rows split: option.splits)
    then show ?thesis using False by (simp add: journal_row_def)
  qed
qed

lemma execute_inv:
  assumes "fence_inv f" "execute sha256 g be now0 now1 now2 restore c f w = (res, f', w')"
  shows "fence_inv f'"
  using assms(2,1)
proof (cases rule: execute_cases)
  case fenced
  have "rows_ok (put_row c False True (fn_commands f))"
    using upsert_command_ok [OF _ admitted_binding [OF fenced(1)] _ _ fenced(4)] assms(1) fenced(1,3)
    by (simp add: fence_inv_def admitted_def)
  then show ?thesis by (simp add: fenced(5) fence_inv_def)
next
  case (failed e)
  have "rows_ok (put_row c True False (fn_commands f))"
    using upsert_command_ok [OF _ admitted_binding [OF failed(1)] _ _ failed(2)] assms(1) failed(1)
    by (simp add: fence_inv_def admitted_def)
  then show ?thesis by (simp add: failed(3) fence_inv_def)
next
  case applied
  let ?p = "pc_operation c = Present"
  have ok: "rows_ok (fn_commands f)" using assms(1) by (simp add: fence_inv_def)
  have "upsert_command c ?p True (fn_commands f) = Some (put_row c ?p True (fn_commands f))"
    using applied(2) by (simp add: upsert_command_iff [OF ok admitted_binding [OF applied(1)]])
  from upsert_command_ok [OF _ admitted_binding [OF applied(1)] _ _ this] assms(1) applied(1)
  have "rows_ok (put_row c ?p True (fn_commands f))" by (simp add: fence_inv_def admitted_def)
  then show ?thesis by (simp add: applied(3) fence_inv_def)
qed (use assms in simp_all)

lemma execute_receipt:
  assumes "fence_inv f" "execute sha256 g be now0 now1 now2 restore c f w = (Inr rc, f', w')"
  shows "rc = receipt_of sha256 c \<and> (\<exists>r. journal_row f' (pc_lease c) = Some r \<and> cm_command r = c \<and> cm_done r)"
  using assms(2,1)
proof (cases rule: execute_cases)
  case fenced
  then show ?thesis by (simp add: journal_put [OF assms(1) fenced(1)])
next
  case applied
  then show ?thesis by (simp add: journal_put [OF assms(1) applied(1)])
qed auto

text \<open>Rows keep their binding, generations never decrease, and a finished removal stays as it is.\<close>

definition row_le :: "command_row \<Rightarrow> command_row \<Rightarrow> bool" where
  "row_le r r' \<longleftrightarrow> cm_binding r' = cm_binding r \<and> cm_generation r \<le> cm_generation r' \<and> (removed r \<longrightarrow> r' = r)"

definition fence_le :: "fence \<Rightarrow> fence \<Rightarrow> bool" where
  "fence_le f f' \<longleftrightarrow> fn_gateway f' = fn_gateway f \<and>
     (\<forall>lid r. journal_row f lid = Some r \<longrightarrow> (\<exists>r'. journal_row f' lid = Some r' \<and> row_le r r'))"

lemma row_le_refl [simp]: "row_le r r"
  by (simp add: row_le_def)

lemma row_le_trans: "row_le a b \<Longrightarrow> row_le b c \<Longrightarrow> row_le a c"
  by (auto simp: row_le_def)

lemma fence_le_refl [simp]: "fence_le f f"
  by (simp add: fence_le_def)

lemma fence_le_trans: "fence_le a b \<Longrightarrow> fence_le b c \<Longrightarrow> fence_le a c"
  unfolding fence_le_def using row_le_trans by (metis (no_types, lifting))

lemma put_row_le:
  assumes "fence_inv f" "admitted g now c f"
  shows "fence_le f (f\<lparr>fn_last_now := n, fn_commands := put_row c held d (fn_commands f)\<rparr>)"
  unfolding fence_le_def journal_put [OF assms]
proof (intro conjI allI impI)
  fix lid r
  assume r: "journal_row f lid = Some r"
  from journal_row_SomeD [OF r] assms(2) show "\<exists>r'. (if lid = pc_lease c then Some \<lparr>cm_lease = pc_lease c, cm_binding = binding c,
      cm_command = c, cm_generation = pc_generation c, cm_address = pc_address c, cm_wg = pc_wg c, cm_held = held,
      cm_done = d\<rparr> else journal_row f lid) = Some r' \<and> row_le r r'"
    by (auto simp: r row_le_def admitted_def)
qed simp

lemma execute_le:
  assumes "fence_inv f" "execute sha256 g be now0 now1 now2 restore c f w = (res, f', w')"
  shows "fence_le f f'"
  using assms(2,1)
proof (cases rule: execute_cases)
  case fenced
  then show ?thesis using put_row_le [OF assms(1) fenced(1)] by simp
next
  case (failed e)
  then show ?thesis using put_row_le [OF assms(1) failed(1)] by simp
next
  case applied
  then show ?thesis using put_row_le [OF assms(1) applied(1)] by simp
qed simp_all

section \<open>The fence as a machine\<close>

definition fence_init :: "gateway \<Rightarrow> fence \<Rightarrow> bool" where
  "fence_init g f \<longleftrightarrow> (\<exists>now. init_fence g now = Inr f)"

definition fence_step :: "(string \<Rightarrow> string) \<Rightarrow> 'w backend \<Rightarrow> fence \<Rightarrow> fence \<Rightarrow> bool" where
  "fence_step sha256 be f f' \<longleftrightarrow>
     (\<exists>g now0 now1 now2 restore c w res w'. execute sha256 g be now0 now1 now2 restore c f w = (res, f', w'))"

interpretation gw: progress_system "fence_init g" "fence_step sha256 be" fence_inv fence_le for g sha256 be
proof
  show "fence_inv f" if "fence_init g f" for f
    using that by (auto simp: fence_init_def init_fence_def fence_inv_def rows_ok_def)
  show "fence_inv f'" "fence_le f f'" if "fence_inv f" "fence_step sha256 be f f'" for f f'
    using that execute_inv execute_le by (auto simp: fence_step_def)
qed (auto intro: fence_le_trans)

text \<open>Recovery is a sequence of executions.\<close>

lemma restore_all_steps:
  "restore_all sha256 g be clk cs f w = (res, f', w') \<Longrightarrow> steps (fence_step sha256 be) f f'"
proof (induction cs arbitrary: clk f w res)
  case Nil
  then show ?case by (auto intro: steps_refl)
next
  case (Cons c cs)
  obtain x f1 w1 where e: "execute sha256 g be (clk 0) (clk 1) (clk 2) True c f w = (x, f1, w1)"
    by (metis surj_pair)
  then have step: "fence_step sha256 be f f1" unfolding fence_step_def by blast
  show ?case
  proof (cases x)
    case (Inl y)
    with Cons.prems e step show ?thesis by (auto intro: steps_step steps_refl)
  next
    case (Inr rc)
    with Cons.prems e obtain y where "restore_all sha256 g be (\<lambda>n. clk (n + 3)) cs f1 w1 = (y, f', w')"
      by (auto split: prod.splits sum.splits)
    from Cons.IH [OF this] have "steps (fence_step sha256 be) f1 f'" .
    with step show ?thesis by (rule steps_front)
  qed
qed

end
