(* ===== verification/Fleet_Worker.thy ===== *)
theory Fleet_Worker
  imports Fleet_Machine Fleet_Fence
begin

text \<open>
  The reconciler between the lease store and the gateways, \<open>control/fleet_worker.py\<close>, and the bounded scheduler
  over durable claims, \<open>control/fleet_scheduler.py\<close>.  An adapter carries one command to one gateway and returns its
  answer, over any type of world; \<open>None\<close> in the table of adapters is the KeyError of an unknown gateway.  \<open>clk n\<close> is
  the n-th reading of the store's clock.
\<close>

section \<open>The worker\<close>

type_synonym 'w adapter = "peer_command \<Rightarrow> 'w \<Rightarrow> (fence_error, receipt) res \<times> 'w"

definition worker_command :: "lease \<Rightarrow> string \<Rightarrow> peer_command" where
  "worker_command lease wg =
     \<lparr>pc_lease = l_id lease, pc_gateway = l_gateway lease, pc_device = l_device lease, pc_wg = wg,
      pc_address = l_address lease, pc_transport = l_transport lease, pc_version = l_version lease,
      pc_expires = l_expires lease, pc_generation = l_generation lease,
      pc_operation = (if l_state lease = Reserved then Present else Absent)\<rparr>"

text \<open>\<open>except LeaseRejected\<close>, then \<open>except Exception\<close>.\<close>

definition failure_result :: "fleet_error \<Rightarrow> string" where
  "failure_result e = (case e of LeaseRejected _ \<Rightarrow> ''state-changed'' | _ \<Rightarrow> ''retry'')"

definition settle :: "int \<Rightarrow> peer_command \<Rightarrow> fleet_db \<Rightarrow> lease fleet_res" where
  "settle now c db =
     (if pc_operation c = Present then mark_ready now (pc_lease c) (pc_generation c) db
      else confirm_removed now (pc_lease c) (pc_generation c) db)"

definition process ::
  "(string \<Rightarrow> string) \<Rightarrow> (string \<Rightarrow> 'w adapter option) \<Rightarrow> (nat \<Rightarrow> int) \<Rightarrow> lease \<Rightarrow> fleet_db \<Rightarrow> 'w \<Rightarrow>
   string \<times> fleet_db \<times> 'w" where
  "process sha256 adapters clk lease db w =
     (case work_item (clk 0) (l_id lease) (l_generation lease) db of
        Inl e \<Rightarrow> (failure_result e, db, w)
      | Inr (db1, work) \<Rightarrow>
          let c = worker_command lease (w_wg work) in
          if \<not> valid_command c then (''retry'', db1, w)
          else case adapters (l_gateway lease) of
            None \<Rightarrow> (''retry'', db1, w)
          | Some adapter \<Rightarrow>
              (case adapter c w of
                 (Inl _, w1) \<Rightarrow> (''retry'', db1, w1)
               | (Inr answer, w1) \<Rightarrow>
                   if answer \<noteq> receipt_of sha256 c then (''retry'', db1, w1)
                   else case settle (clk 1) c db1 of
                     Inl e \<Rightarrow> (failure_result e, db1, w1)
                   | Inr (db2, _) \<Rightarrow> (if pc_operation c = Present then ''ready'' else ''released'', db2, w1)))"

fun process_all ::
  "(string \<Rightarrow> string) \<Rightarrow> (string \<Rightarrow> 'w adapter option) \<Rightarrow> (nat \<Rightarrow> int) \<Rightarrow> lease list \<Rightarrow> fleet_db \<Rightarrow> 'w \<Rightarrow>
   (string \<times> string) list \<times> fleet_db \<times> 'w" where
  "process_all sha256 adapters clk [] db w = ([], db, w)"
| "process_all sha256 adapters clk (l # ls) db w =
     (case process sha256 adapters clk l db w of (r, db1, w1) \<Rightarrow>
      case process_all sha256 adapters (\<lambda>n. clk (n + 2)) ls db1 w1 of (rs, db2, w2) \<Rightarrow>
        ((l_id l, r) # rs, db2, w2))"

text \<open>\<open>FleetWorker.once\<close>; \<open>expire()\<close> runs with its default limit.\<close>

definition once ::
  "(string \<Rightarrow> string) \<Rightarrow> (string \<Rightarrow> 'w adapter option) \<Rightarrow> (nat \<Rightarrow> int) \<Rightarrow> int \<Rightarrow> fleet_db \<Rightarrow> 'w \<Rightarrow>
   (fleet_error, (string \<times> string) list) res \<times> fleet_db \<times> 'w" where
  "once sha256 adapters clk limit db w =
     (case expire (clk 0) 1000 db of
        Inl e \<Rightarrow> (Inl e, db, w)
      | Inr (db1, _) \<Rightarrow>
          (case pending (clk 1) limit db1 of
             Inl e \<Rightarrow> (Inl e, db1, w)
           | Inr (db2, ls) \<Rightarrow>
               (case process_all sha256 adapters (\<lambda>n. clk (n + 2)) ls db2 w of (rs, db3, w1) \<Rightarrow> (Inr rs, db3, w1))))"

section \<open>The scheduler\<close>

text \<open>The loop of \<open>FleetScheduler.tick\<close>: \<open>mclk n\<close> is the n-th reading of the monotonic clock, \<open>tokens n\<close> the n-th UUID.\<close>

fun tick_loop ::
  "(string \<Rightarrow> string) \<Rightarrow> (string \<Rightarrow> 'w adapter option) \<Rightarrow> (nat \<Rightarrow> int) \<Rightarrow> (nat \<Rightarrow> int) \<Rightarrow> (nat \<Rightarrow> string) \<Rightarrow> int \<Rightarrow> nat \<Rightarrow>
   fleet_db \<Rightarrow> 'w \<Rightarrow> (fleet_error, (string \<times> string) list) res \<times> fleet_db \<times> 'w" where
  "tick_loop sha256 adapters clk mclk tokens deadline 0 db w = (Inr [], db, w)"
| "tick_loop sha256 adapters clk mclk tokens deadline (Suc n) db w =
     (if deadline \<le> mclk 0 then (Inr [], db, w)
      else case claim_work (clk 0) (tokens 0) 60 db of
        Inl e \<Rightarrow> (Inl e, db, w)
      | Inr (db1, None) \<Rightarrow> (Inr [], db1, w)
      | Inr (db1, Some (lease, token)) \<Rightarrow>
          (case process sha256 adapters (\<lambda>n. clk (n + 1)) lease db1 w of (r, db2, w1) \<Rightarrow>
           case finish_work (clk 3) lease token r db2 of
             Inl e \<Rightarrow> (Inl e, db2, w1)
           | Inr (db3, _) \<Rightarrow>
               (case tick_loop sha256 adapters (\<lambda>n. clk (n + 4)) (\<lambda>n. mclk (n + 1)) (\<lambda>n. tokens (n + 1)) deadline n db3 w1 of
                  (Inl e, db4, w2) \<Rightarrow> (Inl e, db4, w2)
                | (Inr rs, db4, w2) \<Rightarrow> (Inr ((l_id lease, r) # rs), db4, w2))))"

definition tick ::
  "(string \<Rightarrow> string) \<Rightarrow> (string \<Rightarrow> 'w adapter option) \<Rightarrow> (nat \<Rightarrow> int) \<Rightarrow> (nat \<Rightarrow> int) \<Rightarrow> (nat \<Rightarrow> string) \<Rightarrow> int \<Rightarrow> int \<Rightarrow>
   fleet_db \<Rightarrow> 'w \<Rightarrow> (fleet_error, (string \<times> string) list) res \<times> fleet_db \<times> 'w" where
  "tick sha256 adapters clk mclk tokens limit budget db w =
     (case bind_res (positive limit 100) (\<lambda>_. positive budget 300) of
        Inl e \<Rightarrow> (Inl e, db, w)
      | Inr _ \<Rightarrow>
          (case expire (clk 0) 100 db of
             Inl e \<Rightarrow> (Inl e, db, w)
           | Inr (db1, _) \<Rightarrow>
               tick_loop sha256 adapters (\<lambda>n. clk (n + 1)) (\<lambda>n. mclk (n + 1)) tokens (mclk 0 + budget) (nat limit) db1 w))"

section \<open>The adapter of a fenced gateway\<close>

text \<open>A gateway reached over a connection that may lose the answer: the command runs in any case.\<close>

definition fenced_adapter ::
  "(string \<Rightarrow> string) \<Rightarrow> gateway \<Rightarrow> 'w backend \<Rightarrow> int \<Rightarrow> int \<Rightarrow> int \<Rightarrow> bool \<Rightarrow> (fence \<times> 'w) adapter" where
  "fenced_adapter sha256 g be now0 now1 now2 lost c = (\<lambda>(f, w).
     case execute sha256 g be now0 now1 now2 False c f w of (r, f1, w1) \<Rightarrow>
       (if lost then Inl (BackendFailed ''lost'') else r, (f1, w1)))"

section \<open>Every pass is a sequence of store calls\<close>

lemma commit_Inr [simp]: "commit db (Inr (db', x)) = db'"
  by (simp add: commit_def)

lemma process_sound:
  assumes "process sha256 adapters clk lease db w = (r, db', w')"
  shows "steps (fleet_step env v) db db'"
proof -
  have one: "fleet_step env v d (fleet_exec env v d p)" for d p by (auto simp: fleet_step_def)
  have item: "fleet_step env v d d'" if "work_item now lid gen d = Inr (d', x)" for d d' now lid gen x
    using one [of d "WorkItem now lid gen"] that by simp
  have settled: "fleet_step env v d d'" if "settle now c d = Inr (d', x)" for d d' now c x
    using one [of d "MarkReady now (pc_lease c) (pc_generation c)"]
      one [of d "ConfirmRemoved now (pc_lease c) (pc_generation c)"] that
    by (auto simp: settle_def split: if_splits)
  have two: "steps (fleet_step env v) d d''"
    if "work_item now lid gen d = Inr (d', x)" "settle now' c d' = Inr (d'', y)" for d d' d'' now now' lid gen c x y
    by (rule steps_step, rule step_steps, rule item [OF that(1)], rule settled [OF that(2)])
  have single: "steps (fleet_step env v) d d'" if "work_item now lid gen d = Inr (d', x)" for d d' now lid gen x
    by (rule step_steps, rule item [OF that])
  from assms show ?thesis
    by (auto simp: process_def Let_def split: sum.splits prod.splits option.splits if_splits
        intro: steps_refl single two)
qed

lemma exec_steps: "commit db r = fleet_exec env v db p \<Longrightarrow> r = Inr (db', x) \<Longrightarrow> steps (fleet_step env v) db db'"
  by (rule step_steps) (auto simp: fleet_step_def)

lemma process_all_sound:
  "process_all sha256 adapters clk ls db w = (rs, db', w') \<Longrightarrow> steps (fleet_step env v) db db'"
proof (induction ls arbitrary: clk db w rs db' w')
  case Nil
  then show ?case by (auto intro: steps_refl)
next
  case (Cons l ls)
  obtain r db1 w1 where p: "process sha256 adapters clk l db w = (r, db1, w1)" by (metis surj_pair)
  obtain rs' db2 w2 where q: "process_all sha256 adapters (\<lambda>n. clk (n + 2)) ls db1 w1 = (rs', db2, w2)" by (metis surj_pair)
  from Cons.prems p q have "db2 = db'" by simp
  with steps_trans [OF process_sound [OF p] Cons.IH [OF q]] show ?case by simp
qed

lemma once_sound:
  assumes "once sha256 adapters clk limit db w = (res, db', w')"
  shows "steps (fleet_step env v) db db'"
proof (cases "expire (clk 0) 1000 db")
  case (Inl e)
  with assms show ?thesis by (auto simp: once_def intro: steps_refl)
next
  case (Inr x)
  then obtain db1 ls1 where e: "expire (clk 0) 1000 db = Inr (db1, ls1)" by (cases x) simp
  have s1: "steps (fleet_step env v) db db1" by (rule exec_steps [of _ _ _ _ "Expire (clk 0) 1000", OF _ e]) simp
  show ?thesis
  proof (cases "pending (clk 1) limit db1")
    case (Inl e')
    with assms e s1 show ?thesis by (auto simp: once_def)
  next
    case (Inr y)
    then obtain db2 ls where p: "pending (clk 1) limit db1 = Inr (db2, ls)" by (cases y) simp
    have s2: "steps (fleet_step env v) db1 db2" by (rule exec_steps [of _ _ _ _ "Pending (clk 1) limit", OF _ p]) simp
    obtain rs db3 w1 where q: "process_all sha256 adapters (\<lambda>n. clk (n + 2)) ls db2 w = (rs, db3, w1)" by (metis surj_pair)
    from assms e p q have "db3 = db'" by (simp add: once_def)
    with steps_trans [OF steps_trans [OF s1 s2] process_all_sound [OF q]] show ?thesis by simp
  qed
qed

lemma tick_loop_sound:
  "tick_loop sha256 adapters clk mclk tokens deadline n db w = (res, db', w') \<Longrightarrow> steps (fleet_step env v) db db'"
proof (induction n arbitrary: clk mclk tokens db w res db' w')
  case 0
  then show ?case by (auto intro: steps_refl)
next
  case (Suc n)
  show ?case
  proof (cases "deadline \<le> mclk 0 \<or> (\<exists>e. claim_work (clk 0) (tokens 0) 60 db = Inl e)")
    case True
    with Suc.prems show ?thesis by (auto intro: steps_refl split: if_splits)
  next
    case False
    then obtain db1 c where c: "claim_work (clk 0) (tokens 0) 60 db = Inr (db1, c)"
      by (cases "claim_work (clk 0) (tokens 0) 60 db") auto
    have s1: "steps (fleet_step env v) db db1" by (rule exec_steps [of _ _ _ _ "ClaimWork (clk 0) (tokens 0) 60", OF _ c]) simp
    show ?thesis
    proof (cases c)
      case None
      with Suc.prems c False s1 show ?thesis by auto
    next
      case (Some lt)
      then obtain lease token where lt: "c = Some (lease, token)" by (cases lt) simp
      obtain r db2 w1 where p: "process sha256 adapters (\<lambda>n. clk (n + 1)) lease db1 w = (r, db2, w1)" by (metis surj_pair)
      have s2: "steps (fleet_step env v) db db2" by (rule steps_trans [OF s1 process_sound [OF p]])
      show ?thesis
      proof (cases "finish_work (clk 3) lease token r db2")
        case (Inl e)
        with Suc.prems c False lt p s2 show ?thesis by auto
      next
        case (Inr y)
        then obtain db3 b where f: "finish_work (clk 3) lease token r db2 = Inr (db3, b)" by (cases y) simp
        have s3: "steps (fleet_step env v) db db3"
          by (rule steps_trans [OF s2 exec_steps [of _ _ _ _ "FinishWork (clk 3) lease token r", OF _ f]]) simp
        obtain rest db4 w2 where q: "tick_loop sha256 adapters (\<lambda>n. clk (n + 4)) (\<lambda>n. mclk (n + 1)) (\<lambda>n. tokens (n + 1)) deadline n db3 w1 =
            (rest, db4, w2)" by (metis surj_pair)
        from Suc.prems c False lt p f q have "db4 = db'" by (auto split: sum.splits)
        with steps_trans [OF s3 Suc.IH [OF q]] show ?thesis by simp
      qed
    qed
  qed
qed

lemma tick_sound:
  assumes "tick sha256 adapters clk mclk tokens limit budget db w = (res, db', w')"
  shows "steps (fleet_step env v) db db'"
proof (cases "(\<exists>e. bind_res (positive limit 100) (\<lambda>_. positive budget 300) = Inl e) \<or> (\<exists>e. expire (clk 0) 100 db = Inl e)")
  case True
  with assms show ?thesis by (auto simp: tick_def split: sum.splits intro: steps_refl)
next
  case False
  then obtain db1 ls where e: "expire (clk 0) 100 db = Inr (db1, ls)" by (cases "expire (clk 0) 100 db") auto
  have s1: "steps (fleet_step env v) db db1" by (rule exec_steps [of _ _ _ _ "Expire (clk 0) 100", OF _ e]) simp
  from assms e False have "tick_loop sha256 adapters (\<lambda>n. clk (n + 1)) (\<lambda>n. mclk (n + 1)) tokens (mclk 0 + budget) (nat limit) db1 w =
      (res, db', w')" by (auto simp: tick_def split: sum.splits)
  from steps_trans [OF s1 tick_loop_sound [OF this]] show ?thesis .
qed

end
