(* ===== verification/Fleet_System.thy ===== *)
theory Fleet_System
  imports Fleet_Worker
begin

text \<open>
  The lease store, its workers and the fenced gateways together.  Workers crash, connections lose and repeat
  messages, and several workers may run at once, so a command that was ever issued may reach its gateway at
  any later time and any number of times, and an answer may be settled at any later time.  The state keeps
  the commands issued and the commands a gateway answered with their receipt.
\<close>

section \<open>The composed system\<close>

record 'w fleet_sys =
  sy_db :: fleet_db
  sy_fence :: "string \<Rightarrow> fence"
  sy_world :: "string \<Rightarrow> 'w"
  sy_sent :: "peer_command set"
  sy_acked :: "peer_command set"

text \<open>Only the worker settles a lease, and only against a receipt.\<close>

fun client_op :: "fleet_op \<Rightarrow> bool" where
  "client_op (MarkReady _ _ _) = False"
| "client_op (ConfirmRemoved _ _ _) = False"
| "client_op _ = True"

inductive sys_step ::
  "fleet_env \<Rightarrow> (string \<Rightarrow> string \<Rightarrow> string \<Rightarrow> bool) \<Rightarrow> 'w backend \<Rightarrow> 'w fleet_sys \<Rightarrow> 'w fleet_sys \<Rightarrow> bool" for env v be where
  store: "client_op p \<Longrightarrow> sys_step env v be s (s\<lparr>sy_db := fleet_exec env v (sy_db s) p\<rparr>)"
| issue: "work_item now lid gen (sy_db s) = Inr (db', work) \<Longrightarrow> c = worker_command (w_lease work) (w_wg work) \<Longrightarrow>
     valid_command c \<Longrightarrow> sys_step env v be s (s\<lparr>sy_db := db', sy_sent := insert c (sy_sent s)\<rparr>)"
| deliver: "c \<in> sy_sent s \<Longrightarrow> gid = pc_gateway c \<Longrightarrow>
     execute (env_sha256 env) g be now0 now1 now2 restore c (sy_fence s gid) (sy_world s gid) = (res, f', w') \<Longrightarrow>
     sys_step env v be s (s\<lparr>sy_fence := (sy_fence s)(gid := f'), sy_world := (sy_world s)(gid := w'),
       sy_acked := (if res = Inr (receipt_of (env_sha256 env) c) then insert c (sy_acked s) else sy_acked s)\<rparr>)"
| acknowledge: "c \<in> sy_acked s \<Longrightarrow> sys_step env v be s (s\<lparr>sy_db := commit (sy_db s) (settle now c (sy_db s))\<rparr>)"

definition sys_init :: "fleet_env \<Rightarrow> 'w fleet_sys \<Rightarrow> bool" where
  "sys_init env s \<longleftrightarrow> fleet_init env (sy_db s) \<and> (\<forall>gid. \<exists>g. fence_init g (sy_fence s gid)) \<and>
     sy_sent s = {} \<and> sy_acked s = {}"

section \<open>The invariant\<close>

text \<open>A command names a lease of the store with all its immutable fields and its device's key.\<close>

definition command_of :: "fleet_db \<Rightarrow> peer_command \<Rightarrow> lease \<Rightarrow> bool" where
  "command_of db c l \<longleftrightarrow> l \<in> set (db_leases db) \<and> pc_lease c = l_id l \<and> pc_gateway c = l_gateway l \<and> pc_device c = l_device l \<and>
     pc_address c = l_address l \<and> pc_transport c = l_transport l \<and> pc_version c = l_version l \<and>
     pc_expires c = l_expires l \<and> pc_generation c \<le> l_generation l \<and>
     (\<exists>a. access_of db (l_device l) = Some a \<and> a_wg a = pc_wg c)"

definition sys_inv :: "'w fleet_sys \<Rightarrow> bool" where
  "sys_inv s \<longleftrightarrow> store_inv (sy_db s) \<and> (\<forall>gid. fence_inv (sy_fence s gid)) \<and>
     (\<forall>c \<in> sy_sent s. valid_command c \<and> (\<exists>l. command_of (sy_db s) c l)) \<and>
     (\<forall>gid. \<forall>r \<in> set (fn_commands (sy_fence s gid)). cm_command r \<in> sy_sent s \<and> pc_gateway (cm_command r) = gid) \<and>
     (\<forall>c \<in> sy_acked s. c \<in> sy_sent s \<and> (pc_operation c = Absent \<longrightarrow>
        (\<exists>r. journal_row (sy_fence s (pc_gateway c)) (pc_lease c) = Some r \<and> removed r))) \<and>
     (\<forall>l \<in> set (db_leases (sy_db s)). l_state l = Released \<longrightarrow>
        (\<exists>r. journal_row (sy_fence s (l_gateway l)) (l_id l) = Some r \<and> removed r))"

lemma access_of_grows:
  assumes "grows db db'" "fleet_inv db'" "access_of db d = Some a"
  shows "\<exists>a'. access_of db' d = Some a' \<and> a_wg a' = a_wg a"
proof -
  from assms(3) have "a \<in> set (db_access db)" "a_device a = d" by (auto simp: access_of_def)
  with assms(1) obtain a' where a': "a' \<in> set (db_access db')" "a_device a' = d" "a_wg a' = a_wg a"
    unfolding grows_def access_le_def by blast
  have "distinct (map a_device (db_access db'))" using assms(2) by (simp add: fleet_inv_def tables_ok_def)
  with row_member [OF a'(1)] a' show ?thesis by (auto simp: access_of_def)
qed

lemma lease_grows:
  assumes "grows db db'" "l \<in> set (db_leases db)"
  shows "\<exists>l' \<in> set (db_leases db'). lease_advance l l'"
  using assms unfolding grows_def leases_le_def by fastforce

lemma command_of_grows:
  assumes "grows db db'" "fleet_inv db'" "command_of db c l"
  shows "\<exists>l'. command_of db' c l'"
proof -
  from assms(3) have l: "l \<in> set (db_leases db)" by (simp add: command_of_def)
  from lease_grows [OF assms(1) l] obtain l' where l': "l' \<in> set (db_leases db')" "lease_advance l l'" by blast
  from assms(3) obtain a where a: "access_of db (l_device l) = Some a" "a_wg a = pc_wg c" by (auto simp: command_of_def)
  from access_of_grows [OF assms(1,2) a(1)] a(2) have "\<exists>a'. access_of db' (l_device l) = Some a' \<and> a_wg a' = pc_wg c" by simp
  moreover have "l_generation l \<le> l_generation l'" using l'(2) by (simp add: lease_advance_def)
  ultimately have "command_of db' c l'"
    using assms(3) l' by (auto simp: command_of_def lease_advance_keys [OF l'(2)])
  then show ?thesis ..
qed

lemma released_iff: "(i, g) \<in> released ls \<longleftrightarrow> (\<exists>l \<in> set ls. l_id l = i \<and> l_gateway l = g \<and> l_state l = Released)"
  by (auto simp: released_def)

text \<open>The parts of the invariant that speak of the store, under a change of the store alone.\<close>

lemma sys_inv_store:
  assumes inv: "sys_inv s" and kept: "kept (sy_db s) db'"
    and rel: "\<And>l'. l' \<in> set (db_leases db') \<Longrightarrow> l_state l' = Released \<Longrightarrow> (l_id l', l_gateway l') \<notin> released (db_leases (sy_db s)) \<Longrightarrow>
      \<exists>r. journal_row (sy_fence s (l_gateway l')) (l_id l') = Some r \<and> removed r"
  shows "sys_inv (s\<lparr>sy_db := db'\<rparr>)"
proof -
  have si: "store_inv (sy_db s)" using inv by (simp add: sys_inv_def)
  then have si': "store_inv db'" and g: "grows (sy_db s) db'" using kept by (auto simp: kept_def store_inv_def)
  have fi': "fleet_inv db'" using si' by (simp add: store_inv_def)
  have "\<exists>l. command_of db' c l" if "c \<in> sy_sent s" for c
    using inv that command_of_grows [OF g fi'] by (auto simp: sys_inv_def)
  moreover have "\<exists>r. journal_row (sy_fence s (l_gateway l')) (l_id l') = Some r \<and> removed r"
    if l': "l' \<in> set (db_leases db')" "l_state l' = Released" for l'
  proof (cases "(l_id l', l_gateway l') \<in> released (db_leases (sy_db s))")
    case True
    then obtain l where "l \<in> set (db_leases (sy_db s))" "l_id l = l_id l'" "l_gateway l = l_gateway l'" "l_state l = Released"
      by (auto simp: released_iff)
    with inv show ?thesis unfolding sys_inv_def by metis
  next
    case False
    with rel l' show ?thesis by blast
  qed
  ultimately show ?thesis using inv si' by (simp add: sys_inv_def)
qed

lemma sys_inv_sound:
  assumes "sys_inv s" "sound (sy_db s) db'"
  shows "sys_inv (s\<lparr>sy_db := db'\<rparr>)"
proof (rule sys_inv_store [OF assms(1)])
  show "kept (sy_db s) db'" using assms(2) by (simp add: sound_def)
  fix l'
  assume l': "l' \<in> set (db_leases db')" "l_state l' = Released" and no: "(l_id l', l_gateway l') \<notin> released (db_leases (sy_db s))"
  have "released (db_leases db') \<subseteq> released (db_leases (sy_db s))"
    using assms by (simp add: sound_def sys_inv_def store_inv_def)
  moreover have "(l_id l', l_gateway l') \<in> released (db_leases db')" using l' by (auto simp: released_iff)
  ultimately have False using no by blast
  then show "\<exists>r. journal_row (sy_fence s (l_gateway l')) (l_id l') = Some r \<and> removed r" ..
qed

lemma sys_inv_issue:
  assumes inv: "sys_inv s" and w: "work_item now lid gen (sy_db s) = Inr (db', work)" and v: "valid_command c"
    and c: "c = worker_command (w_lease work) (w_wg work)"
  shows "sys_inv (s\<lparr>sy_db := db', sy_sent := insert c (sy_sent s)\<rparr>)"
proof -
  have inv': "sys_inv (s\<lparr>sy_db := db'\<rparr>)" using sys_inv_sound [OF inv reads_sound(3) [OF w]] .
  from w obtain a where "w_lease work \<in> set (db_leases db')" "access_of db' (l_device (w_lease work)) = Some a" "a_wg a = w_wg work"
    by (auto simp: work_item_def transaction_Inr_iff access_of_def dest!: lease_rowD)
  then have "command_of db' c (w_lease work)" by (simp add: c command_of_def worker_command_def)
  with inv' v show ?thesis by (auto simp: sys_inv_def)
qed

lemma execute_rows:
  assumes "fence_inv f" "execute sha256 g be now0 now1 now2 restore c f w = (res, f', w')" "r \<in> set (fn_commands f')"
  shows "r \<in> set (fn_commands f) \<or> cm_command r = c"
proof -
  have ok: "rows_ok (fn_commands f)" using assms(1) by (simp add: fence_inv_def)
  have put: "r \<in> set (fn_commands f) \<or> cm_command r = c"
    if "admitted g now1 c f" "r \<in> set (put_row c held d (fn_commands f))" for held d
    using put_row_set [OF ok admitted_binding [OF that(1)] that(2)] by (auto simp: written_def split: if_splits)
  from assms(2,1) show ?thesis
  proof (cases rule: execute_cases)
    case fenced
    with put [of False True] assms(3) show ?thesis by simp
  next
    case (failed e)
    with put [of True False] assms(3) show ?thesis by simp
  next
    case applied
    with put [of "pc_operation c = Present" True] assms(3) show ?thesis by simp
  qed (use assms(3) in simp_all)
qed

lemma removed_stays:
  "fence_le f f' \<Longrightarrow> journal_row f lid = Some r \<Longrightarrow> removed r \<Longrightarrow> \<exists>r'. journal_row f' lid = Some r' \<and> removed r'"
  unfolding fence_le_def row_le_def by metis

lemma sys_inv_deliver:
  assumes inv: "sys_inv s" and c: "c \<in> sy_sent s" and gid: "gid = pc_gateway c"
    and ex: "execute sha256 g be now0 now1 now2 restore c (sy_fence s gid) (sy_world s gid) = (res, f', w')"
    and ack: "ack = (if res = Inr (receipt_of sha256 c) then insert c (sy_acked s) else sy_acked s)"
  shows "sys_inv (s\<lparr>sy_fence := (sy_fence s)(gid := f'), sy_world := (sy_world s)(gid := w'), sy_acked := ack\<rparr>)"
proof -
  let ?F = "(sy_fence s)(gid := f')"
  have fi: "fence_inv (sy_fence s gid)" using inv by (simp add: sys_inv_def)
  have fi': "fence_inv f'" by (rule execute_inv [OF fi ex])
  have le: "fence_le (sy_fence s x) (?F x)" for x using execute_le [OF fi ex] by simp
  have stay: "\<exists>r. journal_row (?F x) lid = Some r \<and> removed r"
    if "\<exists>r. journal_row (sy_fence s x) lid = Some r \<and> removed r" for x lid
    using that removed_stays [OF le] by blast
  have rows: "cm_command r \<in> sy_sent s \<and> pc_gateway (cm_command r) = x" if "r \<in> set (fn_commands (?F x))" for r x
  proof (cases "x = gid")
    case True
    with that execute_rows [OF fi ex, of r] inv c gid show ?thesis by (auto simp: sys_inv_def)
  next
    case False
    with that inv show ?thesis by (simp add: sys_inv_def)
  qed
  have acked: "d \<in> sy_sent s \<and> (pc_operation d = Absent \<longrightarrow> (\<exists>r. journal_row (?F (pc_gateway d)) (pc_lease d) = Some r \<and> removed r))"
    if "d \<in> ack" for d
  proof (cases "d \<in> sy_acked s")
    case True
    with inv stay show ?thesis by (auto simp: sys_inv_def)
  next
    case False
    with that ack have d: "d = c" "res = Inr (receipt_of sha256 c)" by (auto split: if_splits)
    from execute_receipt [OF fi, of sha256 g be now0 now1 now2 restore c "sy_world s gid"] ex d(2) obtain r where
      "journal_row f' (pc_lease c) = Some r" "cm_command r = c" "cm_done r" by auto
    then show ?thesis using d(1) c gid by (auto simp: removed_def)
  qed
  from inv fi' rows acked stay show ?thesis by (simp add: sys_inv_def)
qed

lemma confirm_removed_released:
  assumes "confirm_removed now lid gen db = Inr (db', l)" "l' \<in> set (db_leases db')" "l_state l' = Released" "l_id l' \<noteq> lid"
  shows "(l_id l', l_gateway l') \<in> released (db_leases db)"
  using assms by (auto simp: confirm_removed_def transaction_Inr_iff Let_def released_iff add_event_def set_state_def in_update_rows
      split: if_splits)

lemma sys_inv_acknowledge:
  assumes inv: "sys_inv s" and c: "c \<in> sy_acked s"
  shows "sys_inv (s\<lparr>sy_db := commit (sy_db s) (settle now c (sy_db s))\<rparr>)"
proof (cases "settle now c (sy_db s)")
  case (Inl e)
  then show ?thesis using inv by (simp add: commit_def)
next
  case (Inr x)
  then obtain db' l where r: "settle now c (sy_db s) = Inr (db', l)" by (cases x) simp
  show ?thesis
  proof (cases "pc_operation c")
    case Present
    with r mark_ready_sound show ?thesis by (auto simp: settle_def intro!: sys_inv_sound [OF inv])
  next
    case Absent
    then have cr: "confirm_removed now (pc_lease c) (pc_generation c) (sy_db s) = Inr (db', l)" using r by (simp add: settle_def)
    have kept: "kept (sy_db s) db'" by (rule confirm_removed_kept [OF cr])
    then have fi': "fleet_inv db'" and g: "grows (sy_db s) db'" using inv by (auto simp: kept_def sys_inv_def store_inv_def)
    from inv c Absent obtain row where row: "journal_row (sy_fence s (pc_gateway c)) (pc_lease c) = Some row" "removed row"
      and sent: "c \<in> sy_sent s" by (auto simp: sys_inv_def)
    from inv sent obtain m where "command_of (sy_db s) c m" by (auto simp: sys_inv_def)
    from command_of_grows [OF g fi' this] obtain m' where m': "m' \<in> set (db_leases db')" "l_id m' = pc_lease c" "l_gateway m' = pc_gateway c"
      by (auto simp: command_of_def)
    have "sys_inv (s\<lparr>sy_db := db'\<rparr>)"
    proof (rule sys_inv_store [OF inv kept])
      fix l'
      assume l': "l' \<in> set (db_leases db')" "l_state l' = Released" and no: "(l_id l', l_gateway l') \<notin> released (db_leases (sy_db s))"
      have id: "l_id l' = pc_lease c" using confirm_removed_released [OF cr l'] no by blast
      have "l' = m'" using fleet_inv_distinct [OF fi'] l'(1) m'(1,2) id by (auto simp: distinct_map inj_on_def)
      with row m' show "\<exists>r. journal_row (sy_fence s (l_gateway l')) (l_id l') = Some r \<and> removed r" by simp
    qed
    then show ?thesis by (simp add: r)
  qed
qed

lemma sys_step_inv:
  assumes "sys_inv s" "sys_step env v be s t"
  shows "sys_inv t"
  using assms(2,1)
proof (cases rule: sys_step.cases)
  case (store p)
  have "\<And>now lid gen. p \<noteq> ConfirmRemoved now lid gen" using store(2) by auto
  from sys_inv_sound [OF assms(1) fleet_exec_sound [OF this]] show ?thesis unfolding store(1) .
next
  case (issue now lid gen db' work c)
  from sys_inv_issue [OF assms(1) issue(2) issue(4) issue(3)] show ?thesis unfolding issue(1) .
next
  case (deliver c gid g now0 now1 now2 restore res f' w')
  from sys_inv_deliver [OF assms(1) deliver(2,3,4) refl] show ?thesis unfolding deliver(1) .
next
  case (acknowledge c now)
  from sys_inv_acknowledge [OF assms(1) acknowledge(2)] show ?thesis unfolding acknowledge(1) .
qed

lemma initialize_leases: "initialize env now r = Inr db \<Longrightarrow> db_leases db = []"
  by (auto simp: initialize_def add_event_def empty_db_def)

lemma access_of_SomeD: "access_of db d = Some a \<Longrightarrow> a \<in> set (db_access db) \<and> a_device a = d"
  by (auto simp: access_of_def)

interpretation fsys: invariant_system "sys_init env" "sys_step env v be" sys_inv for env v be
proof
  show "sys_inv s" if "sys_init env s" for s :: "'a fleet_sys"
  proof -
    from that have db: "fleet_init env (sy_db s)" and f: "\<And>gid. \<exists>g. fence_init g (sy_fence s gid)"
      and e: "sy_sent s = {}" "sy_acked s = {}" by (auto simp: sys_init_def)
    have rows: "fn_commands (sy_fence s gid) = []" for gid
    proof -
      obtain g now where "init_fence g now = Inr (sy_fence s gid)" using f [of gid] unfolding fence_init_def by blast
      then have "sy_fence s gid = \<lparr>fn_schema = 1, fn_gateway = g, fn_last_now = now, fn_commands = []\<rparr>"
        by (auto simp: init_fence_def)
      then show ?thesis by simp
    qed
    have "store_inv (sy_db s)" using db by (rule fleet.inv_init)
    moreover have "db_leases (sy_db s) = []"
      using db initialize_leases by (auto simp: fleet_init_def)
    ultimately show ?thesis by (simp add: sys_inv_def e rows fence_inv_def rows_ok_def)
  qed
qed (rule sys_step_inv)

section \<open>Guarantees of the composition\<close>

lemma sys_inv_held:
  assumes inv: "sys_inv s" and r: "r \<in> set (fn_commands (sy_fence s gid))" "cm_held r"
  shows "\<exists>l. command_of (sy_db s) (cm_command r) l \<and> live l \<and> l_id l = cm_lease r \<and> l_gateway l = gid \<and> l_address l = cm_address r"
proof -
  have fi: "fence_inv (sy_fence s gid)" and sent: "cm_command r \<in> sy_sent s" "pc_gateway (cm_command r) = gid"
    using inv r by (auto simp: sys_inv_def)
  have rok: "row_ok r" using fi r by (simp add: fence_inv_def rows_ok_def)
  from inv sent(1) obtain l where l: "command_of (sy_db s) (cm_command r) l" by (auto simp: sys_inv_def)
  have keys: "l_id l = cm_lease r" "l_gateway l = gid" "l_address l = cm_address r" "l \<in> set (db_leases (sy_db s))"
    using l rok sent(2) by (auto simp: command_of_def row_ok_def)
  have "live l"
  proof (rule ccontr)
    assume "\<not> live l"
    then obtain r' where r': "journal_row (sy_fence s gid) (cm_lease r) = Some r'" "removed r'"
      using inv keys unfolding sys_inv_def by (metis live_def)
    have "r' = r" using journal_row_member [of "sy_fence s gid" r] fi r(1) r'(1) by (simp add: fence_inv_def)
    with r'(2) r(2) rok show False by (simp add: row_ok_def removed_def)
  qed
  with l keys show ?thesis by blast
qed

text \<open>C4. Whatever messages are lost, repeated, reordered or answered late: a peer that a gateway may still have installed
  belongs to a lease of that gateway, with that address, that the store has not released. An address can be
  given to a new lease only after its old peer is gone.\<close>

theorem held_peers_belong_to_live_leases:
  assumes "reach (sys_init env) (sys_step env v be) s"
    and "r \<in> set (fn_commands (sy_fence s gid))" and "cm_held r"
  shows "\<exists>l \<in> set (db_leases (sy_db s)). l_id l = cm_lease r \<and> l_gateway l = gid \<and> l_address l = cm_address r \<and> live l"
proof -
  have "sys_inv s" using assms(1) by (rule fsys.reach_inv)
  from sys_inv_held [OF this assms(2,3)] show ?thesis by (auto simp: command_of_def)
qed

lemma command_of_unique:
  assumes "store_inv db" "command_of db c l" "command_of db d m" "pc_lease c = pc_lease d"
  shows "l = m"
  using assms fleet_inv_distinct [of db] by (auto simp: command_of_def store_inv_def distinct_map inj_on_def)

lemma command_of_binding:
  assumes "store_inv db" "command_of db c l" "command_of db d m" "pc_lease c = pc_lease d"
  shows "binding c = binding d"
  using assms command_of_unique [OF assms] by (auto simp: binding_eq command_of_def)

text \<open>C5. The unique indexes of a gateway's journal never refuse a command for a lease the store has not released:
  neither its address nor its key is held by the row of another lease.\<close>

theorem journal_never_refuses_live_lease:
  assumes "reach (sys_init env) (sys_step env v be) s" and "c \<in> sy_sent s"
    and "l \<in> set (db_leases (sy_db s))" and "l_id l = pc_lease c" and "live l"
  shows "upsert_command c held d (fn_commands (sy_fence s (pc_gateway c))) =
     Some (put_row c held d (fn_commands (sy_fence s (pc_gateway c))))"
proof -
  let ?f = "sy_fence s (pc_gateway c)"
  have inv: "sys_inv s" using assms(1) by (rule fsys.reach_inv)
  then have st: "store_inv (sy_db s)" and fi: "fence_inv ?f" by (auto simp: sys_inv_def)
  then have finv: "fleet_inv (sy_db s)" and keys: "keys_unique (sy_db s)" by (auto simp: store_inv_def)
  from inv assms(2) obtain m where m: "command_of (sy_db s) c m" by (auto simp: sys_inv_def)
  have "m = l" using fleet_inv_distinct [OF finv] m assms(3,4) by (auto simp: command_of_def distinct_map inj_on_def)
  with m have cl: "command_of (sy_db s) c l" by simp
  have row_cmd: "\<exists>x. command_of (sy_db s) (cm_command r) x" "row_ok r" if "r \<in> set (fn_commands ?f)" for r
    using inv fi that by (auto simp: sys_inv_def fence_inv_def rows_ok_def)
  have bind: "cm_binding r = binding c" if r: "r \<in> set (fn_commands ?f)" "cm_lease r = pc_lease c" for r
    using row_cmd [OF r(1)] command_of_binding [OF st _ cl] r(2) by (auto simp: row_ok_def)
  have other: "cm_address r \<noteq> pc_address c \<and> cm_wg r \<noteq> pc_wg c"
    if r: "r \<in> set (fn_commands ?f)" "cm_lease r \<noteq> pc_lease c" "cm_held r" for r
  proof -
    from sys_inv_held [OF inv r(1,3)] obtain x where x: "command_of (sy_db s) (cm_command r) x" "live x"
      "l_id x = cm_lease r" "l_gateway x = pc_gateway c" "l_address x = cm_address r" by blast
    have xm: "x \<in> set (db_leases (sy_db s))" using x(1) by (simp add: command_of_def)
    have "no_clash x l"
      using finv xm assms(3-5) x(2,3) r(2) by (simp add: fleet_inv_def tables_ok_def)
    moreover have gw: "l_gateway x = l_gateway l" using cl x(4) by (simp add: command_of_def)
    ultimately have ne: "l_address x \<noteq> l_address l" "l_device x \<noteq> l_device l" by (auto simp: no_clash_def)
    from x(1) cl obtain a b where ab: "access_of (sy_db s) (l_device x) = Some a" "a_wg a = pc_wg (cm_command r)"
      "access_of (sy_db s) (l_device l) = Some b" "a_wg b = pc_wg c" by (auto simp: command_of_def)
    have "a_wg a \<noteq> a_wg b"
      using keys access_of_SomeD [OF ab(1)] access_of_SomeD [OF ab(3)] ne(2)
      by (auto simp: keys_unique_def distinct_map inj_on_def)
    with ab ne(1) cl x(5) row_cmd(2) [OF r(1)] show ?thesis by (auto simp: row_ok_def command_of_def)
  qed
  have ok: "rows_ok (fn_commands ?f)" using fi by (simp add: fence_inv_def)
  show ?thesis using upsert_command_iff [OF ok bind] other by blast
qed

text \<open>C6. After the store released a lease, delivering its installation command again, however late, is refused at the
  gateway and changes neither its journal nor its peers.\<close>

theorem released_lease_stays_removed:
  assumes "reach (sys_init env) (sys_step env v be) s" and "c \<in> sy_sent s" and "pc_operation c = Present"
    and "l \<in> set (db_leases (sy_db s))" and "l_id l = pc_lease c" and "l_state l = Released"
  shows "\<exists>e. execute sha256 g be now0 now1 now2 restore c (sy_fence s (pc_gateway c)) w = (Inl e, sy_fence s (pc_gateway c), w)"
proof -
  let ?f = "sy_fence s (pc_gateway c)"
  have inv: "sys_inv s" using assms(1) by (rule fsys.reach_inv)
  then have finv: "fleet_inv (sy_db s)" and fi: "fence_inv ?f" by (auto simp: sys_inv_def store_inv_def)
  from inv assms(2) obtain m where m: "command_of (sy_db s) c m" by (auto simp: sys_inv_def)
  have "m = l" using fleet_inv_distinct [OF finv] m assms(4,5) by (auto simp: command_of_def distinct_map inj_on_def)
  with m have "l_gateway l = pc_gateway c" by (simp add: command_of_def)
  with inv assms(4-6) obtain r where r: "journal_row ?f (pc_lease c) = Some r" "removed r"
    unfolding sys_inv_def by metis
  obtain res f' w' where ex: "execute sha256 g be now0 now1 now2 restore c ?f w = (res, f', w')" by (metis surj_pair)
  have no: "\<not> admitted g now1 c ?f" using journal_row_SomeD [OF r(1)] r(2) by (auto simp: admitted_def)
  from ex fi show ?thesis
  proof (cases rule: execute_cases)
    case (already r')
    with r assms(3) show ?thesis by (simp add: removed_def)
  qed (use ex no in simp_all)
qed

end
