(* ===== verification/Fleet_System_Example.thy ===== *)
theory Fleet_System_Example
  imports Fleet_System Fleet_Example
begin

text \<open>
  A run of the composed system: a lease is reserved, its peer installed, the lease retired, its peer removed
  and the removal confirmed.  The world is trivial and the backend always succeeds.
\<close>

definition ex_be :: "unit backend" where
  "ex_be = \<lparr>be_preflight = None, be_ensure = (\<lambda>c w. (None, w))\<rparr>"

definition ex_fence :: fence where
  "ex_fence = \<lparr>fn_schema = 1, fn_gateway = ex_gateway, fn_last_now = 100, fn_commands = []\<rparr>"

definition ex_present :: peer_command where
  "ex_present = worker_command ex_lease (b64encode ex_wg)"

definition ex_lease2 :: lease where
  "ex_lease2 = ex_lease\<lparr>l_state := Retiring, l_generation := 2\<rparr>"

definition ex_lease3 :: lease where
  "ex_lease3 = ex_lease\<lparr>l_state := Released, l_generation := 2\<rparr>"

definition ex_absent :: peer_command where
  "ex_absent = worker_command ex_lease2 (b64encode ex_wg)"

definition ex_row :: "peer_command \<Rightarrow> bool \<Rightarrow> command_row" where
  "ex_row c held = \<lparr>cm_lease = ex_uuid, cm_binding = binding ex_present, cm_command = c, cm_generation = pc_generation c,
     cm_address = 0x0A000002, cm_wg = b64encode ex_wg, cm_held = held, cm_done = True\<rparr>"

definition ex_fence1 :: fence where "ex_fence1 = ex_fence\<lparr>fn_commands := [ex_row ex_present True]\<rparr>"
definition ex_fence2 :: fence where "ex_fence2 = ex_fence\<lparr>fn_commands := [ex_row ex_absent False]\<rparr>"

definition ex_db3 :: fleet_db where
  "ex_db3 = ex_db2\<lparr>db_leases := [ex_lease2], db_events := db_events ex_db2 @ [(100, ''retiring'', ex_uuid)]\<rparr>"

definition ex_db4 :: fleet_db where
  "ex_db4 = ex_db3\<lparr>db_leases := [ex_lease3], db_events := db_events ex_db3 @ [(100, ''released'', ex_uuid)]\<rparr>"

definition ex_sys :: "fleet_db \<Rightarrow> fence \<Rightarrow> peer_command set \<Rightarrow> peer_command set \<Rightarrow> unit fleet_sys" where
  "ex_sys db f sent acked = \<lparr>sy_db = db, sy_fence = (\<lambda>_. ex_fence)(''fi-1'' := f), sy_world = (\<lambda>_. ()), sy_sent = sent, sy_acked = acked\<rparr>"

section \<open>Commands\<close>

lemma ex_lease_fields [simp]:
  "l_id ex_lease = ex_uuid" "l_gateway ex_lease = ''fi-1''" "l_device ex_lease = ex_device" "l_generation ex_lease = 1"
  "l_state ex_lease = Reserved" "l_expires ex_lease = 3700" "l_registry_revision ex_lease = 1" "l_address ex_lease = 0x0A000002"
  "l_transport ex_lease = ''wireguard''" "l_version ex_lease = ''1''"
  by (simp_all add: ex_lease_def)

lemma ex_wg_valid: "valid_public 32 (b64encode ex_wg)"
  using decode_canonical_encode [of ex_wg] by (simp add: valid_public_def ex_wg_def ex_chars)

lemma ex_command_fields:
  "pc_lease ex_present = ex_uuid" "pc_gateway ex_present = ''fi-1''" "pc_operation ex_present = Present" "pc_generation ex_present = 1"
  "pc_lease ex_absent = ex_uuid" "pc_gateway ex_absent = ''fi-1''" "pc_operation ex_absent = Absent" "pc_generation ex_absent = 2"
  "pc_expires ex_present = 3700" "pc_address ex_present = 0x0A000002" "pc_wg ex_present = b64encode ex_wg"
  "pc_address ex_absent = 0x0A000002" "pc_wg ex_absent = b64encode ex_wg"
  "pc_transport ex_present = ''wireguard''" "pc_version ex_present = ''1''" "pc_transport ex_absent = ''wireguard''" "pc_version ex_absent = ''1''"
  by (simp_all add: ex_present_def ex_absent_def worker_command_def ex_lease2_def)

lemma ex_valid: "valid_command ex_present" "valid_command ex_absent"
proof -
  have "fullmatch is_hex 32 32 ex_uuid" by code_simp
  moreover have "is_identifier ''fi-1''" by code_simp
  moreover have "fullmatch is_hex 32 32 ex_device" using bytes_hex_class by (simp add: fullmatch_def ex_device_def)
  ultimately show "valid_command ex_present" "valid_command ex_absent"
    using ex_wg_valid by (simp_all add: valid_command_def ex_command_fields) (simp_all add: ex_present_def ex_absent_def worker_command_def ex_lease2_def)
qed

lemma ex_bound: "bound_to ex_gateway ex_present" "bound_to ex_gateway ex_absent"
  by (simp_all add: bound_to_def ex_command_fields ex_gateway_def in_pool_def broadcast_def num_addresses_def)

lemma ex_binding: "binding ex_absent = binding ex_present"
  by (simp add: binding_eq ex_present_def ex_absent_def worker_command_def ex_lease2_def)

section \<open>Steps\<close>

lemma ex_work2: "work_item 100 ex_uuid 1 ex_db2 =
   Inr (ex_db2, \<lparr>w_lease = ex_lease, w_gateway = ex_gateway, w_public = b64encode ex_public, w_wg = b64encode ex_wg\<rparr>)"
proof -
  have "ex_db2\<lparr>db_last_now := 100\<rparr> = ex_db2" by (simp add: ex_db2_def ex_db1_def ex_db0_def empty_db_def)
  then show ?thesis
    by (simp add: work_item_def positive_def transaction_def ex_db2_tables lease_row_def has_work_def authorized_def access_of_def)
      (simp add: ex_access_def ex_registry_def ex_gateway_def)
qed

lemma ex_execute1:
  "execute (env_sha256 ex_env) ex_gateway ex_be 100 100 100 False ex_present ex_fence () =
     (Inr (receipt_of (env_sha256 ex_env) ex_present), ex_fence1, ())"
  by (simp add: execute_def ex_valid ex_bound gate_def ex_fence_def clock_ok_def journal_row_def fence_decide_def
      preflight_error_def ex_be_def apply_command_def upsert_command_def put_row_def finish_command_def ex_command_fields
      was_held_def ex_fence1_def ex_row_def)

lemma ex_retire: "retire 100 ex_uuid ex_db2 = Inr (ex_db3, ex_lease2)"
proof -
  have "ex_db2\<lparr>db_last_now := 100\<rparr> = ex_db2" by (simp add: ex_db2_def ex_db1_def ex_db0_def empty_db_def)
  then show ?thesis
    by (simp add: retire_def transaction_def ex_db2_tables retire_row_def lease_row_def in_service_def add_event_def
        set_state_def ex_lease2_def ex_db3_def)
qed

lemma ex_work3: "work_item 100 ex_uuid 2 ex_db3 =
   Inr (ex_db3, \<lparr>w_lease = ex_lease2, w_gateway = ex_gateway, w_public = b64encode ex_public, w_wg = b64encode ex_wg\<rparr>)"
proof -
  have "ex_db3\<lparr>db_last_now := 100\<rparr> = ex_db3" by (simp add: ex_db3_def ex_db2_def ex_db1_def ex_db0_def empty_db_def)
  then show ?thesis
    by (simp add: work_item_def positive_def transaction_def ex_db2_tables lease_row_def has_work_def access_of_def ex_db3_def ex_lease2_def)
      (simp add: ex_access_def ex_registry_def ex_gateway_def)
qed

lemma ex_execute2:
  "execute (env_sha256 ex_env) ex_gateway ex_be 100 100 100 False ex_absent ex_fence1 () =
     (Inr (receipt_of (env_sha256 ex_env) ex_absent), ex_fence2, ())"
  by (simp add: execute_def ex_valid ex_bound gate_def ex_fence_def ex_fence1_def clock_ok_def journal_row_def fence_decide_def
      preflight_error_def ex_be_def apply_command_def upsert_command_def put_row_def finish_command_def ex_command_fields
      was_held_def ex_fence2_def ex_row_def ex_binding)

lemma ex_settle: "settle 100 ex_absent ex_db3 = Inr (ex_db4, ex_lease3)"
proof -
  have "ex_db3\<lparr>db_last_now := 100\<rparr> = ex_db3" by (simp add: ex_db3_def ex_db2_def ex_db1_def ex_db0_def empty_db_def)
  then show ?thesis
    by (simp add: settle_def ex_command_fields confirm_removed_def positive_def transaction_def ex_db2_tables lease_row_def
        add_event_def set_state_def ex_db3_def ex_db4_def ex_lease2_def ex_lease3_def)
qed

section \<open>The run\<close>

lemma ex_sys_update:
  "(ex_sys db f sent acked)\<lparr>sy_db := db'\<rparr> = ex_sys db' f sent acked"
  "(ex_sys db f sent acked)\<lparr>sy_sent := sent'\<rparr> = ex_sys db f sent' acked"
  "(ex_sys db f sent acked)\<lparr>sy_fence := (sy_fence (ex_sys db f sent acked))(''fi-1'' := f'),
     sy_world := (sy_world (ex_sys db f sent acked))(''fi-1'' := ()), sy_acked := acked'\<rparr> = ex_sys db f' sent acked'"
  by (simp_all add: ex_sys_def fun_eq_iff)

lemma ex_sys_fields:
  "sy_db (ex_sys db f sent acked) = db" "sy_sent (ex_sys db f sent acked) = sent" "sy_acked (ex_sys db f sent acked) = acked"
  "sy_fence (ex_sys db f sent acked) ''fi-1'' = f" "sy_world (ex_sys db f sent acked) gid = ()"
  by (simp_all add: ex_sys_def)

abbreviation ex_reachable :: "unit fleet_sys \<Rightarrow> bool" where
  "ex_reachable s \<equiv> reach (sys_init ex_env) (sys_step ex_env ex_validates ex_be) s"

lemma ex_store:
  assumes "ex_reachable (ex_sys db f sent acked)" "client_op p"
  shows "ex_reachable (ex_sys (fleet_exec ex_env ex_validates db p) f sent acked)"
  using reach_step [OF assms(1) sys_step.store [OF assms(2)]] by (simp only: ex_sys_update ex_sys_fields)

lemma ex_issue:
  assumes "ex_reachable (ex_sys db f sent acked)" "work_item now lid gen db = Inr (db', work)"
    and "valid_command (worker_command (w_lease work) (w_wg work))"
  shows "ex_reachable (ex_sys db' f (insert (worker_command (w_lease work) (w_wg work)) sent) acked)"
proof -
  have "work_item now lid gen (sy_db (ex_sys db f sent acked)) = Inr (db', work)" using assms(2) by (simp only: ex_sys_fields)
  from reach_step [OF assms(1) sys_step.issue [OF this refl assms(3)]] show ?thesis by (simp only: ex_sys_update ex_sys_fields)
qed

lemma ex_deliver:
  assumes "ex_reachable (ex_sys db f sent acked)" "c \<in> sent" "pc_gateway c = ''fi-1''"
    and "execute (env_sha256 ex_env) ex_gateway ex_be 100 100 100 False c f () = (Inr (receipt_of (env_sha256 ex_env) c), f', ())"
  shows "ex_reachable (ex_sys db f' sent (insert c acked))"
proof -
  let ?s = "ex_sys db f sent acked"
  have c: "c \<in> sy_sent ?s" using assms(2) by (simp only: ex_sys_fields)
  have "execute (env_sha256 ex_env) ex_gateway ex_be 100 100 100 False c (sy_fence ?s ''fi-1'') (sy_world ?s ''fi-1'') =
     (Inr (receipt_of (env_sha256 ex_env) c), f', ())"
    using assms(4) by (simp only: ex_sys_fields)
  from sys_step.deliver [OF c assms(3) [symmetric] this]
  have "sys_step ex_env ex_validates ex_be ?s (ex_sys db f' sent (insert c acked))"
    unfolding if_P [OF refl] ex_sys_update ex_sys_fields .
  with assms(1) show ?thesis by (rule reach_step)
qed

lemma ex_ack:
  assumes "ex_reachable (ex_sys db f sent acked)" "c \<in> acked" "settle 100 c db = Inr (db', l)"
  shows "ex_reachable (ex_sys db' f sent acked)"
proof -
  have c: "c \<in> sy_acked (ex_sys db f sent acked)" using assms(2) by (simp only: ex_sys_fields)
  from reach_step [OF assms(1) sys_step.acknowledge [OF c, where now = 100]] assms(3)
  show ?thesis by (simp only: ex_sys_update ex_sys_fields commit_def sum.case prod.case)
qed

lemma ex_start: "ex_reachable (ex_sys ex_db0 ex_fence {} {})"
proof (rule reach_init)
  have "fence_init ex_gateway ex_fence"
    unfolding fence_init_def by (rule exI [of _ 100]) (simp add: init_fence_def clock_ok_def ex_fence_def)
  moreover have "fleet_init ex_env ex_db0" unfolding fleet_init_def using ex_init by blast
  ultimately show "sys_init ex_env (ex_sys ex_db0 ex_fence {} {})" by (auto simp: sys_init_def ex_sys_def)
qed

lemma ex_installed: "ex_reachable (ex_sys ex_db2 ex_fence1 {ex_present} {ex_present})"
proof -
  have 1: "ex_reachable (ex_sys ex_db1 ex_fence {} {})"
    using ex_store [OF ex_start, of "SetAccess 100 ex_access"] by (simp add: ex_set_access commit_def)
  have 2: "ex_reachable (ex_sys ex_db2 ex_fence {} {})"
    using ex_store [OF 1, of "Reserve 100 ex_uuid ex_device ex_request [ex_sample]"] by (simp add: ex_reserve commit_def)
  have 3: "ex_reachable (ex_sys ex_db2 ex_fence {ex_present} {})"
    using ex_issue [OF 2 ex_work2] ex_valid(1) by (simp add: ex_present_def)
  show ?thesis using ex_deliver [OF 3 _ _ ex_execute1] by (simp add: ex_command_fields)
qed

lemma ex_released: "ex_reachable (ex_sys ex_db4 ex_fence2 {ex_present, ex_absent} {ex_present, ex_absent})"
proof -
  have 1: "ex_reachable (ex_sys ex_db3 ex_fence1 {ex_present} {ex_present})"
    using ex_store [OF ex_installed, of "Retire 100 ex_uuid"] by (simp add: ex_retire commit_def)
  have 2: "ex_reachable (ex_sys ex_db3 ex_fence1 {ex_absent, ex_present} {ex_present})"
    using ex_issue [OF 1 ex_work3] ex_valid(2) by (simp add: ex_absent_def)
  have 3: "ex_reachable (ex_sys ex_db3 ex_fence2 {ex_absent, ex_present} {ex_absent, ex_present})"
    using ex_deliver [OF 2 _ _ ex_execute2] by (simp add: ex_command_fields)
  show ?thesis using ex_ack [OF 3 _ ex_settle] by (simp add: insert_commute)
qed

section \<open>Instances of the properties\<close>

lemma held_peers_belong_to_live_leases_witness:
  "\<exists>l \<in> set (db_leases ex_db2). l_id l = ex_uuid \<and> l_gateway l = ''fi-1'' \<and> l_address l = 0x0A000002 \<and> live l"
  using held_peers_belong_to_live_leases [OF ex_installed, of "ex_row ex_present True" "''fi-1''"]
  by (simp add: ex_sys_fields ex_fence1_def) (simp add: ex_row_def)

lemma journal_never_refuses_live_lease_witness:
  "upsert_command ex_present True False (fn_commands ex_fence1) = Some (put_row ex_present True False (fn_commands ex_fence1))"
  using journal_never_refuses_live_lease [OF ex_installed, of ex_present ex_lease True False]
  by (simp add: ex_sys_fields ex_command_fields ex_db2_tables live_def)

lemma released_lease_stays_removed_witness:
  "\<exists>e. execute (env_sha256 ex_env) ex_gateway ex_be 100 100 100 False ex_present ex_fence2 () = (Inl e, ex_fence2, ())"
  using released_lease_stays_removed [OF ex_released, of ex_present ex_lease3 "env_sha256 ex_env" ex_gateway 100 100 100 False "()"]
  by (simp add: ex_sys_fields ex_command_fields ex_db4_def ex_lease3_def)


end
