(* ===== verification/Wire.thy ===== *)
theory Wire
  imports Json
begin

text \<open>
  What the components that exchange dynamic values or act on the outside world share: access to
  the fields of a decoded JSON value, Python's equality on such values, and actions that change a
  state and may raise, with the rules that prove what holds after them, raised or not.
\<close>

section \<open>Dynamic values\<close>

text \<open>\<open>value.get(key)\<close> and \<open>key in value\<close> on a dict; every other value has no fields.\<close>

fun jget :: "json \<Rightarrow> string \<Rightarrow> json option" where
  "jget (JObj kvs) k = map_of kvs k"
| "jget _ k = None"

fun jkeys :: "json \<Rightarrow> string set" where
  "jkeys (JObj kvs) = fst ` set kvs"
| "jkeys _ = {}"

fun is_obj :: "json \<Rightarrow> bool" where
  "is_obj (JObj _) = True"
| "is_obj _ = False"

text \<open>\<open>isinstance(v, dict) and required <= set(v) and not set(v) - (required | optional)\<close>\<close>

definition has_fields :: "string set \<Rightarrow> string set \<Rightarrow> json \<Rightarrow> bool" where
  "has_fields required optional v \<longleftrightarrow> is_obj v \<and> required \<subseteq> jkeys v \<and> jkeys v \<subseteq> required \<union> optional"

text \<open>\<open>type(v) is int and lo <= v <= hi\<close>; \<open>True\<close> and \<open>False\<close> are no such integers.\<close>

fun jint_in :: "int \<Rightarrow> int \<Rightarrow> json \<Rightarrow> bool" where
  "jint_in lo hi (JInt i) \<longleftrightarrow> lo \<le> i \<and> i \<le> hi"
| "jint_in lo hi _ \<longleftrightarrow> False"

fun is_jbool :: "json \<Rightarrow> bool" where
  "is_jbool (JBool _) = True"
| "is_jbool _ = False"

text \<open>\<open>v in ('a', 'b', ...)\<close> for a set of strings\<close>

fun jstr_in :: "string set \<Rightarrow> json \<Rightarrow> bool" where
  "jstr_in S (JStr s) \<longleftrightarrow> s \<in> S"
| "jstr_in S _ \<longleftrightarrow> False"

definition the_field :: "json \<Rightarrow> string \<Rightarrow> json" where
  "the_field v k = (case jget v k of None \<Rightarrow> JNull | Some x \<Rightarrow> x)"

fun jstr :: "json \<Rightarrow> string option" where
  "jstr (JStr s) = Some s"
| "jstr _ = None"

definition str_sat :: "(string \<Rightarrow> bool) \<Rightarrow> json \<Rightarrow> bool" where
  "str_sat p v = (case jstr v of None \<Rightarrow> False | Some s \<Rightarrow> p s)"

text \<open>The hook of a strict \<open>json.loads\<close>: no object of the value has a key twice.\<close>

fun unique_keys :: "json \<Rightarrow> bool" where
  "unique_keys (JList vs) = list_all unique_keys vs"
| "unique_keys (JObj kvs) = (distinct (map fst kvs) \<and> list_all (\<lambda>(k, v). unique_keys v) kvs)"
| "unique_keys _ = True"

text \<open>\<open>==\<close>: the order of the keys of a dict does not matter, and \<open>True == 1\<close>.\<close>

fun py_norm :: "json \<Rightarrow> json" where
  "py_norm JNull = JNull"
| "py_norm (JBool b) = JInt (of_bool b)"
| "py_norm (JInt i) = JInt i"
| "py_norm (JStr s) = JStr s"
| "py_norm (JList vs) = JList (map py_norm vs)"
| "py_norm (JObj kvs) = JObj (sort_key fst (map (\<lambda>(k, v). (k, py_norm v)) kvs))"

definition py_eq :: "json \<Rightarrow> json \<Rightarrow> bool" where
  "py_eq a b \<longleftrightarrow> py_norm a = py_norm b"

lemma py_eq_refl [simp]: "py_eq a a"
  by (simp add: py_eq_def)

lemma py_eq_sym: "py_eq a b \<Longrightarrow> py_eq b a"
  by (simp add: py_eq_def)

lemma py_eq_trans: "py_eq a b \<Longrightarrow> py_eq b c \<Longrightarrow> py_eq a c"
  by (simp add: py_eq_def)

lemma py_eq_simps [simp]:
  "py_eq (JStr s) (JStr t) \<longleftrightarrow> s = t" "py_eq (JInt i) (JInt j) \<longleftrightarrow> i = j" "py_eq JNull JNull"
  "\<not> py_eq JNull (JStr s)" "\<not> py_eq JNull (JInt i)" "\<not> py_eq (JStr s) (JInt i)" "\<not> py_eq JNull (JObj kvs)"
  by (simp_all add: py_eq_def)

section \<open>Addresses\<close>

text \<open>\<open>ipaddress.IPv4Address(s)\<close>\<close>

fun split_on :: "char \<Rightarrow> string \<Rightarrow> string list" where
  "split_on c [] = [[]]"
| "split_on c (x # xs) = (if x = c then [] # split_on c xs
     else case split_on c xs of [] \<Rightarrow> [[x]] | w # ws \<Rightarrow> (x # w) # ws)"

definition octet :: "string \<Rightarrow> int option" where
  "octet s = (if fullmatch is_digit 1 3 s \<and> (s = ''0'' \<or> hd s \<noteq> CHR ''0'') \<and> dec_val s \<le> 255
     then Some (int (dec_val s)) else None)"

definition ipv4_parse :: "string \<Rightarrow> int option" where
  "ipv4_parse s = (case map octet (split_on CHR ''.'' s) of
     [Some a, Some b, Some c, Some d] \<Rightarrow> Some (((a * 256 + b) * 256 + c) * 256 + d)
   | _ \<Rightarrow> None)"

section \<open>Actions\<close>

type_synonym ('e, 's, 'a) act = "'s \<Rightarrow> ('e, 'a) res \<times> 's"

definition act_bind :: "('e, 's, 'a) act \<Rightarrow> ('a \<Rightarrow> ('e, 's, 'b) act) \<Rightarrow> ('e, 's, 'b) act" where
  "act_bind m f = (\<lambda>s. case m s of (Inl e, s') \<Rightarrow> (Inl e, s') | (Inr x, s') \<Rightarrow> f x s')"

definition act_return :: "'a \<Rightarrow> ('e, 's, 'a) act" where
  "act_return x = (\<lambda>s. (Inr x, s))"

definition act_lift :: "('e, 'a) res \<Rightarrow> ('e, 's, 'a) act" where
  "act_lift r = (\<lambda>s. (r, s))"

text \<open>\<open>if not c: raise e\<close>\<close>

definition act_check :: "bool \<Rightarrow> 'e \<Rightarrow> ('e, 's, unit) act" where
  "act_check c e = act_lift (check c e)"

definition act_raise :: "'e \<Rightarrow> ('e, 's, 'a) act" where
  "act_raise e = act_lift (Inl e)"

definition act_get :: "('s \<Rightarrow> 'a) \<Rightarrow> ('e, 's, 'a) act" where
  "act_get f = (\<lambda>s. (Inr (f s), s))"

definition act_put :: "('s \<Rightarrow> 's) \<Rightarrow> ('e, 's, unit) act" where
  "act_put f = (\<lambda>s. (Inr (), f s))"

text \<open>\<open>try: m except Exception: h\<close>\<close>

definition act_catch :: "('e, 's, 'a) act \<Rightarrow> ('e \<Rightarrow> ('e, 's, 'a) act) \<Rightarrow> ('e, 's, 'a) act" where
  "act_catch m h = (\<lambda>s. case m s of (Inl e, s') \<Rightarrow> h e s' | (Inr x, s') \<Rightarrow> (Inr x, s'))"

lemma act_simps [simp]:
  "act_return x s = (Inr x, s)" "act_lift r s = (r, s)" "act_raise e s = (Inl e, s)"
  "act_get f s = (Inr (f s), s)" "act_put g s = (Inr (), g s)" "act_check c e s = (check c e, s)"
  by (simp_all add: act_return_def act_lift_def act_raise_def act_get_def act_put_def act_check_def)

lemma act_bind_simps [simp]:
  "m s = (Inl e, s') \<Longrightarrow> act_bind m f s = (Inl e, s')" "m s = (Inr x, s') \<Longrightarrow> act_bind m f s = f x s'"
  by (simp_all add: act_bind_def)

section \<open>What holds after an action\<close>

definition after :: "('a \<Rightarrow> 's \<Rightarrow> bool) \<Rightarrow> ('s \<Rightarrow> bool) \<Rightarrow> ('e, 'a) res \<times> 's \<Rightarrow> bool" where
  "after Q E r = (case fst r of Inl _ \<Rightarrow> E (snd r) | Inr x \<Rightarrow> Q x (snd r))"

lemma after_simps [simp]: "after Q E (Inl e, s) = E s" "after Q E (Inr x, s) = Q x s"
  by (simp_all add: after_def)

text \<open>\<open>triple P m Q E\<close>: started where \<open>P\<close> holds, \<open>m\<close> returns an \<open>x\<close> with \<open>Q x\<close> or raises with \<open>E\<close>.\<close>

definition triple :: "('s \<Rightarrow> bool) \<Rightarrow> ('e, 's, 'a) act \<Rightarrow> ('a \<Rightarrow> 's \<Rightarrow> bool) \<Rightarrow> ('s \<Rightarrow> bool) \<Rightarrow> bool" where
  "triple P m Q E \<longleftrightarrow> (\<forall>s. P s \<longrightarrow> after Q E (m s))"

named_theorems triple_rules \<open>rules for the basic actions\<close>

lemma act_cases [case_names raises returns]:
  obtains e s' where "m s = (Inl e, s')" | x s' where "m s = (Inr x, s')"
  by (metis old.sum.exhaust surj_pair)

lemma tripleI: "(\<And>s. P s \<Longrightarrow> after Q E (m s)) \<Longrightarrow> triple P m Q E"
  by (simp add: triple_def)

lemma tripleD_ok: "triple P m Q E \<Longrightarrow> P s \<Longrightarrow> m s = (Inr x, s') \<Longrightarrow> Q x s'"
  by (metis triple_def after_simps(2))

lemma tripleD_err: "triple P m Q E \<Longrightarrow> P s \<Longrightarrow> m s = (Inl e, s') \<Longrightarrow> E s'"
  by (metis triple_def after_simps(1))

lemma tripleD: "triple P m (\<lambda>_. E) E \<Longrightarrow> P s \<Longrightarrow> m s = (r, s') \<Longrightarrow> E s'"
  by (cases r) (auto dest: tripleD_ok tripleD_err)

lemma triple_bind:
  assumes "triple P m R E" "\<And>x. triple (R x) (f x) Q E"
  shows "triple P (act_bind m f) Q E"
proof (rule tripleI)
  fix s assume "P s"
  then show "after Q E (act_bind m f s)"
    using assms unfolding triple_def by (cases m s rule: act_cases) (force simp: act_bind_def)+
qed

lemma triple_catch:
  assumes "triple P m Q R" "\<And>e. triple R (h e) Q E"
  shows "triple P (act_catch m h) Q E"
proof (rule tripleI)
  fix s assume "P s"
  then show "after Q E (act_catch m h s)"
    using assms unfolding triple_def by (cases m s rule: act_cases) (force simp: act_catch_def)+
qed

lemma triple_weaken:
  assumes "triple P' m Q' E'" "\<And>s. P s \<Longrightarrow> P' s" "\<And>x s. Q' x s \<Longrightarrow> Q x s" "\<And>s. E' s \<Longrightarrow> E s"
  shows "triple P m Q E"
proof (rule tripleI)
  fix s assume "P s"
  then show "after Q E (m s)"
    using assms unfolding triple_def by (cases m s rule: act_cases) force+
qed

lemma triple_pre: "triple P' m Q E \<Longrightarrow> (\<And>s. P s \<Longrightarrow> P' s) \<Longrightarrow> triple P m Q E"
  by (rule triple_weaken)

lemma triple_return [triple_rules]: "(\<And>s. P s \<Longrightarrow> Q x s) \<Longrightarrow> triple P (act_return x) Q E"
  by (simp add: triple_def)

lemma triple_lift [triple_rules]:
  "(\<And>s x. P s \<Longrightarrow> r = Inr x \<Longrightarrow> Q x s) \<Longrightarrow> (\<And>s. P s \<Longrightarrow> E s) \<Longrightarrow> triple P (act_lift r) Q E"
  by (cases r) (auto simp: triple_def)

lemma triple_check [triple_rules]:
  "(\<And>s. P s \<Longrightarrow> c \<Longrightarrow> Q () s) \<Longrightarrow> (\<And>s. P s \<Longrightarrow> E s) \<Longrightarrow> triple P (act_check c e) Q E"
  by (cases c) (auto simp: triple_def)

lemma triple_raise [triple_rules]: "(\<And>s. P s \<Longrightarrow> E s) \<Longrightarrow> triple P (act_raise e) Q E"
  by (simp add: triple_def)

lemma triple_get [triple_rules]: "(\<And>s. P s \<Longrightarrow> Q (f s) s) \<Longrightarrow> triple P (act_get f) Q E"
  by (simp add: triple_def)

lemma triple_put [triple_rules]: "(\<And>s. P s \<Longrightarrow> Q () (f s)) \<Longrightarrow> triple P (act_put f) Q E"
  by (simp add: triple_def)

lemma triple_if:
  "(c \<Longrightarrow> triple P a Q E) \<Longrightarrow> (\<not> c \<Longrightarrow> triple P b Q E) \<Longrightarrow> triple P (if c then a else b) Q E"
  by simp

end
