(* ===== verification/Auto_Guard.thy ===== *)
theory Auto_Guard
  imports Wire Fleet_Gateway
begin

text \<open>
  The traffic containment of the Linux client, \<open>clients/linux/auto_guard.py\<close>: the packet policies and the
  nftables objects they stand for, the reading back of the firewall, and the \<open>Guard\<close> that moves from one policy
  to the next through a journal on disk.

  A guard is its attributes together with the journal file and the outside world, which is a parameter: a
  system reads the firewall table, applies a transaction, lists the links, and decides whether a write to the
  disk succeeds.  The journal and everything the firewall tool prints are dynamic values.  The \<open>open\<close> flag is
  the lock the guard holds; the directory and lock file checks of the constructor are outside the model.
\<close>

datatype guard_error = ValueErr string | MissingKey | BadType | FileMissing | SystemFailed

section \<open>Policies\<close>

datatype gkind = Awg | Tcp | Mesh

record gcand =
  gc_kind :: gkind
  gc_interface :: string
  gc_endpoint :: "(string \<times> int) option"

datatype gmode = Blocked | Probe | Open

record gstate =
  gs_mode :: gmode
  gs_selected :: "gcand option"
  gs_index :: int
  gs_ipv6 :: bool

definition kind_text :: "gkind \<Rightarrow> string" where
  "kind_text k = (case k of Awg \<Rightarrow> ''awg'' | Tcp \<Rightarrow> ''tcp'' | Mesh \<Rightarrow> ''mesh'')"

definition mode_text :: "gmode \<Rightarrow> string" where
  "mode_text m = (case m of Blocked \<Rightarrow> ''blocked'' | Probe \<Rightarrow> ''probe'' | Open \<Rightarrow> ''ready'')"

definition kind_of :: "string \<Rightarrow> gkind option" where
  "kind_of s = List.find (\<lambda>k. kind_text k = s) [Awg, Tcp, Mesh]"

definition mode_of :: "string \<Rightarrow> gmode option" where
  "mode_of s = List.find (\<lambda>m. mode_text m = s) [Blocked, Probe, Open]"

text \<open>The patterns of \<open>NAMES\<close>.\<close>

definition interface_name :: "gkind \<Rightarrow> string \<Rightarrow> bool" where
  "interface_name k s = (case k of
     Awg \<Rightarrow> take 5 s = ''fcawg'' \<and> fullmatch is_hex 8 8 (drop 5 s)
   | Tcp \<Rightarrow> take 5 s = ''fctcp'' \<and> fullmatch is_hex 8 8 (drop 5 s)
   | Mesh \<Rightarrow> s = ''fcmesh0'')"

definition gateway_ok :: "json \<Rightarrow> json \<Rightarrow> (guard_error, string \<times> int) res" where
  "gateway_ok endpoint port = (case endpoint of
     JStr e \<Rightarrow>
       (case ipv4_parse e of
          None \<Rightarrow> Inl (ValueErr ''address'')
        | Some a \<Rightarrow>
            (case port of
               JInt p \<Rightarrow> bind_res (check (ipv4_text a = e \<and> public_address (IPv4 a) \<and> 1 \<le> p \<and> p \<le> 65535)
                           (ValueErr ''Invalid Auto gateway'')) (\<lambda>_. Inr (e, p))
             | _ \<Rightarrow> Inl (ValueErr ''Invalid Auto gateway'')))
   | _ \<Rightarrow> Inl (ValueErr ''Invalid Auto gateway''))"

definition candidate :: "json \<Rightarrow> json \<Rightarrow> json \<Rightarrow> json \<Rightarrow> (guard_error, gcand) res" where
  "candidate kind interface endpoint port = (case (kind, interface) of
     (JList _, _) \<Rightarrow> Inl BadType
   | (JObj _, _) \<Rightarrow> Inl BadType
   | (JStr s, JStr i) \<Rightarrow>
       (case kind_of s of
          None \<Rightarrow> Inl (ValueErr ''Invalid Auto interface'')
        | Some k \<Rightarrow>
            bind_res (check (interface_name k i) (ValueErr ''Invalid Auto interface'')) (\<lambda>_.
            bind_res (if k = Mesh
                      then bind_res (check (endpoint = JNull \<and> port = JNull)
                             (ValueErr ''MESH has no caller-selected bypass endpoint'')) (\<lambda>_. Inr None)
                      else bind_res (gateway_ok endpoint port) (\<lambda>e. Inr (Some e))) (\<lambda>gw.
            Inr \<lparr>gc_kind = k, gc_interface = i, gc_endpoint = gw\<rparr>)))
   | _ \<Rightarrow> Inl (ValueErr ''Invalid Auto interface''))"

definition field :: "json \<Rightarrow> string \<Rightarrow> (guard_error, json) res" where
  "field v k = (if is_obj v then (case jget v k of None \<Rightarrow> Inl MissingKey | Some x \<Rightarrow> Inr x) else Inl BadType)"

text \<open>\<open>candidate(**selected)\<close> after the test of its keys.\<close>

definition candidate_kw :: "json \<Rightarrow> (guard_error, gcand) res" where
  "candidate_kw v =
     bind_res (check (has_fields {''kind'', ''interface'', ''endpoint'', ''port''} {} v) (ValueErr ''Invalid Auto candidate'')) (\<lambda>_.
     bind_res (field v ''kind'') (\<lambda>k. bind_res (field v ''interface'') (\<lambda>i.
     bind_res (field v ''endpoint'') (\<lambda>e. bind_res (field v ''port'') (\<lambda>p. candidate k i e p)))))"

definition policy :: "json \<Rightarrow> json \<Rightarrow> json \<Rightarrow> json \<Rightarrow> (guard_error, gstate) res" where
  "policy mode selected index ipv6 = (case (mode, index, ipv6) of
     (JStr m, JInt i, JBool b) \<Rightarrow>
       (case mode_of m of
          None \<Rightarrow> Inl (ValueErr ''Invalid Auto guard state'')
        | Some md \<Rightarrow>
            bind_res (check (0 \<le> i \<and> i \<le> 2 ^ 31 - 1) (ValueErr ''Invalid Auto guard state'')) (\<lambda>_.
            bind_res (if selected = JNull then Inr None
                      else bind_res (candidate_kw selected) (\<lambda>c. Inr (Some c))) (\<lambda>sel.
            bind_res (check (\<not> (md \<noteq> Blocked \<and> sel = None)) (ValueErr ''Auto candidate required'')) (\<lambda>_.
            bind_res (check (\<not> ((md = Open) \<noteq> (i > 0) \<or> (md \<noteq> Open \<and> b) \<or>
                                (b \<and> (case sel of None \<Rightarrow> False | Some c \<Rightarrow> gc_kind c = Mesh))))
                       (ValueErr ''Invalid Auto packet allowance'')) (\<lambda>_.
            Inr \<lparr>gs_mode = md, gs_selected = sel, gs_index = i, gs_ipv6 = b\<rparr>)))))
   | _ \<Rightarrow> Inl (ValueErr ''Invalid Auto guard state''))"

text \<open>\<open>policy(**state)\<close>: an unknown keyword is a TypeError, a missing one takes its default.\<close>

definition policy_kw :: "json \<Rightarrow> (guard_error, gstate) res" where
  "policy_kw v =
     (if has_fields {} {''mode'', ''selected'', ''index'', ''ipv6''} v
      then policy (case jget v ''mode'' of None \<Rightarrow> JStr ''blocked'' | Some x \<Rightarrow> x)
                  (case jget v ''selected'' of None \<Rightarrow> JNull | Some x \<Rightarrow> x)
                  (case jget v ''index'' of None \<Rightarrow> JInt 0 | Some x \<Rightarrow> x)
                  (case jget v ''ipv6'' of None \<Rightarrow> JBool False | Some x \<Rightarrow> x)
      else Inl BadType)"

definition cand_json :: "gcand \<Rightarrow> json" where
  "cand_json c = JObj [(''kind'', JStr (kind_text (gc_kind c))), (''interface'', JStr (gc_interface c)),
     (''endpoint'', case gc_endpoint c of None \<Rightarrow> JNull | Some (e, p) \<Rightarrow> JStr e),
     (''port'', case gc_endpoint c of None \<Rightarrow> JNull | Some (e, p) \<Rightarrow> JInt p)]"

definition selected_json :: "gcand option \<Rightarrow> json" where
  "selected_json sel = (case sel of None \<Rightarrow> JNull | Some c \<Rightarrow> cand_json c)"

definition state_json :: "gstate \<Rightarrow> json" where
  "state_json st = JObj [(''mode'', JStr (mode_text (gs_mode st))), (''selected'', selected_json (gs_selected st)),
     (''index'', JInt (gs_index st)), (''ipv6'', JBool (gs_ipv6 st))]"

section \<open>Firewall objects\<close>

definition table_name :: string where "table_name = ''family_connect_auto''"

definition nft_meta :: "string \<Rightarrow> json \<Rightarrow> json" where
  "nft_meta key v = JObj [(''match'', JObj [(''op'', JStr ''==''), (''left'', JObj [(''meta'', JObj [(''key'', JStr key)])]), (''right'', v)])]"

definition nft_payload :: "string \<Rightarrow> json \<Rightarrow> string \<Rightarrow> json" where
  "nft_payload key v protocol = JObj [(''match'', JObj [(''op'', JStr ''==''),
     (''left'', JObj [(''payload'', JObj [(''protocol'', JStr protocol), (''field'', JStr key)])]), (''right'', v)])]"

definition allow :: "string \<Rightarrow> json list \<Rightarrow> string \<Rightarrow> json" where
  "allow label expressions chain = JObj [(''rule'', JObj [(''family'', JStr ''inet''), (''table'', JStr table_name),
     (''chain'', JStr chain), (''expr'', JList (expressions @ [JObj [(''accept'', JNull)]])), (''comment'', JStr label)])]"

definition hook_chain :: "string \<Rightarrow> json" where
  "hook_chain hook = JObj [(''chain'', JObj [(''family'', JStr ''inet''), (''table'', JStr table_name), (''name'', JStr hook),
     (''type'', JStr ''filter''), (''hook'', JStr hook), (''prio'', JInt 10), (''policy'', JStr ''drop'')])]"

definition nft_root :: json where "nft_root = nft_meta ''skuid'' (JInt 0)"
definition nft_ipv4 :: json where "nft_ipv4 = nft_meta ''nfproto'' (JInt 2)"
definition nft_ipv6 :: json where "nft_ipv6 = nft_meta ''nfproto'' (JInt 10)"

text \<open>The rules of every mode: loopback, the service's own bootstrap, address configuration.\<close>

definition scope_rules :: "string \<Rightarrow> int \<Rightarrow> json list" where
  "scope_rules prefix bits =
     (let scope = nft_payload ''daddr'' (JObj [(''prefix'', JObj [(''addr'', JStr prefix), (''len'', JInt bits)])]) ''ip6'' in
      allow (''dhcp6-'' @ str_int bits)
        [nft_root, scope, nft_payload ''sport'' (JInt 546) ''udp'', nft_payload ''dport'' (JInt 547) ''udp''] ''output'' #
      map (\<lambda>(kind, code). allow (kind @ ''-'' @ str_int bits)
        [scope, nft_payload ''hoplimit'' (JInt 255) ''ip6'', nft_payload ''type'' (JInt code) ''icmpv6'',
         nft_payload ''code'' (JInt 0) ''icmpv6''] ''output'')
        [(''nd-router-solicit'', 133), (''nd-neighbor-solicit'', 135), (''nd-neighbor-advert'', 136)])"

definition base_rules :: "json list" where
  "base_rules =
     [allow ''loopback'' [nft_meta ''oifname'' (JStr ''lo'')] ''output'',
      allow ''service-mesh-bootstrap'' [nft_root, nft_ipv4, nft_meta ''mark'' (JInt 64640)] ''output'',
      allow ''dhcp4'' [nft_root, nft_ipv4, nft_payload ''sport'' (JInt 68) ''udp'', nft_payload ''dport'' (JInt 67) ''udp''] ''output''] @
     scope_rules ''fe80::'' 10 @ scope_rules ''ff02::'' 16"

text \<open>The rules a selected candidate adds while it is probed or in use.\<close>

definition service_rules :: "gmode \<Rightarrow> gcand \<Rightarrow> json list" where
  "service_rules m c =
     (if m = Probe
      then [allow ''privileged-probe'' [nft_root, nft_ipv4, nft_meta ''oifname'' (JStr (gc_interface c))] ''output''] else []) @
     (case gc_endpoint c of
        None \<Rightarrow> []
      | Some (e, p) \<Rightarrow>
          [allow (''service-'' @ kind_text (gc_kind c))
            ([nft_root, nft_payload ''daddr'' (JStr e) ''ip'',
              nft_payload ''dport'' (JInt p) (if gc_kind c = Awg then ''udp'' else ''tcp'')] @
             (if gc_kind c = Tcp then [nft_meta ''mark'' (JInt 64630)] else [])) ''output''])"

definition packet_rules :: "gstate \<Rightarrow> gcand \<Rightarrow> json list" where
  "packet_rules st c =
     (let packet = [nft_meta ''oif'' (JInt (gs_index st)), nft_meta ''oifname'' (JStr (gc_interface c))];
          inbound = [nft_meta ''iif'' (JInt (gs_index st)), nft_meta ''iifname'' (JStr (gc_interface c))];
          established = JObj [(''match'', JObj [(''op'', JStr ''==''), (''left'', JObj [(''ct'', JObj [(''key'', JStr ''state'')])]),
            (''right'', JObj [(''set'', JList [JInt 2, JInt 4])])])]
      in concat (map (\<lambda>(family, suffix).
           [allow (''packet-'' @ suffix) (family # packet) ''output'',
            allow (''forward-packet-'' @ suffix) (family # packet) ''forward'',
            allow (''forward-return-'' @ suffix) (family # inbound @ [established]) ''forward''])
           ((nft_ipv4, ''ipv4'') # (if gs_ipv6 st then [(nft_ipv6, ''ipv6'')] else []))))"

definition objects_of :: "string \<Rightarrow> gstate \<Rightarrow> json list" where
  "objects_of generation st =
     JObj [(''table'', JObj [(''family'', JStr ''inet''), (''name'', JStr table_name), (''comment'', JStr (''fc-auto-v1:'' @ generation))])] #
     hook_chain ''output'' # hook_chain ''forward'' # base_rules @
     (case gs_selected st of
        None \<Rightarrow> []
      | Some c \<Rightarrow>
          (if gs_mode st \<noteq> Blocked then service_rules (gs_mode st) c else []) @
          (if gs_mode st = Open then packet_rules st c else []))"

definition objects :: "string \<Rightarrow> json \<Rightarrow> (guard_error, json list) res" where
  "objects generation state =
     bind_res (policy_kw state) (\<lambda>st.
     bind_res (check (fullmatch is_hex 32 32 generation) (ValueErr ''Invalid Auto generation'')) (\<lambda>_.
     Inr (objects_of generation st)))"

section \<open>Reading the firewall back\<close>

definition del_key :: "string \<Rightarrow> (string \<times> json) list \<Rightarrow> (string \<times> json) list" where
  "del_key k kvs = filter (\<lambda>(k', _). k' \<noteq> k) kvs"

definition set_key :: "string \<Rightarrow> json \<Rightarrow> (string \<times> json) list \<Rightarrow> (string \<times> json) list" where
  "set_key k v kvs = (if k \<in> fst ` set kvs then map (\<lambda>(k', v'). (k', if k' = k then v else v')) kvs else kvs @ [(k, v)])"

text \<open>An index printed as a name, resolved through the interfaces seen around the read.\<close>

definition resolve_index :: "(string \<times> json) list option \<Rightarrow> string \<Rightarrow> (guard_error, json) res" where
  "resolve_index interfaces v =
     (let found = (case interfaces of None \<Rightarrow> None | Some m \<Rightarrow> map_of m v) in
      if fullmatch is_digit 1 10 v \<and> hd v \<noteq> CHR ''0'' \<and> 1 \<le> dec_val v \<and> dec_val v \<le> 2 ^ 31 - 1
      then (case found of
              None \<Rightarrow> Inr (JInt (int (dec_val v)))
            | Some i \<Rightarrow> if py_eq i (JInt (int (dec_val v))) then Inr (JInt (int (dec_val v)))
                        else Inl (ValueErr ''Ambiguous Auto interface index''))
      else (case found of
              None \<Rightarrow> Inl (ValueErr ''Auto interface index readback unavailable'')
            | Some i \<Rightarrow> Inr i))"

definition resolve_expression :: "(string \<times> json) list option \<Rightarrow> json \<Rightarrow> (guard_error, json) res" where
  "resolve_expression interfaces e = (case e of
     JObj kvs \<Rightarrow>
       (case map_of kvs ''match'' of
          None \<Rightarrow> Inr e
        | Some (JObj cmp) \<Rightarrow>
            (case (map_of cmp ''left'', map_of cmp ''right'') of
               (Some l, Some (JStr v)) \<Rightarrow>
                 if py_eq l (JObj [(''meta'', JObj [(''key'', JStr ''iif'')])]) \<or> py_eq l (JObj [(''meta'', JObj [(''key'', JStr ''oif'')])])
                 then bind_res (resolve_index interfaces v) (\<lambda>i. Inr (JObj (set_key ''match'' (JObj (set_key ''right'' i cmp)) kvs)))
                 else Inr e
             | _ \<Rightarrow> Inr e)
        | Some _ \<Rightarrow> Inl BadType)
   | _ \<Rightarrow> Inl BadType)"

fun map_res :: "('a \<Rightarrow> ('e, 'b) res) \<Rightarrow> 'a list \<Rightarrow> ('e, 'b list) res" where
  "map_res f [] = Inr []"
| "map_res f (x # xs) = bind_res (f x) (\<lambda>y. bind_res (map_res f xs) (\<lambda>ys. Inr (y # ys)))"

definition canonical_rule :: "(string \<times> json) list option \<Rightarrow> (string \<times> json) list \<Rightarrow> (guard_error, (string \<times> json) list) res" where
  "canonical_rule interfaces kvs = (case map_of kvs ''expr'' of
     None \<Rightarrow> Inr kvs
   | Some (JList es) \<Rightarrow> bind_res (map_res (resolve_expression interfaces) es) (\<lambda>es'. Inr (set_key ''expr'' (JList es') kvs))
   | Some (JObj []) \<Rightarrow> Inr kvs
   | Some (JStr []) \<Rightarrow> Inr kvs
   | Some _ \<Rightarrow> Inl BadType)"

fun canonical_entries :: "(string \<times> json) list option \<Rightarrow> json list \<Rightarrow> (guard_error, json list) res" where
  "canonical_entries interfaces [] = Inr []"
| "canonical_entries interfaces (entry # entries) =
     (if has_fields {''metainfo''} {} entry then canonical_entries interfaces entries
      else case entry of
        JObj [(name, body)] \<Rightarrow>
          if name \<notin> {''table'', ''chain'', ''rule''} then Inl (ValueErr ''Unexpected Auto firewall object'')
          else (case body of
            JObj kvs \<Rightarrow>
              bind_res (if name = ''rule'' then canonical_rule interfaces (del_key ''handle'' kvs) else Inr (del_key ''handle'' kvs)) (\<lambda>kvs'.
              bind_res (canonical_entries interfaces entries) (\<lambda>rest. Inr (JObj [(name, JObj kvs')] # rest)))
          | _ \<Rightarrow> Inl (ValueErr ''Invalid Auto firewall object''))
      | _ \<Rightarrow> Inl (ValueErr ''Unexpected Auto firewall object''))"

definition canonical_nft :: "json \<Rightarrow> (string \<times> json) list option \<Rightarrow> (guard_error, json list) res" where
  "canonical_nft document interfaces = (case document of
     JObj [(''nftables'', JList entries)] \<Rightarrow> canonical_entries interfaces entries
   | _ \<Rightarrow> Inl (ValueErr ''Invalid Auto firewall readback''))"

section \<open>The system\<close>

text \<open>\<open>System.run\<close> starts the firewall or link tool with a payload on its input and decodes what it prints;
  a write of the journal succeeds, fails before it took effect, or fails after it.\<close>

datatype disk = Written | Lost | Unsure

record 'w nft_sys =
  ns_read :: "(guard_error, 'w, json list option) act"
  ns_apply :: "json list \<Rightarrow> (guard_error, 'w, unit) act"
  ns_links :: "(guard_error, 'w, json) act"
  ns_disk :: "'w \<Rightarrow> disk \<times> 'w"

type_synonym 'w tool = "string list \<Rightarrow> json option \<Rightarrow> (guard_error, 'w, json) act"

fun owns_table :: "json list \<Rightarrow> (guard_error, bool) res" where
  "owns_table [] = Inr False"
| "owns_table (entry # entries) = (case entry of
     JObj kvs \<Rightarrow>
       (case map_of kvs ''table'' of
          None \<Rightarrow> owns_table entries
        | Some (JObj t) \<Rightarrow>
            if map_of t ''family'' = Some (JStr ''inet'') \<and> map_of t ''name'' = Some (JStr table_name) then Inr True
            else owns_table entries
        | Some _ \<Rightarrow> Inl BadType)
   | _ \<Rightarrow> Inl BadType)"

text \<open>\<open>{link['ifname']: link['ifindex'] for link in links}\<close>; the later entry of a name wins.\<close>

fun index_links :: "json list \<Rightarrow> (guard_error, (string \<times> json) list) res" where
  "index_links [] = Inr []"
| "index_links (l # ls) =
     bind_res (field l ''ifname'') (\<lambda>n. bind_res (field l ''ifindex'') (\<lambda>i.
     case n of
       JStr s \<Rightarrow> bind_res (index_links ls) (\<lambda>m. Inr (if s \<in> fst ` set m then m else (s, i) # m))
     | _ \<Rightarrow> Inl BadType))"

fun link_list :: "json \<Rightarrow> (guard_error, json list) res" where
  "link_list (JList ls) = Inr ls"
| "link_list _ = Inl BadType"

definition system_run :: "'w tool \<Rightarrow> string list \<Rightarrow> json option \<Rightarrow> (guard_error, 'w, json) act" where
  "system_run tool arguments payload =
     (case payload of
        Some v \<Rightarrow> act_bind (act_check (length (dumps v) \<le> 65536) (ValueErr ''Oversized Auto firewall transaction'')) (\<lambda>_. tool arguments payload)
      | None \<Rightarrow> tool arguments payload)"

definition system_links :: "'w tool \<Rightarrow> (guard_error, 'w, json) act" where
  "system_links tool = system_run tool [''/usr/sbin/ip'', ''-j'', ''-d'', ''link'', ''show''] None"

definition system_read :: "'w tool \<Rightarrow> (guard_error, 'w, json list option) act" where
  "system_read tool =
     act_bind (system_run tool [''/usr/sbin/nft'', ''-j'', ''list'', ''tables''] None) (\<lambda>tables.
     act_bind (act_lift (case jget tables ''nftables'' of
                 Some (JList entries) \<Rightarrow> owns_table entries
               | _ \<Rightarrow> Inl (ValueErr ''Invalid firewall table inventory''))) (\<lambda>owned.
     if \<not> owned then act_return None
     else
       act_bind (system_links tool) (\<lambda>links.
       act_bind (act_lift (bind_res (link_list links) index_links)) (\<lambda>before.
       act_bind (system_run tool [''/usr/sbin/nft'', ''-j'', ''-n'', ''list'', ''table'', ''inet'', table_name] None) (\<lambda>result.
       act_bind (system_links tool) (\<lambda>links'.
       act_bind (act_lift (bind_res (link_list links') index_links)) (\<lambda>links_after.
       act_bind (act_check (py_eq (JObj before) (JObj links_after)) (ValueErr ''Auto interface inventory changed during readback'')) (\<lambda>_.
       act_bind (act_lift (canonical_nft result (Some before))) (\<lambda>r. act_return (Some r))))))))))"

definition system_apply :: "'w tool \<Rightarrow> json list \<Rightarrow> (guard_error, 'w, unit) act" where
  "system_apply tool commands =
     act_bind (system_run tool [''/usr/sbin/nft'', ''-j'', ''-f'', ''-''] (Some (JObj [(''nftables'', JList commands)])))
       (\<lambda>_. act_return ())"

text \<open>\<open>System()\<close>, the default of the guard's constructor.\<close>

definition system_of :: "'w tool \<Rightarrow> ('w \<Rightarrow> disk \<times> 'w) \<Rightarrow> 'w nft_sys" where
  "system_of tool d = \<lparr>ns_read = system_read tool, ns_apply = system_apply tool, ns_links = system_links tool, ns_disk = d\<rparr>"

section \<open>The guard\<close>

record 'w guard =
  gd_uid :: int
  gd_generation :: string
  gd_open :: bool
  gd_record :: "json option"
  gd_file :: "json option"
  gd_world :: 'w

type_synonym ('w, 'a) gact = "(guard_error, 'w guard, 'a) act"

definition on_world :: "(guard_error, 'w, 'a) act \<Rightarrow> ('w, 'a) gact" where
  "on_world m = (\<lambda>s. case m (gd_world s) of (r, w) \<Rightarrow> (r, s\<lparr>gd_world := w\<rparr>))"

text \<open>\<open>private_write\<close> and the unlinking of the journal: both replace the contents of the path or do not.\<close>

definition store_file :: "'w nft_sys \<Rightarrow> json option \<Rightarrow> ('w, unit) gact" where
  "store_file sys v = (\<lambda>s. case ns_disk sys (gd_world s) of (d, w) \<Rightarrow>
     (if d = Written then Inr () else Inl SystemFailed,
      s\<lparr>gd_world := w, gd_file := (if d = Lost then gd_file s else v)\<rparr>))"

definition private_read :: "('w, json) gact" where
  "private_read = act_bind (act_get gd_file) (\<lambda>f. case f of
     None \<Rightarrow> act_raise FileMissing
   | Some v \<Rightarrow> act_bind (act_check (length (dumps v) \<le> 4096) (ValueErr ''Oversized MESH ownership journal'')) (\<lambda>_.
               act_bind (act_check (is_obj v) (ValueErr ''Invalid MESH IPC'')) (\<lambda>_. act_return v)))"

definition record_field :: "string \<Rightarrow> ('w, json) gact" where
  "record_field k = act_bind (act_get gd_record) (\<lambda>r. act_lift (case r of None \<Rightarrow> Inl BadType | Some v \<Rightarrow> field v k))"

definition owned :: "('w, unit) gact" where
  "owned = act_bind (act_get id) (\<lambda>s.
     case gd_record s of
       None \<Rightarrow> act_raise (ValueErr ''Auto guard not acquired'')
     | Some r \<Rightarrow>
         act_bind (act_check (gd_open s) (ValueErr ''Auto guard not acquired'')) (\<lambda>_.
         act_bind private_read (\<lambda>v. act_check (py_eq v r) (ValueErr ''Auto journal changed''))))"

definition journal :: "int \<Rightarrow> string \<Rightarrow> json \<Rightarrow> json \<Rightarrow> json" where
  "journal uid generation current pend = JObj [(''schema'', JInt 1), (''uid'', JInt uid), (''generation'', JStr generation),
     (''current'', current), (''pending'', pend)]"

definition save :: "'w nft_sys \<Rightarrow> json \<Rightarrow> json \<Rightarrow> ('w, unit) gact" where
  "save sys current pend = act_bind (act_get id) (\<lambda>s.
     let v = journal (gd_uid s) (gd_generation s) current pend in
     act_bind (store_file sys (Some v)) (\<lambda>_. act_put (\<lambda>s. s\<lparr>gd_record := Some v\<rparr>)))"

text \<open>\<open>any(state is not None and actual == objects(self.generation, state) for state in choices)\<close>\<close>

fun matches_choice :: "string \<Rightarrow> json list \<Rightarrow> json list \<Rightarrow> (guard_error, bool) res" where
  "matches_choice generation actual [] = Inr False"
| "matches_choice generation actual (state # states) =
     (if state = JNull then matches_choice generation actual states
      else bind_res (objects generation state) (\<lambda>objs.
           if py_eq (JList actual) (JList objs) then Inr True else matches_choice generation actual states))"

definition read_owned :: "'w nft_sys \<Rightarrow> bool \<Rightarrow> ('w, json list option) gact" where
  "read_owned sys allow_missing =
     act_bind (on_world (ns_read sys)) (\<lambda>actual.
     act_bind (record_field ''current'') (\<lambda>current.
     act_bind (act_check (\<not> (actual = None \<and> current \<noteq> JNull \<and> \<not> allow_missing)) (ValueErr ''Auto firewall disappeared'')) (\<lambda>_.
     act_bind (record_field ''pending'') (\<lambda>pend.
     act_bind (act_lift (if pend = JNull then Inr [current]
                         else bind_res (field pend ''state'') (\<lambda>st. Inr [current, st]))) (\<lambda>choices.
     act_bind (act_get gd_generation) (\<lambda>generation.
     case actual of
       None \<Rightarrow> act_return None
     | Some rules \<Rightarrow>
         act_bind (act_lift (matches_choice generation rules choices)) (\<lambda>ok.
         act_bind (act_check ok (ValueErr ''Auto firewall ownership mismatch'')) (\<lambda>_. act_return actual))))))))"

definition delete_table :: json where
  "delete_table = JObj [(''delete'', JObj [(''table'', JObj [(''family'', JStr ''inet''), (''name'', JStr table_name)])])]"

definition add_object :: "json \<Rightarrow> json" where
  "add_object entry = JObj [(''add'', entry)]"

definition apply_state :: "'w nft_sys \<Rightarrow> gstate \<Rightarrow> ('w, unit) gact" where
  "apply_state sys st =
     act_bind owned (\<lambda>_.
     act_bind (read_owned sys (gs_mode st = Blocked)) (\<lambda>actual.
     act_bind (record_field ''current'') (\<lambda>current.
     act_bind (save sys current (JObj [(''operation'', JStr ''apply''), (''state'', state_json st)])) (\<lambda>_.
     act_bind (act_get gd_generation) (\<lambda>generation.
     act_bind (act_lift (objects generation (state_json st))) (\<lambda>objs.
     act_bind (on_world (ns_apply sys ((if actual = None then [] else [delete_table]) @ map add_object objs))) (\<lambda>_.
     act_bind (on_world (ns_read sys)) (\<lambda>seen.
     act_bind (act_check (case seen of None \<Rightarrow> False | Some rules \<Rightarrow> py_eq (JList rules) (JList objs))
                (ValueErr ''Auto firewall verification failed'')) (\<lambda>_.
     save sys (state_json st) JNull)))))))))"

definition truthy :: "json \<Rightarrow> bool" where
  "truthy v \<longleftrightarrow> v \<notin> {JNull, JBool False, JInt 0, JStr [], JList [], JObj []}"

definition blocked_policy :: "json \<Rightarrow> (guard_error, gstate) res" where
  "blocked_policy selected = policy (JStr ''blocked'') selected (JInt 0) (JBool False)"

text \<open>The validation of a journal found on disk.\<close>

definition check_pending :: "json \<Rightarrow> (guard_error, unit) res" where
  "check_pending pend =
     (if pend = JNull then Inr ()
      else bind_res (check (has_fields {''operation'', ''state''} {} pend) (ValueErr ''Invalid pending Auto operation'')) (\<lambda>_.
           bind_res (field pend ''operation'') (\<lambda>op.
           if op = JStr ''apply'' then bind_res (field pend ''state'') (\<lambda>st. bind_res (policy_kw st) (\<lambda>_. Inr ()))
           else check (py_eq pend (JObj [(''operation'', JStr ''release''), (''state'', JNull)])) (ValueErr ''Invalid pending Auto operation''))))"

definition check_journal :: "int \<Rightarrow> string \<Rightarrow> json \<Rightarrow> (guard_error, unit) res" where
  "check_journal uid generation v =
     bind_res (check (has_fields {''schema'', ''uid'', ''generation'', ''current'', ''pending''} {} v \<and>
                      jget v ''schema'' = Some (JInt 1) \<and> jget v ''uid'' = Some (JInt uid) \<and>
                      jget v ''generation'' = Some (JStr generation)) (ValueErr ''Auto journal owner mismatch'')) (\<lambda>_.
     bind_res (field v ''current'') (\<lambda>current.
     bind_res (if current = JNull then Inr () else bind_res (policy_kw current) (\<lambda>_. Inr ())) (\<lambda>_.
     bind_res (field v ''pending'') check_pending)))"

definition load_record :: "'w nft_sys \<Rightarrow> ('w, unit) gact" where
  "load_record sys = (\<lambda>s. case private_read s of
     (Inl FileMissing, s) \<Rightarrow>
       act_bind (on_world (ns_read sys)) (\<lambda>r.
       act_bind (act_check (r = None) (ValueErr ''Auto firewall namespace occupied'')) (\<lambda>_. save sys JNull JNull)) s
   | (Inl e, s) \<Rightarrow> (Inl e, s)
   | (Inr v, s) \<Rightarrow>
       act_bind (act_lift (check_journal (gd_uid s) (gd_generation s) v)) (\<lambda>_.
       act_put (\<lambda>s. s\<lparr>gd_record := Some v\<rparr>)) s)"

definition previous_selected :: "json \<Rightarrow> json \<Rightarrow> (guard_error, json) res" where
  "previous_selected current pend =
     bind_res (if truthy pend then field pend ''state'' else Inr JNull) (\<lambda>st.
     let previous = (if truthy st then st else current)
     in if truthy previous then field previous ''selected'' else Inr JNull)"

definition acquire :: "'w nft_sys \<Rightarrow> ('w, unit) gact" where
  "acquire sys =
     act_bind (act_get id) (\<lambda>s.
     act_bind (act_check (gd_open s \<and> gd_record s = None) (ValueErr ''Auto guard already acquired or closed'')) (\<lambda>_.
     act_bind (load_record sys) (\<lambda>_.
     act_bind (read_owned sys True) (\<lambda>_.
     act_bind (record_field ''pending'') (\<lambda>pend.
     act_bind (record_field ''current'') (\<lambda>current.
     act_bind (act_lift (bind_res (previous_selected current pend) blocked_policy)) (apply_state sys)))))))"

definition no_pending :: "string \<Rightarrow> ('w, unit) gact" where
  "no_pending m = act_bind (record_field ''pending'') (\<lambda>pend. act_check (pend = JNull) (ValueErr m))"

definition block :: "'w nft_sys \<Rightarrow> ('w, unit) gact" where
  "block sys =
     act_bind owned (\<lambda>_.
     act_bind (no_pending ''Auto pending operation requires recovery'') (\<lambda>_.
     act_bind (record_field ''current'') (\<lambda>current.
     act_bind (act_lift (bind_res (field current ''selected'') blocked_policy)) (apply_state sys))))"

fun link_named :: "json \<Rightarrow> json list \<Rightarrow> (guard_error, bool) res" where
  "link_named name [] = Inr False"
| "link_named name (l # ls) = (case l of
     JObj kvs \<Rightarrow> if py_eq (case map_of kvs ''ifname'' of None \<Rightarrow> JNull | Some n \<Rightarrow> n) name then Inr True else link_named name ls
   | _ \<Rightarrow> Inl BadType)"

definition absent :: "'w nft_sys \<Rightarrow> json \<Rightarrow> ('w, unit) gact" where
  "absent sys selected =
     (if \<not> truthy selected then act_return ()
      else act_bind (on_world (ns_links sys)) (\<lambda>links.
           act_bind (act_lift (bind_res (link_list links) (\<lambda>ls.
             if ls = [] then Inr False else bind_res (field selected ''interface'') (\<lambda>n. link_named n ls)))) (\<lambda>found.
           act_check (\<not> found) (ValueErr ''Auto candidate cleanup not complete''))))"

definition in_mode :: "string \<Rightarrow> string \<Rightarrow> ('w, json) gact" where
  "in_mode mode m =
     act_bind (no_pending m) (\<lambda>_.
     act_bind (record_field ''current'') (\<lambda>current.
     act_bind (act_lift (field current ''mode'')) (\<lambda>cm.
     act_bind (act_check (cm = JStr mode) (ValueErr m)) (\<lambda>_. act_return current))))"

definition prepare :: "'w nft_sys \<Rightarrow> json \<Rightarrow> ('w, unit) gact" where
  "prepare sys selected =
     act_bind (act_lift (policy (JStr ''probe'') selected (JInt 0) (JBool False))) (\<lambda>next_state.
     act_bind owned (\<lambda>_.
     act_bind (in_mode ''blocked'' ''Block Auto before preparing a candidate'') (\<lambda>current.
     act_bind (act_lift (field current ''selected'')) (\<lambda>old.
     act_bind (absent sys old) (\<lambda>_.
     act_bind (absent sys selected) (\<lambda>_. apply_state sys next_state))))))"

definition live_tun :: "gstate \<Rightarrow> gcand \<Rightarrow> json list \<Rightarrow> (guard_error, bool) res" where
  "live_tun st c links = (if \<not> list_all is_obj links then Inl BadType else
     case filter (\<lambda>l. jget l ''ifname'' = Some (JStr (gc_interface c))) links of
       [l] \<Rightarrow>
         (if \<not> py_eq (case jget l ''ifindex'' of None \<Rightarrow> JNull | Some i \<Rightarrow> i) (JInt (gs_index st)) then Inr False
          else case (case jget l ''flags'' of None \<Rightarrow> JList [] | Some f \<Rightarrow> f) of
            JList flags \<Rightarrow>
              if JStr ''UP'' \<notin> set flags then Inr False
              else (case (case jget l ''linkinfo'' of None \<Rightarrow> JObj [] | Some i \<Rightarrow> i) of
                JObj info \<Rightarrow> Inr (map_of info ''info_kind'' \<in>
                  Some ` JStr ` (if gc_kind c = Awg then {''tun'', ''wireguard''} else {''tun''}))
              | _ \<Rightarrow> Inl BadType)
          | _ \<Rightarrow> Inl BadType)
     | _ \<Rightarrow> Inr False)"

definition verify_tun :: "'w nft_sys \<Rightarrow> gstate \<Rightarrow> ('w, unit) gact" where
  "verify_tun sys st = (case gs_selected st of
     None \<Rightarrow> act_raise BadType
   | Some c \<Rightarrow>
       act_bind (on_world (ns_links sys)) (\<lambda>links.
       act_bind (act_lift (bind_res (link_list links) (live_tun st c))) (\<lambda>ok.
       act_check ok (ValueErr ''Auto packet interface is not a live TUN''))))"

definition ready :: "'w nft_sys \<Rightarrow> json \<Rightarrow> json \<Rightarrow> ('w, unit) gact" where
  "ready sys index ipv6 =
     act_bind owned (\<lambda>_.
     act_bind (in_mode ''probe'' ''Auto candidate not preparing'') (\<lambda>current.
     act_bind (act_lift (bind_res (field current ''selected'') (\<lambda>sel. policy (JStr ''ready'') sel index ipv6))) (\<lambda>next_state.
     act_bind (verify_tun sys next_state) (\<lambda>_. apply_state sys next_state))))"

definition release :: "'w nft_sys \<Rightarrow> ('w, unit) gact" where
  "release sys =
     act_bind owned (\<lambda>_.
     act_bind (in_mode ''blocked'' ''Block Auto before release'') (\<lambda>current.
     act_bind (act_lift (field current ''selected'')) (\<lambda>old.
     act_bind (absent sys old) (\<lambda>_.
     act_bind (read_owned sys True) (\<lambda>actual.
     act_bind (save sys current (JObj [(''operation'', JStr ''release''), (''state'', JNull)])) (\<lambda>_.
     act_bind (if actual = None then act_return () else on_world (ns_apply sys [delete_table])) (\<lambda>_.
     act_bind (on_world (ns_read sys)) (\<lambda>seen.
     act_bind (act_check (seen = None) (ValueErr ''Auto firewall release not verified'')) (\<lambda>_.
     act_bind (store_file sys None) (\<lambda>_. act_put (\<lambda>s. s\<lparr>gd_record := None\<rparr>)))))))))))"

definition snapshot :: "'w nft_sys \<Rightarrow> ('w, json) gact" where
  "snapshot sys =
     act_bind owned (\<lambda>_.
     act_bind (no_pending ''Auto pending operation requires recovery'') (\<lambda>_.
     act_bind (record_field ''current'') (\<lambda>current.
     act_bind (act_check (current \<noteq> JNull) (ValueErr ''Auto pending operation requires recovery'')) (\<lambda>_.
     act_bind (read_owned sys False) (\<lambda>_.
     act_bind (act_lift (field current ''mode'')) (\<lambda>m.
     act_bind (if m = JStr ''ready'' then act_bind (act_lift (policy_kw current)) (verify_tun sys) else act_return ()) (\<lambda>_.
     act_bind (act_get gd_record) (\<lambda>r. act_lift (case r of None \<Rightarrow> Inl BadType | Some v \<Rightarrow> Inr v)))))))))"

definition open_guard :: "int \<Rightarrow> string \<Rightarrow> json option \<Rightarrow> 'w \<Rightarrow> (guard_error, 'w guard) res" where
  "open_guard uid generation file w =
     bind_res (check (1 \<le> uid \<and> uid \<le> 2 ^ 31 - 1) (ValueErr ''Root Auto owner required'')) (\<lambda>_.
     bind_res (objects generation (JObj [])) (\<lambda>_.
     Inr \<lparr>gd_uid = uid, gd_generation = generation, gd_open = True, gd_record = None, gd_file = file, gd_world = w\<rparr>))"

definition close :: "'w guard \<Rightarrow> 'w guard" where
  "close s = s\<lparr>gd_open := False\<rparr>"

end
