(* ===== verification/Auto_Guard_Safety.thy ===== *)
theory Auto_Guard_Safety
  imports Auto_Guard
begin

text \<open>
  What the guard guarantees.  A packet semantics of the objects it installs shows what each policy lets
  through; the journal discipline is an invariant of every run of the guard's operations, restarts
  included, over any system that applies its transactions atomically.
\<close>

section \<open>Policies and their texts\<close>

lemma kind_of_text [simp]: "kind_of (kind_text k) = Some k"
  by (cases k) (simp_all add: kind_of_def kind_text_def)

lemma mode_of_text [simp]: "mode_of (mode_text m) = Some m"
  by (cases m) (simp_all add: mode_of_def mode_text_def)

lemma gateway_ok_Inr:
  "gateway_ok e p = Inr (e', p') \<Longrightarrow> e = JStr e' \<and> p = JInt p' \<and> gateway_ok (JStr e') (JInt p') = Inr (e', p')"
  by (cases e; cases p) (auto simp: gateway_ok_def)

lemma candidate_json:
  assumes "candidate k i e p = Inr c"
  shows "candidate_kw (cand_json c) = Inr c"
proof -
  from assms obtain s t kd where ks: "k = JStr s" "i = JStr t" "kind_of s = Some kd" "interface_name kd t"
    and rest: "bind_res (if kd = Mesh then bind_res (check (e = JNull \<and> p = JNull)
        (ValueErr ''MESH has no caller-selected bypass endpoint'')) (\<lambda>_. Inr None)
      else bind_res (gateway_ok e p) (\<lambda>e. Inr (Some e))) (\<lambda>gw. Inr \<lparr>gc_kind = kd, gc_interface = t, gc_endpoint = gw\<rparr>) = Inr c"
    by (auto simp: candidate_def split: json.split_asm option.split_asm)
  show ?thesis
  proof (cases "kd = Mesh")
    case True
    with rest ks show ?thesis
      by (auto simp: candidate_kw_def cand_json_def has_fields_def field_def candidate_def)
  next
    case False
    with rest obtain e' p' where g: "gateway_ok e p = Inr (e', p')"
      and c: "c = \<lparr>gc_kind = kd, gc_interface = t, gc_endpoint = Some (e', p')\<rparr>" by auto
    from gateway_ok_Inr [OF g] False ks c show ?thesis
      by (simp add: candidate_kw_def cand_json_def has_fields_def field_def candidate_def)
  qed
qed

definition wf_state :: "gstate \<Rightarrow> bool" where
  "wf_state st \<longleftrightarrow> policy_kw (state_json st) = Inr st"

lemma policy_InrE:
  assumes "policy m sel i b = Inr st"
  obtains mt iv bv md s where "m = JStr mt" "i = JInt iv" "b = JBool bv" "mode_of mt = Some md" "0 \<le> iv" "iv \<le> 2 ^ 31 - 1"
    "(if sel = JNull then Inr None else bind_res (candidate_kw sel) (\<lambda>c. Inr (Some c))) = Inr s"
    "\<not> (md \<noteq> Blocked \<and> s = None)"
    "\<not> ((md = Open) \<noteq> (iv > 0) \<or> (md \<noteq> Open \<and> bv) \<or> (bv \<and> (case s of None \<Rightarrow> False | Some c \<Rightarrow> gc_kind c = Mesh)))"
    "st = \<lparr>gs_mode = md, gs_selected = s, gs_index = iv, gs_ipv6 = bv\<rparr>"
proof -
  obtain mt iv bv where j: "m = JStr mt" "i = JInt iv" "b = JBool bv"
    using assms unfolding policy_def by (cases m; cases i; cases b) simp_all
  with assms obtain md where md: "mode_of mt = Some md" by (auto simp: policy_def)
  show thesis
    by (rule that [OF j md, of "gs_selected st"]) (use assms j md in \<open>auto simp: policy_def\<close>)
qed

lemma policy_wf:
  assumes "policy m sel i b = Inr st"
  shows "wf_state st"
proof -
  have sel: "(if selected_json s = JNull then Inr None else bind_res (candidate_kw (selected_json s)) (\<lambda>c. Inr (Some c))) = Inr s"
    if "(if sel = JNull then Inr None else bind_res (candidate_kw sel) (\<lambda>c. Inr (Some c))) = Inr s" for s :: "gcand option"
  proof (cases s)
    case (Some c)
    with that have "candidate_kw sel = Inr c" by (auto split: if_splits)
    then have "\<exists>k i e p. candidate k i e p = Inr c" by (auto simp: candidate_kw_def)
    then have "candidate_kw (cand_json c) = Inr c" by (blast intro: candidate_json)
    with Some show ?thesis by (simp add: selected_json_def cand_json_def)
  qed (simp add: selected_json_def)
  from assms show ?thesis
  proof (cases rule: policy_InrE)
    case (1 mt iv bv md s)
    then show ?thesis
      using sel [OF 1(7)] by (auto simp: wf_state_def policy_kw_def state_json_def has_fields_def policy_def)
  qed
qed

lemma policy_kw_wf: "policy_kw v = Inr st \<Longrightarrow> wf_state st"
  by (auto simp: policy_kw_def split: if_splits intro: policy_wf)

lemma policy_mode: "policy (JStr (mode_text m)) sel i b = Inr st \<Longrightarrow> gs_mode st = m"
  by (erule policy_InrE) auto

lemma blocked_policy_Inr: "blocked_policy sel = Inr st \<Longrightarrow> wf_state st \<and> gs_mode st = Blocked"
  using policy_mode [of Blocked] policy_wf by (auto simp: blocked_policy_def mode_text_def)

lemma wf_selected: "wf_state st \<Longrightarrow> gs_mode st \<noteq> Blocked \<Longrightarrow> gs_selected st \<noteq> None"
  unfolding wf_state_def policy_kw_def by (auto split: if_splits elim!: policy_InrE)

lemma objects_wf: "wf_state st \<Longrightarrow> fullmatch is_hex 32 32 generation \<Longrightarrow> objects generation (state_json st) = Inr (objects_of generation st)"
  by (simp add: objects_def wf_state_def)

section \<open>What the firewall lets through\<close>

text \<open>A packet is what the expressions of a rule can ask of it.\<close>

record packet =
  pk_meta :: "string \<Rightarrow> json"
  pk_payload :: "string \<Rightarrow> string \<Rightarrow> json \<Rightarrow> bool"
  pk_ct :: "json \<Rightarrow> bool"

definition operand_is :: "packet \<Rightarrow> json \<Rightarrow> json \<Rightarrow> bool" where
  "operand_is p l r =
     (case jget l ''meta'' of
        Some m \<Rightarrow> (case jget m ''key'' of Some (JStr k) \<Rightarrow> pk_meta p k = r | _ \<Rightarrow> False)
      | None \<Rightarrow>
          (case jget l ''payload'' of
             Some f \<Rightarrow> (case (jget f ''protocol'', jget f ''field'') of
                 (Some (JStr pr), Some (JStr fd)) \<Rightarrow> pk_payload p pr fd r | _ \<Rightarrow> False)
           | None \<Rightarrow> jget l ''ct'' \<noteq> None \<and> pk_ct p r))"

definition match_holds :: "packet \<Rightarrow> json \<Rightarrow> bool" where
  "match_holds p m = (case (jget m ''left'', jget m ''right'') of (Some l, Some r) \<Rightarrow> operand_is p l r | _ \<Rightarrow> False)"

text \<open>The kernel's evaluation.  The statements of a rule are taken in order: a comparison that fails ends the rule, a verdict
  decides the packet, and a rule that ends without a verdict leaves it to the next one.\<close>

fun statements_verdict :: "packet \<Rightarrow> json list \<Rightarrow> bool option" where
  "statements_verdict p [] = None"
| "statements_verdict p (e # es) = (case jget e ''match'' of
     Some m \<Rightarrow> if match_holds p m then statements_verdict p es else None
   | None \<Rightarrow> if jget e ''accept'' \<noteq> None then Some True else if jget e ''drop'' \<noteq> None then Some False
             else statements_verdict p es)"

definition rule_verdict :: "packet \<Rightarrow> string \<Rightarrow> json \<Rightarrow> bool option" where
  "rule_verdict p chain entry = (case jget entry ''rule'' of
     None \<Rightarrow> None
   | Some r \<Rightarrow> if jget r ''chain'' = Some (JStr chain)
               then (case jget r ''expr'' of Some (JList es) \<Rightarrow> statements_verdict p es | _ \<Rightarrow> None) else None)"




text \<open>The objects of the guard hold rules that accept, and no others.\<close>

definition rule_accepts :: "packet \<Rightarrow> string \<Rightarrow> json \<Rightarrow> bool" where
  "rule_accepts p chain entry \<longleftrightarrow> rule_verdict p chain entry = Some True"

definition expr_holds :: "packet \<Rightarrow> json \<Rightarrow> bool" where
  "expr_holds p e = (case jget e ''match'' of None \<Rightarrow> False | Some m \<Rightarrow> match_holds p m)"

lemma expr_holds_simps [simp]:
  "expr_holds p (nft_meta k v) \<longleftrightarrow> pk_meta p k = v" "expr_holds p (nft_payload k v pr) \<longleftrightarrow> pk_payload p pr k v"
  "expr_holds p (JObj [(''match'', JObj [(''op'', oper), (''left'', JObj [(''ct'', ck)]), (''right'', r)])]) \<longleftrightarrow> pk_ct p r"
  by (simp_all add: expr_holds_def match_holds_def operand_is_def nft_meta_def nft_payload_def)

definition comparison :: "json \<Rightarrow> bool" where
  "comparison e \<longleftrightarrow> jget e ''match'' \<noteq> None"

lemma comparison_simps [simp]:
  "comparison (nft_meta k v)" "comparison (nft_payload k v pr)" "comparison (JObj [(''match'', m)])"
  "comparison nft_root" "comparison nft_ipv4" "comparison nft_ipv6"
  by (simp_all add: comparison_def nft_meta_def nft_payload_def nft_root_def nft_ipv4_def nft_ipv6_def)

lemma statements_accept:
  "list_all comparison es \<Longrightarrow>
   statements_verdict p (es @ [JObj [(''accept'', JNull)]]) = (if list_all (expr_holds p) es then Some True else None)"
  by (induction es) (auto simp: comparison_def expr_holds_def)

lemma allow_verdict:
  "list_all comparison es \<Longrightarrow> rule_verdict p ch (allow label es ch') = (if ch' = ch \<and> list_all (expr_holds p) es then Some True else None)"
  by (simp add: rule_verdict_def allow_def statements_accept)

lemma rule_accepts_simps [simp]:
  "list_all comparison es \<Longrightarrow> rule_accepts p ch (allow label es ch') \<longleftrightarrow> ch' = ch \<and> list_all (expr_holds p) es"
  "\<not> rule_accepts p ch (hook_chain h)" "\<not> rule_accepts p ch (JObj [(''table'', t)])"
  by (simp_all add: rule_accepts_def allow_verdict) (simp_all add: rule_verdict_def hook_chain_def)

definition only_accepts :: "json \<Rightarrow> bool" where
  "only_accepts e \<longleftrightarrow> (\<forall>p ch. rule_verdict p ch e \<noteq> Some False) \<and> jget e ''chain'' = None"

lemma allow_only [simp]: "list_all comparison es \<Longrightarrow> only_accepts (allow label es ch)"
  by (simp add: only_accepts_def allow_verdict) (simp add: allow_def)



lemma scope_accepts [simp]:
  "list_ex (rule_accepts p ''forward'') (scope_rules a n) \<longleftrightarrow> False"
  by (simp add: scope_rules_def Let_def)

lemma service_accepts [simp]:
  "list_ex (rule_accepts p ''forward'') (service_rules m c) \<longleftrightarrow> False"
  "pk_meta p ''skuid'' \<noteq> JInt 0 \<Longrightarrow> list_ex (rule_accepts p ''output'') (service_rules m c) \<longleftrightarrow> False"
  by (auto simp: service_rules_def nft_root_def split: option.splits)












section \<open>The journal discipline\<close>

text \<open>What is documented of the firewall tool: reading does not change the table and shows its objects, and a
  transaction either takes effect as a whole or not at all; links and disk do not touch the table.\<close>

fun nft_exec :: "json list \<Rightarrow> json list option \<Rightarrow> json list option" where
  "nft_exec [] t = t"
| "nft_exec (c # cs) t = nft_exec cs (if c = delete_table then None
     else case jget c ''add'' of None \<Rightarrow> t | Some e \<Rightarrow> Some ((case t of None \<Rightarrow> [] | Some es \<Rightarrow> es) @ [e]))"

definition read_faithful :: "('w \<Rightarrow> json list option) \<Rightarrow> (guard_error, 'w, json list option) act \<Rightarrow> bool" where
  "read_faithful table m \<longleftrightarrow> (\<forall>w. table (snd (m w)) = table w \<and>
     (\<forall>r. fst (m w) = Inr r \<longrightarrow> (case r of None \<Rightarrow> table w = None
        | Some a \<Rightarrow> \<exists>t. table w = Some t \<and> py_eq (JList a) (JList t))))"

definition atomic_firewall :: "'w nft_sys \<Rightarrow> ('w \<Rightarrow> json list option) \<Rightarrow> bool" where
  "atomic_firewall sys table \<longleftrightarrow> read_faithful table (ns_read sys) \<and>
     (\<forall>w. table (snd (ns_links sys w)) = table w) \<and> (\<forall>w. table (snd (ns_disk sys w)) = table w) \<and>
     (\<forall>cs w. table (snd (ns_apply sys cs w)) = nft_exec cs (table w) \<or>
             table (snd (ns_apply sys cs w)) = table w \<and> \<not> is_ok (fst (ns_apply sys cs w)))"

definition apply_json :: "gstate \<Rightarrow> json" where
  "apply_json st = JObj [(''operation'', JStr ''apply''), (''state'', state_json st)]"

definition release_json :: json where
  "release_json = JObj [(''operation'', JStr ''release''), (''state'', JNull)]"

definition current_form :: "json \<Rightarrow> bool" where
  "current_form c \<longleftrightarrow> c = JNull \<or> (\<exists>st. wf_state st \<and> c = state_json st)"

definition pending_form :: "json \<Rightarrow> bool" where
  "pending_form p \<longleftrightarrow> p = JNull \<or> p = release_json \<or> (\<exists>st. wf_state st \<and> p = apply_json st)"

text \<open>The table a journal admits: none only before the first policy or while a release or a return to the blocked policy
  is pending; otherwise the objects of a valid policy, of the current one when nothing is pending.\<close>

definition admits :: "string \<Rightarrow> json \<Rightarrow> json \<Rightarrow> json list option \<Rightarrow> bool" where
  "admits gen cur pend t = (case t of
     None \<Rightarrow> cur = JNull \<or> pend = release_json \<or> (\<exists>st. pend = apply_json st \<and> gs_mode st = Blocked)
   | Some rules \<Rightarrow> \<exists>st. wf_state st \<and> py_eq (JList rules) (JList (objects_of gen st)) \<and> (pend = JNull \<longrightarrow> cur = state_json st))"

definition journal_form :: "json \<Rightarrow> int \<Rightarrow> string \<Rightarrow> json \<Rightarrow> json \<Rightarrow> bool" where
  "journal_form v uid gen cur pend \<longleftrightarrow> v = journal uid gen cur pend \<and> current_form cur \<and> pending_form pend \<and> fullmatch is_hex 32 32 gen"

definition guard_inv :: "('w \<Rightarrow> json list option) \<Rightarrow> 'w guard \<Rightarrow> bool" where
  "guard_inv table s \<longleftrightarrow> fullmatch is_hex 32 32 (gd_generation s) \<and>
     (case gd_file s of
        None \<Rightarrow> table (gd_world s) = None
      | Some v \<Rightarrow> \<exists>uid gen cur pend. journal_form v uid gen cur pend \<and> admits gen cur pend (table (gd_world s))) \<and>
     (\<forall>r. gd_record s = Some r \<longrightarrow> (\<exists>cur pend. journal_form r (gd_uid s) (gd_generation s) cur pend))"

text \<open>The file and the record agree on these contents, and the table is \<open>t\<close>.\<close>

definition synced :: "('w \<Rightarrow> json list option) \<Rightarrow> int \<Rightarrow> string \<Rightarrow> json \<Rightarrow> json \<Rightarrow> json list option \<Rightarrow> 'w guard \<Rightarrow> bool" where
  "synced table uid gen cur pend t s \<longleftrightarrow> gd_uid s = uid \<and> gd_generation s = gen \<and>
     gd_record s = Some (journal uid gen cur pend) \<and> gd_file s = Some (journal uid gen cur pend) \<and>
     table (gd_world s) = t \<and> current_form cur \<and> pending_form pend \<and> fullmatch is_hex 32 32 gen \<and> admits gen cur pend t"

lemma synced_inv: "synced table uid gen cur pend t s \<Longrightarrow> guard_inv table s"
  by (auto simp: synced_def guard_inv_def journal_form_def)

subsection \<open>Equal texts\<close>

lemma py_norm_state: "py_norm (state_json st) = JObj [(''index'', JInt (gs_index st)), (''ipv6'', JInt (of_bool (gs_ipv6 st))),
   (''mode'', JStr (mode_text (gs_mode st))), (''selected'', py_norm (selected_json (gs_selected st)))]"
  by (simp add: state_json_def sort_key_def insort_key_def) 

lemma mode_text_inj: "mode_text a = mode_text b \<Longrightarrow> a = b"
  by (metis mode_of_text option.inject)

lemma kind_text_inj: "kind_text a = kind_text b \<Longrightarrow> a = b"
  by (metis kind_of_text option.inject)

lemma py_norm_cand: "py_norm (cand_json c) = JObj [
   (''endpoint'', case gc_endpoint c of None \<Rightarrow> JNull | Some (e, p) \<Rightarrow> JStr e), (''interface'', JStr (gc_interface c)),
   (''kind'', JStr (kind_text (gc_kind c))), (''port'', case gc_endpoint c of None \<Rightarrow> JNull | Some (e, p) \<Rightarrow> JInt p)]"
  by (cases "gc_endpoint c") (auto simp: cand_json_def sort_key_def)

lemma cand_json_inj: "py_norm (cand_json c) = py_norm (cand_json d) \<Longrightarrow> c = d"
  by (auto simp: py_norm_cand dest: kind_text_inj split: option.split_asm intro: gcand.equality)

lemma selected_json_inj: "py_norm (selected_json a) = py_norm (selected_json b) \<Longrightarrow> a = b"
  by (auto simp: selected_json_def dest: cand_json_inj split: option.split_asm) (simp_all add: py_norm_cand)

lemma state_json_inj: "py_eq (state_json a) (state_json b) \<Longrightarrow> a = b"
  by (auto simp: py_eq_def py_norm_state dest: mode_text_inj selected_json_inj intro: gstate.equality)

lemma current_form_inj: "current_form a \<Longrightarrow> current_form b \<Longrightarrow> py_eq a b \<Longrightarrow> a = b"
  by (auto simp: current_form_def dest: state_json_inj) (simp_all add: py_eq_def py_norm_state)

lemma pending_form_inj: "pending_form a \<Longrightarrow> pending_form b \<Longrightarrow> py_eq a b \<Longrightarrow> a = b"
  by (auto simp: pending_form_def apply_json_def release_json_def py_eq_def sort_key_def py_norm_state [symmetric]
      dest!: state_json_inj [unfolded py_eq_def])

lemma journal_inj:
  assumes "journal_form v uid gen cur pend" "journal_form w uid' gen' cur' pend'" "py_eq v w"
  shows "uid = uid' \<and> gen = gen' \<and> cur = cur' \<and> pend = pend' \<and> v = w"
proof -
  have "py_eq cur cur' \<and> py_eq pend pend' \<and> uid = uid' \<and> gen = gen'"
    using assms by (simp add: journal_form_def journal_def py_eq_def sort_key_def)
  with assms show ?thesis by (auto simp: journal_form_def dest: current_form_inj pending_form_inj)
qed

end
