(* ===== verification/Auto_Guard_Journal.thy ===== *)
theory Auto_Guard_Journal
  imports Auto_Guard_Safety Transition_Systems
begin

text \<open>
  The journal discipline of the guard as an invariant: after every operation, returned or raised, and across
  restarts, the firewall holds what the journal on disk admits.
\<close>

section \<open>Actions that leave the table alone\<close>

lemma triple_ex: "(\<And>x. triple (P x) m Q E) \<Longrightarrow> triple (\<lambda>s. \<exists>x. P x s) m Q E"
  by (auto simp: triple_def)

definition kept :: "('w \<Rightarrow> json list option) \<Rightarrow> json list option \<Rightarrow> 'w guard \<Rightarrow> bool" where
  "kept table t s \<longleftrightarrow> guard_inv table s \<and> (t \<noteq> None \<longrightarrow> table (gd_world s) \<noteq> None)"

lemma synced_kept: "synced table uid gen cur pend t s \<Longrightarrow> kept table t s"
  by (auto simp: kept_def synced_inv) (simp add: synced_def)

lemma synced_world [simp]:
  "table w = table (gd_world s) \<Longrightarrow> synced table uid gen cur pend t (s\<lparr>gd_world := w\<rparr>) = synced table uid gen cur pend t s"
  by (simp add: synced_def)

lemma guard_inv_world:
  "table w = table (gd_world s) \<Longrightarrow> guard_inv table (s\<lparr>gd_world := w\<rparr>) = guard_inv table s"
  by (cases "gd_file s") (simp_all add: guard_inv_def)

lemma on_world_eq: "on_world m s = (fst (m (gd_world s)), s\<lparr>gd_world := snd (m (gd_world s))\<rparr>)"
  by (simp add: on_world_def split: prod.split)

lemma triple_world:
  assumes "\<And>s. P s \<Longrightarrow> P (s\<lparr>gd_world := snd (m (gd_world s))\<rparr>)"
  shows "triple P (on_world m) (\<lambda>x s. P s) P"
  using assms by (auto simp: triple_def on_world_eq after_def split: sum.split)

lemma triple_read:
  assumes "atomic_firewall sys table"
  shows "triple (synced table uid gen cur pend t) (on_world (ns_read sys))
    (\<lambda>r s. synced table uid gen cur pend t s \<and> (r = None \<longleftrightarrow> t = None) \<and>
       (\<forall>a b. r = Some a \<longrightarrow> t = Some b \<longrightarrow> py_eq (JList a) (JList b))) (kept table t)"
proof (rule tripleI)
  fix s assume s: "synced table uid gen cur pend t s"
  let ?w = "snd (ns_read sys (gd_world s))"
  have rf: "read_faithful table (ns_read sys)" using assms by (simp add: atomic_firewall_def)
  then have w: "table ?w = table (gd_world s)" by (simp add: read_faithful_def)
  with s have s': "synced table uid gen cur pend t (s\<lparr>gd_world := ?w\<rparr>)" by simp
  have t: "table (gd_world s) = t" using s by (simp add: synced_def)
  show "after (\<lambda>r s. synced table uid gen cur pend t s \<and> (r = None \<longleftrightarrow> t = None) \<and>
       (\<forall>a b. r = Some a \<longrightarrow> t = Some b \<longrightarrow> py_eq (JList a) (JList b))) (kept table t) (on_world (ns_read sys) s)"
  proof (cases "fst (ns_read sys (gd_world s))")
    case (Inl e)
    with synced_kept [OF s'] show ?thesis by (simp add: on_world_eq)
  next
    case (Inr r)
    with rf have "case r of None \<Rightarrow> table (gd_world s) = None | Some a \<Rightarrow> \<exists>t. table (gd_world s) = Some t \<and> py_eq (JList a) (JList t)"
      unfolding read_faithful_def by blast
    with Inr s' t show ?thesis by (auto simp: on_world_eq split: option.splits)
  qed
qed

lemma triple_links:
  assumes "atomic_firewall sys table"
  shows "triple (synced table uid gen cur pend t) (on_world (ns_links sys)) (\<lambda>_. synced table uid gen cur pend t) (kept table t)"
proof -
  have "triple (synced table uid gen cur pend t) (on_world (ns_links sys)) (\<lambda>_. synced table uid gen cur pend t) (synced table uid gen cur pend t)"
    using assms by (intro triple_world) (simp add: atomic_firewall_def)
  then show ?thesis by (rule triple_weaken) (auto intro: synced_kept)
qed

lemma field_journal [simp]:
  "field (journal uid gen cur pend) ''current'' = Inr cur" "field (journal uid gen cur pend) ''pending'' = Inr pend"
  by (simp_all add: field_def journal_def)

lemma field_simps [simp]:
  "field (apply_json st) ''state'' = Inr (state_json st)" "field release_json ''state'' = Inr JNull"
  "field (state_json st) ''selected'' = Inr (selected_json (gs_selected st))"
  "field (state_json st) ''mode'' = Inr (JStr (mode_text (gs_mode st)))"
  by (simp_all add: field_def apply_json_def release_json_def state_json_def)

lemma triple_record [triple_rules]:
  "triple (synced table uid gen cur pend t) (record_field ''current'') (\<lambda>x s. x = cur \<and> synced table uid gen cur pend t s) E"
  "triple (synced table uid gen cur pend t) (record_field ''pending'') (\<lambda>x s. x = pend \<and> synced table uid gen cur pend t s) E"
  by (auto simp: triple_def record_field_def act_bind_def synced_def)

lemma triple_generation [triple_rules]:
  "triple (synced table uid gen cur pend t) (act_get gd_generation) (\<lambda>x s. x = gen \<and> synced table uid gen cur pend t s) E"
  by (auto simp: triple_def synced_def)

text \<open>A fact about the value an action returned, moved out of the precondition.\<close>

lemma triple_fact: "(A \<Longrightarrow> triple P m Q E) \<Longrightarrow> triple (\<lambda>s. A \<and> P s) m Q E"
  by (auto simp: triple_def)

lemma triple_fact': "(A \<Longrightarrow> triple P m Q E) \<Longrightarrow> triple (\<lambda>s. P s \<and> A) m Q E"
  by (auto simp: triple_def)

lemma private_read_cases:
  "\<exists>r. private_read s = (r, s) \<and> (\<forall>v. r = Inr v \<longrightarrow> gd_file s = Some v) \<and> (r = Inl FileMissing \<longrightarrow> gd_file s = None)"
  by (cases "gd_file s") (auto simp: private_read_def act_bind_def check_def)

lemma triple_owned:
  "triple (guard_inv table) owned (\<lambda>_ s. \<exists>uid gen cur pend t. synced table uid gen cur pend t s) (guard_inv table)"
proof (rule tripleI)
  fix s assume inv: "guard_inv table s"
  obtain res where res: "private_read s = (res, s)" "\<forall>v. res = Inr v \<longrightarrow> gd_file s = Some v" using private_read_cases [of s] by blast
  show "after (\<lambda>_ s. \<exists>uid gen cur pend t. synced table uid gen cur pend t s) (guard_inv table) (owned s)"
  proof (cases "gd_record s")
    case None
    with inv show ?thesis by (simp add: owned_def act_bind_def)
  next
    case (Some r)
    show ?thesis
    proof (cases "gd_open s \<and> (\<exists>v. res = Inr v \<and> py_eq v r)")
      case False
      with Some inv res(1) show ?thesis by (auto simp: owned_def act_bind_def check_def split: sum.split)
    next
      case True
      then obtain v where v: "res = Inr v" "py_eq v r" "gd_open s" by blast
      with res have f: "gd_file s = Some v" by simp
      with inv obtain uid gen cur pend where vf: "journal_form v uid gen cur pend" "admits gen cur pend (table (gd_world s))"
        by (auto simp: guard_inv_def)
      from inv Some obtain cur' pend' where rf: "journal_form r (gd_uid s) (gd_generation s) cur' pend'"
        by (auto simp: guard_inv_def)
      from journal_inj [OF vf(1) rf v(2)] vf rf f Some
      have "synced table uid gen cur pend (table (gd_world s)) s" by (auto simp: synced_def journal_form_def)
      then have "\<exists>uid gen cur pend t. synced table uid gen cur pend t s" by blast
      with v Some res(1) show ?thesis by (simp add: owned_def act_bind_def)
    qed
  qed
qed

lemma triple_owned_synced [triple_rules]:
  "triple (synced table uid gen cur pend t) owned (\<lambda>_. synced table uid gen cur pend t) (kept table t)"
proof (rule tripleI)
  fix s assume s: "synced table uid gen cur pend t s"
  have "snd (owned s) = s" using private_read_cases [of s]
    by (auto simp: owned_def act_bind_def check_def split: option.split sum.split)
  then show "after (\<lambda>_. synced table uid gen cur pend t) (kept table t) (owned s)"
    using s synced_kept [OF s] by (cases "owned s") (auto simp: after_def split: sum.split)
qed

section \<open>Writes\<close>

lemma triple_save:
  assumes "atomic_firewall sys table" "current_form cur'" "pending_form pend'" "admits gen cur' pend' t"
  shows "triple (synced table uid gen cur pend t) (save sys cur' pend') (\<lambda>_. synced table uid gen cur' pend' t) (kept table t)"
proof (rule tripleI)
  fix s assume s: "synced table uid gen cur pend t s"
  obtain d w where d: "ns_disk sys (gd_world s) = (d, w)" by fastforce
  with assms(1) have w: "table w = t" using s by (metis atomic_firewall_def synced_def snd_conv)
  show "after (\<lambda>_. synced table uid gen cur' pend' t) (kept table t) (save sys cur' pend' s)"
    using s assms(2-4) d w
    by (cases d) (auto simp: save_def act_bind_def store_file_def Let_def synced_def kept_def guard_inv_def journal_form_def)
qed

lemma nft_exec_adds: "nft_exec (map add_object es) t = (if es = [] then t else Some ((case t of None \<Rightarrow> [] | Some x \<Rightarrow> x) @ es))"
  by (induction es arbitrary: t) (auto simp: add_object_def delete_table_def split: option.split)

lemma nft_exec_replace:
  "es \<noteq> [] \<Longrightarrow> nft_exec ((if t = None then [] else [delete_table]) @ map add_object es) t = Some es"
  by (auto simp: nft_exec_adds)

lemma triple_apply:
  assumes "atomic_firewall sys table" "wf_state st"
    and "t' = nft_exec cs t" "t' = Some (objects_of gen st)"
  shows "triple (synced table uid gen cur (apply_json st) t) (on_world (ns_apply sys cs))
    (\<lambda>_. synced table uid gen cur (apply_json st) t') (kept table t)"
proof (rule tripleI)
  fix s assume s: "synced table uid gen cur (apply_json st) t s"
  let ?w = "snd (ns_apply sys cs (gd_world s))"
  have t: "table (gd_world s) = t" using s by (simp add: synced_def)
  have applied: "synced table uid gen cur (apply_json st) t' (s\<lparr>gd_world := ?w\<rparr>)" if "table ?w = t'"
    using s that assms(2,4) by (auto simp: synced_def admits_def apply_json_def)
  have same: "synced table uid gen cur (apply_json st) t (s\<lparr>gd_world := ?w\<rparr>)" if "table ?w = t"
    using s that t by simp
  have "table ?w = t' \<or> table ?w = t \<and> \<not> is_ok (fst (ns_apply sys cs (gd_world s)))"
    using assms(1,3) t unfolding atomic_firewall_def by blast
  then show "after (\<lambda>_. synced table uid gen cur (apply_json st) t') (kept table t) (on_world (ns_apply sys cs) s)"
  proof
    assume w: "table ?w = t'"
    with applied synced_kept [OF applied] assms(4) show ?thesis
      by (cases "fst (ns_apply sys cs (gd_world s))") (auto simp: on_world_eq kept_def)
  next
    assume w: "table ?w = t \<and> \<not> is_ok (fst (ns_apply sys cs (gd_world s)))"
    then obtain e where "fst (ns_apply sys cs (gd_world s)) = Inl e" by (cases "fst (ns_apply sys cs (gd_world s))") auto
    with synced_kept [OF same] w show ?thesis by (simp add: on_world_eq)
  qed
qed

section \<open>Chains of actions\<close>

lemma bind_check: "(c \<Longrightarrow> triple P (f ()) Q E) \<Longrightarrow> (\<And>s. P s \<Longrightarrow> E s) \<Longrightarrow> triple P (act_bind (act_check c e) f) Q E"
  by (cases c) (auto simp: triple_def act_bind_def)

lemma bind_lift: "(\<And>x. r = Inr x \<Longrightarrow> triple P (f x) Q E) \<Longrightarrow> (\<And>s. P s \<Longrightarrow> E s) \<Longrightarrow> triple P (act_bind (act_lift r) f) Q E"
  by (cases r) (auto simp: triple_def act_bind_def)

lemma bind_record:
  "triple (synced table uid gen cur pend t) (f cur) Q E \<Longrightarrow>
   triple (synced table uid gen cur pend t) (act_bind (record_field ''current'') f) Q E"
  "triple (synced table uid gen cur pend t) (f pend) Q E \<Longrightarrow>
   triple (synced table uid gen cur pend t) (act_bind (record_field ''pending'') f) Q E"
  by (auto simp: triple_def record_field_def act_bind_def synced_def)

lemma bind_generation:
  "triple (synced table uid gen cur pend t) (f gen) Q E \<Longrightarrow> triple (synced table uid gen cur pend t) (act_bind (act_get gd_generation) f) Q E"
  by (auto simp: triple_def act_bind_def synced_def)

lemma bind_owned:
  "triple (synced table uid gen cur pend t) (f ()) Q (kept table t) \<Longrightarrow>
   triple (synced table uid gen cur pend t) (act_bind owned f) Q (kept table t)"
  by (rule triple_bind [OF triple_owned_synced]) simp

lemma bind_read:
  assumes "atomic_firewall sys table"
    and "\<And>r. r = None \<longleftrightarrow> t = None \<Longrightarrow> (\<And>a b. r = Some a \<Longrightarrow> t = Some b \<Longrightarrow> py_eq (JList a) (JList b)) \<Longrightarrow>
      triple (synced table uid gen cur pend t) (f r) Q (kept table t)"
  shows "triple (synced table uid gen cur pend t) (act_bind (on_world (ns_read sys)) f) Q (kept table t)"
  by (rule triple_bind [OF triple_read [OF assms(1)]], rule triple_fact') (rule assms(2); blast)

lemma no_pending_ok:
  "(pend = JNull \<Longrightarrow> triple (synced table uid gen cur pend t) (f ()) Q E) \<Longrightarrow> (\<And>s. synced table uid gen cur pend t s \<Longrightarrow> E s) \<Longrightarrow>
   triple (synced table uid gen cur pend t) (act_bind (no_pending m) f) Q E"
  by (cases "pend = JNull") (auto simp: no_pending_def triple_def record_field_def act_bind_def synced_def)

section \<open>Operations\<close>

lemma triple_read_owned:
  assumes fw: "atomic_firewall sys table"
  shows "triple (synced table uid gen cur pend t) (read_owned sys am)
    (\<lambda>r s. synced table uid gen cur pend t s \<and> (r = None \<longleftrightarrow> t = None) \<and> (t = None \<longrightarrow> cur = JNull \<or> am)) (kept table t)"
  unfolding read_owned_def
proof (rule bind_read [OF fw], rule bind_record, rule bind_check, rule bind_record, rule bind_lift, rule bind_generation)
  fix r :: "json list option" and choices
  assume r: "r = None \<longleftrightarrow> t = None" and c: "\<not> (r = None \<and> cur \<noteq> JNull \<and> \<not> am)"
  show "triple (synced table uid gen cur pend t)
     (case r of None \<Rightarrow> act_return None
      | Some rules \<Rightarrow> act_bind (act_lift (matches_choice gen rules choices))
          (\<lambda>ok. act_bind (act_check ok (ValueErr ''Auto firewall ownership mismatch'')) (\<lambda>_. act_return r)))
     (\<lambda>r s. synced table uid gen cur pend t s \<and> (r = None \<longleftrightarrow> t = None) \<and> (t = None \<longrightarrow> cur = JNull \<or> am)) (kept table t)"
  proof (cases r)
    case None
    with r c show ?thesis by (auto intro: triple_return)
  next
    case (Some rules)
    show ?thesis unfolding Some option.case
      by (intro bind_lift bind_check triple_return) (use r Some in \<open>auto intro: synced_kept\<close>)
  qed
qed (rule synced_kept, assumption)+

lemma bind_read_owned:
  assumes "atomic_firewall sys table"
    and "\<And>r. r = None \<longleftrightarrow> t = None \<Longrightarrow> t = None \<longrightarrow> cur = JNull \<or> am \<Longrightarrow>
      triple (synced table uid gen cur pend t) (f r) Q (kept table t)"
  shows "triple (synced table uid gen cur pend t) (act_bind (read_owned sys am) f) Q (kept table t)"
  by (rule triple_bind [OF triple_read_owned [OF assms(1)]], rule triple_fact') (rule assms(2); blast)

text \<open>After a policy was applied the journal names it, nothing is pending, and the firewall holds its objects.\<close>

definition settled :: "('w \<Rightarrow> json list option) \<Rightarrow> gstate \<Rightarrow> 'w guard \<Rightarrow> bool" where
  "settled table st s \<longleftrightarrow> (\<exists>uid gen t. synced table uid gen (state_json st) JNull (Some t) s)"

lemma admits_apply:
  assumes "admits gen cur pend t" "t = None \<longrightarrow> cur = JNull \<or> gs_mode st = Blocked"
  shows "admits gen cur (apply_json st) t"
  using assms by (auto simp: admits_def apply_json_def split: option.splits)

lemma objects_of_nonempty [simp]: "objects_of gen st \<noteq> []"
  by (simp add: objects_of_def)

lemma triple_synced_facts:
  "(current_form cur \<Longrightarrow> pending_form pend \<Longrightarrow> fullmatch is_hex 32 32 gen \<Longrightarrow> admits gen cur pend t \<Longrightarrow>
    triple (synced table uid gen cur pend t) m Q E) \<Longrightarrow> triple (synced table uid gen cur pend t) m Q E"
  by (auto simp: triple_def synced_def)

lemma triple_apply_state:
  assumes fw: "atomic_firewall sys table" and st: "wf_state st"
  shows "triple (synced table uid gen cur pend t) (apply_state sys st) (\<lambda>_. settled table st) (kept table t)"
proof (rule triple_synced_facts)
  assume forms: "current_form cur" "pending_form pend" "fullmatch is_hex 32 32 gen" "admits gen cur pend t"
  have pf: "pending_form (apply_json st)" using st by (auto simp: pending_form_def)
  have cf: "current_form (state_json st)" using st by (auto simp: current_form_def)
  have objs: "objects gen (state_json st) = Inr (objects_of gen st)" using st forms(3) by (rule objects_wf)
  have fin: "admits gen (state_json st) JNull (Some (objects_of gen st))" using st by (auto simp: admits_def)
  show ?thesis
    unfolding apply_state_def apply_json_def [symmetric]
  proof (rule bind_owned, rule bind_read_owned [OF fw], rule bind_record, rule triple_bind)
    fix r assume r: "r = None \<longleftrightarrow> t = None" and miss: "t = None \<longrightarrow> cur = JNull \<or> gs_mode st = Blocked"
    show "triple (synced table uid gen cur pend t) (save sys cur (apply_json st)) (\<lambda>_. synced table uid gen cur (apply_json st) t) (kept table t)"
      by (rule triple_save [OF fw forms(1) pf admits_apply [OF forms(4) miss]])
    let ?cs = "(if r = None then [] else [delete_table]) @ map add_object (objects_of gen st)"
    have ex: "Some (objects_of gen st) = nft_exec ?cs t" using r nft_exec_replace [of "objects_of gen st" t] by simp
    have last: "triple (synced table uid gen cur (apply_json st) (Some (objects_of gen st)))
       (act_bind (on_world (ns_read sys)) (\<lambda>seen.
         act_bind (act_check (case seen of None \<Rightarrow> False | Some rules \<Rightarrow> py_eq (JList rules) (JList (objects_of gen st)))
           (ValueErr ''Auto firewall verification failed'')) (\<lambda>_. save sys (state_json st) JNull)))
       (\<lambda>_. settled table st) (kept table (Some (objects_of gen st)))"
      by (rule bind_read [OF fw], rule bind_check, rule triple_weaken [OF triple_save [OF fw cf _ fin]])
        (auto simp: pending_form_def settled_def intro: synced_kept)
    have kk: "kept table (Some (objects_of gen st)) s \<Longrightarrow> kept table t s" for s by (simp add: kept_def)
    show "triple (synced table uid gen cur (apply_json st) t) (act_bind (act_get gd_generation) (\<lambda>generation.
       act_bind (act_lift (objects generation (state_json st))) (\<lambda>objs.
       act_bind (on_world (ns_apply sys ((if r = None then [] else [delete_table]) @ map add_object objs))) (\<lambda>_.
       act_bind (on_world (ns_read sys)) (\<lambda>seen.
       act_bind (act_check (case seen of None \<Rightarrow> False | Some rules \<Rightarrow> py_eq (JList rules) (JList objs))
         (ValueErr ''Auto firewall verification failed'')) (\<lambda>_. save sys (state_json st) JNull))))))
       (\<lambda>_. settled table st) (kept table t)" for x
    proof (rule bind_generation, rule bind_lift)
      fix objs' assume "objects gen (state_json st) = Inr objs'"
      with objs have o: "objs' = objects_of gen st" by simp
      show "triple (synced table uid gen cur (apply_json st) t)
         (act_bind (on_world (ns_apply sys ((if r = None then [] else [delete_table]) @ map add_object objs'))) (\<lambda>_.
          act_bind (on_world (ns_read sys)) (\<lambda>seen.
          act_bind (act_check (case seen of None \<Rightarrow> False | Some rules \<Rightarrow> py_eq (JList rules) (JList objs'))
            (ValueErr ''Auto firewall verification failed'')) (\<lambda>_. save sys (state_json st) JNull))))
         (\<lambda>_. settled table st) (kept table t)"
        unfolding o by (rule triple_bind [OF triple_apply [OF fw st ex refl]]) (rule triple_weaken [OF last]; simp add: kk)
    qed (rule synced_kept)
  qed
qed

end
