(* ===== verification/Auto_Guard_Ops.thy ===== *)
theory Auto_Guard_Ops
  imports Auto_Guard_Journal
begin

text \<open>
  The operations of the guard against the journal discipline, and the runs they make up: any sequence of
  operations, restarts under any generation, and changes of the outside world that leave the table alone.
\<close>

section \<open>One operation\<close>

lemma triple_kept: "triple P m Q (kept table t) \<Longrightarrow> (t0 \<noteq> None \<longrightarrow> t \<noteq> None) \<Longrightarrow> triple P m Q (kept table t0)"
  by (erule triple_weaken) (auto simp: kept_def)

lemma start_owned:
  assumes "\<And>uid gen cur pend t. t0 \<noteq> None \<longrightarrow> t \<noteq> None \<Longrightarrow> triple (synced table uid gen cur pend t) (f ()) Q (kept table t)"
  shows "triple (kept table t0) (act_bind owned f) Q (kept table t0)"
proof (rule tripleI)
  fix s assume k: "kept table t0 s"
  then have inv: "guard_inv table s" by (simp add: kept_def)
  have same: "snd (owned s) = s" using private_read_cases [of s]
    by (auto simp: owned_def act_bind_def check_def split: option.split sum.split)
  show "after Q (kept table t0) (act_bind owned f s)"
  proof (cases "fst (owned s)")
    case (Inl e)
    with same have "owned s = (Inl e, s)" by (metis prod.collapse)
    with k show ?thesis by (simp add: act_bind_def)
  next
    case (Inr x)
    with same have ow: "owned s = (Inr x, s)" by (metis prod.collapse)
    from tripleD_ok [OF triple_owned inv ow] obtain uid gen cur pend t where sy: "synced table uid gen cur pend t s" by blast
    then have "t0 \<noteq> None \<longrightarrow> t \<noteq> None" using k by (auto simp: kept_def synced_def)
    from triple_kept [OF assms [OF this] this] sy have "after Q (kept table t0) (f () s)" by (simp add: triple_def)
    with ow show ?thesis by (simp add: act_bind_def)
  qed
qed

lemma triple_absent:
  assumes fw: "atomic_firewall sys table"
  shows "triple (synced table uid gen cur pend t) (absent sys sel) (\<lambda>_. synced table uid gen cur pend t) (kept table t)"
  unfolding absent_def
proof (rule triple_if)
  show "triple (synced table uid gen cur pend t) (act_return ()) (\<lambda>_. synced table uid gen cur pend t) (kept table t)"
    by (rule triple_return)
  show "triple (synced table uid gen cur pend t) (act_bind (on_world (ns_links sys)) (\<lambda>links.
      act_bind (act_lift (bind_res (link_list links) (\<lambda>ls.
        if ls = [] then Inr False else bind_res (field sel ''interface'') (\<lambda>n. link_named n ls)))) (\<lambda>found.
      act_check (\<not> found) (ValueErr ''Auto candidate cleanup not complete''))))
     (\<lambda>_. synced table uid gen cur pend t) (kept table t)"
    by (rule triple_bind [OF triple_links [OF fw]], rule bind_lift, rule triple_check) (auto intro: synced_kept)
qed

lemma bind_absent:
  assumes fw: "atomic_firewall sys table" and "triple (synced table uid gen cur pend t) (f ()) Q (kept table t)"
  shows "triple (synced table uid gen cur pend t) (act_bind (absent sys sel) f) Q (kept table t)"
  by (rule triple_bind [OF triple_absent [OF fw]]) (simp add: assms(2))

lemma bind_in_mode:
  assumes "pend = JNull \<Longrightarrow> field cur ''mode'' = Inr (JStr mode) \<Longrightarrow> triple (synced table uid gen cur pend t) (f cur) Q (kept table t)"
  shows "triple (synced table uid gen cur pend t) (act_bind (in_mode mode m) f) Q (kept table t)"
proof -
  have "triple (synced table uid gen cur pend t) (in_mode mode m)
      (\<lambda>c s. (pend = JNull \<and> field cur ''mode'' = Inr (JStr mode) \<and> c = cur) \<and> synced table uid gen cur pend t s) (kept table t)"
    unfolding in_mode_def
    by (rule no_pending_ok, rule bind_record, rule bind_lift, rule bind_check, rule triple_return) (auto intro: synced_kept)
  then show ?thesis by (rule triple_bind) (rule triple_fact, use assms in auto)
qed

lemma triple_verify_tun:
  assumes fw: "atomic_firewall sys table"
  shows "triple (synced table uid gen cur pend t) (verify_tun sys st) (\<lambda>_. synced table uid gen cur pend t) (kept table t)"
proof (cases "gs_selected st")
  case None
  then show ?thesis by (simp add: verify_tun_def) (rule triple_raise, rule synced_kept)
next
  case (Some c)
  show ?thesis unfolding verify_tun_def Some option.case
    by (rule triple_bind [OF triple_links [OF fw]], rule bind_lift, rule triple_check) (auto intro: synced_kept)
qed

lemma bind_verify_tun:
  assumes fw: "atomic_firewall sys table" and "triple (synced table uid gen cur pend t) (f ()) Q (kept table t)"
  shows "triple (synced table uid gen cur pend t) (act_bind (verify_tun sys st) f) Q (kept table t)"
  by (rule triple_bind [OF triple_verify_tun [OF fw]]) (simp add: assms(2))

definition settled_in :: "('w \<Rightarrow> json list option) \<Rightarrow> gmode \<Rightarrow> 'w guard \<Rightarrow> bool" where
  "settled_in table m s \<longleftrightarrow> (\<exists>st. wf_state st \<and> gs_mode st = m \<and> settled table st s)"

lemma triple_apply_mode:
  assumes "atomic_firewall sys table" "wf_state st" "gs_mode st = m"
  shows "triple (synced table uid gen cur pend t) (apply_state sys st) (\<lambda>_. settled_in table m) (kept table t)"
  by (rule triple_weaken [OF triple_apply_state [OF assms(1,2)]]) (use assms in \<open>auto simp: settled_in_def\<close>)

lemma block_ok:
  assumes fw: "atomic_firewall sys table"
  shows "triple (kept table t0) (block sys) (\<lambda>_. settled_in table Blocked) (kept table t0)"
  unfolding block_def
  by (rule start_owned, rule no_pending_ok, rule bind_record, rule bind_lift, rule triple_apply_mode [OF fw])
    (auto dest: blocked_policy_Inr intro: synced_kept)

lemma prepare_ok:
  assumes fw: "atomic_firewall sys table"
  shows "triple (kept table t0) (prepare sys sel) (\<lambda>_. settled_in table Probe) (kept table t0)"
  unfolding prepare_def
proof (rule bind_lift)
  fix st assume st: "policy (JStr ''probe'') sel (JInt 0) (JBool False) = Inr st"
  have m: "gs_mode st = Probe" using st policy_mode [of Probe] by (simp add: mode_text_def)
  show "triple (kept table t0) (act_bind owned (\<lambda>_. act_bind (in_mode ''blocked'' ''Block Auto before preparing a candidate'') (\<lambda>current.
       act_bind (act_lift (field current ''selected'')) (\<lambda>old. act_bind (absent sys old) (\<lambda>_. act_bind (absent sys sel) (\<lambda>_. apply_state sys st))))))
       (\<lambda>_. settled_in table Probe) (kept table t0)"
    by (rule start_owned, rule bind_in_mode, rule bind_lift, rule bind_absent [OF fw], rule bind_absent [OF fw],
        rule triple_apply_mode [OF fw policy_wf [OF st] m]) (auto intro: synced_kept)
qed

lemma ready_ok:
  assumes fw: "atomic_firewall sys table"
  shows "triple (kept table t0) (ready sys i b) (\<lambda>_. settled_in table Open) (kept table t0)"
  unfolding ready_def
proof (rule start_owned, rule bind_in_mode, rule bind_lift, rule bind_verify_tun [OF fw])
  fix uid gen cur pend t and st :: gstate assume "bind_res (field cur ''selected'') (\<lambda>sel. policy (JStr ''ready'') sel i b) = Inr st"
  then obtain sel where st: "policy (JStr ''ready'') sel i b = Inr st" by auto
  have m: "gs_mode st = Open" using st policy_mode [of Open] by (simp add: mode_text_def)
  show "triple (synced table uid gen cur pend t) (apply_state sys st) (\<lambda>_. settled_in table Open) (kept table t)"
    by (rule triple_apply_mode [OF fw policy_wf [OF st] m])
qed (rule synced_kept)

lemma snapshot_ok:
  assumes fw: "atomic_firewall sys table"
  shows "triple (kept table t0) (snapshot sys) (\<lambda>_. kept table t0) (kept table t0)"
  unfolding snapshot_def
proof (rule start_owned, rule no_pending_ok, rule bind_record, rule bind_check, rule bind_read_owned [OF fw], rule bind_lift)
  fix uid gen cur pend x and t :: "json list option" assume t: "t0 \<noteq> None \<longrightarrow> t \<noteq> None"
  have last: "triple (synced table uid gen cur pend t) (act_bind (act_get gd_record) (\<lambda>r. act_lift (case r of None \<Rightarrow> Inl BadType | Some v \<Rightarrow> Inr v)))
      (\<lambda>_. kept table t0) (kept table t)"
    using t by (auto simp: triple_def act_bind_def synced_def kept_def guard_inv_def journal_form_def)
  have "triple (synced table uid gen cur pend t) (act_bind (act_bind (act_lift (policy_kw cur)) (verify_tun sys))
      (\<lambda>_. act_bind (act_get gd_record) (\<lambda>r. act_lift (case r of None \<Rightarrow> Inl BadType | Some v \<Rightarrow> Inr v)))) (\<lambda>_. kept table t0) (kept table t)"
  proof (rule triple_bind)
    show "triple (synced table uid gen cur pend t) (act_bind (act_get gd_record) (\<lambda>r. act_lift (case r of None \<Rightarrow> Inl BadType | Some v \<Rightarrow> Inr v)))
        (\<lambda>_. kept table t0) (kept table t)" by (rule last)
    show "triple (synced table uid gen cur pend t) (act_bind (act_lift (policy_kw cur)) (verify_tun sys))
        (\<lambda>_. synced table uid gen cur pend t) (kept table t)"
      by (rule bind_lift, rule triple_verify_tun [OF fw]) (rule synced_kept)
  qed
  with last show "triple (synced table uid gen cur pend t)
     (act_bind (if x = JStr ''ready'' then act_bind (act_lift (policy_kw cur)) (verify_tun sys) else act_return ())
       (\<lambda>_. act_bind (act_get gd_record) (\<lambda>r. act_lift (case r of None \<Rightarrow> Inl BadType | Some v \<Rightarrow> Inr v)))) (\<lambda>_. kept table t0) (kept table t)"
    by (auto simp: act_return_def act_bind_def)
qed (auto intro: synced_kept)

definition vacant :: "('w \<Rightarrow> json list option) \<Rightarrow> 'w guard \<Rightarrow> bool" where
  "vacant table s \<longleftrightarrow> guard_inv table s \<and> gd_file s = None \<and> gd_record s = None \<and> table (gd_world s) = None"

lemma synced_guard: "synced table uid gen cur pend t s \<Longrightarrow> guard_inv table s"
  by (rule synced_inv)

lemma triple_store_none:
  assumes fw: "atomic_firewall sys table"
  shows "triple (synced table uid gen cur pend None) (act_bind (store_file sys None) (\<lambda>_. act_put (\<lambda>s. s\<lparr>gd_record := None\<rparr>)))
    (\<lambda>_. vacant table) (guard_inv table)"
proof (rule tripleI)
  fix s assume s: "synced table uid gen cur pend None s"
  obtain d w where d: "ns_disk sys (gd_world s) = (d, w)" by fastforce
  with fw have w: "table w = None" using s by (metis atomic_firewall_def synced_def snd_conv)
  show "after (\<lambda>_. vacant table) (guard_inv table) (act_bind (store_file sys None) (\<lambda>_. act_put (\<lambda>s. s\<lparr>gd_record := None\<rparr>)) s)"
    using s d w
    by (cases d) (auto simp: act_bind_def store_file_def synced_def vacant_def guard_inv_def journal_form_def)
qed

lemma triple_delete:
  assumes fw: "atomic_firewall sys table"
  shows "triple (synced table uid gen cur release_json t) (on_world (ns_apply sys [delete_table]))
    (\<lambda>_. synced table uid gen cur release_json None) (guard_inv table)"
proof (rule tripleI)
  fix s assume s: "synced table uid gen cur release_json t s"
  let ?w = "snd (ns_apply sys [delete_table] (gd_world s))"
  have t: "table (gd_world s) = t" using s by (simp add: synced_def)
  have gone: "synced table uid gen cur release_json None (s\<lparr>gd_world := ?w\<rparr>)" if "table ?w = None"
    using s that by (auto simp: synced_def admits_def)
  have same: "synced table uid gen cur release_json t (s\<lparr>gd_world := ?w\<rparr>)" if "table ?w = t"
    using s that t by simp
  have "table ?w = nft_exec [delete_table] t \<or> table ?w = t \<and> \<not> is_ok (fst (ns_apply sys [delete_table] (gd_world s)))"
    using fw t unfolding atomic_firewall_def by blast
  then show "after (\<lambda>_. synced table uid gen cur release_json None) (guard_inv table) (on_world (ns_apply sys [delete_table]) s)"
    using gone same synced_inv [OF gone] synced_inv [OF same]
    by (cases "fst (ns_apply sys [delete_table] (gd_world s))") (auto simp: on_world_eq)
qed

lemma release_ok:
  assumes fw: "atomic_firewall sys table"
  shows "triple (guard_inv table) (release sys) (\<lambda>_. vacant table) (guard_inv table)"
proof -
  have tail: "triple (synced table uid gen cur pend t)
      (act_bind (save sys cur release_json) (\<lambda>_.
       act_bind (if r = None then act_return () else on_world (ns_apply sys [delete_table])) (\<lambda>_.
       act_bind (on_world (ns_read sys)) (\<lambda>seen.
       act_bind (act_check (seen = None) (ValueErr ''Auto firewall release not verified'')) (\<lambda>_.
       act_bind (store_file sys None) (\<lambda>_. act_put (\<lambda>s. s\<lparr>gd_record := None\<rparr>)))))))
      (\<lambda>_. vacant table) (guard_inv table)"
    if r: "r = None \<longleftrightarrow> t = None" and form: "current_form cur" and ad: "admits gen cur pend t"
    for uid gen cur pend t and r :: "json list option"
  proof (rule triple_bind)
    have "admits gen cur release_json t" using ad by (auto simp: admits_def release_json_def split: option.splits)
    then show "triple (synced table uid gen cur pend t) (save sys cur release_json) (\<lambda>_. synced table uid gen cur release_json t) (guard_inv table)"
      by (intro triple_weaken [OF triple_save [OF fw form]]) (auto simp: pending_form_def kept_def)
    have rest: "triple (synced table uid gen cur release_json None)
      (act_bind (on_world (ns_read sys)) (\<lambda>seen.
       act_bind (act_check (seen = None) (ValueErr ''Auto firewall release not verified'')) (\<lambda>_.
       act_bind (store_file sys None) (\<lambda>_. act_put (\<lambda>s. s\<lparr>gd_record := None\<rparr>)))))
      (\<lambda>_. vacant table) (guard_inv table)"
      by (rule triple_bind [OF triple_weaken [OF triple_read [OF fw], where E = "guard_inv table"]], assumption, assumption)
        (auto simp: kept_def intro!: triple_fact' bind_check triple_store_none [OF fw] synced_inv)
    show "triple (synced table uid gen cur release_json t)
      (act_bind (if r = None then act_return () else on_world (ns_apply sys [delete_table])) (\<lambda>_.
       act_bind (on_world (ns_read sys)) (\<lambda>seen.
       act_bind (act_check (seen = None) (ValueErr ''Auto firewall release not verified'')) (\<lambda>_.
       act_bind (store_file sys None) (\<lambda>_. act_put (\<lambda>s. s\<lparr>gd_record := None\<rparr>))))))
      (\<lambda>_. vacant table) (guard_inv table)" for x
    proof (rule triple_bind [OF _ rest])
      show "triple (synced table uid gen cur release_json t) (if r = None then act_return () else on_world (ns_apply sys [delete_table]))
        (\<lambda>_. synced table uid gen cur release_json None) (guard_inv table)"
        using r by (auto intro!: triple_return triple_delete [OF fw])
    qed
  qed
  show ?thesis
    unfolding release_def release_json_def [symmetric]
  proof (rule triple_bind [OF triple_owned], intro triple_ex, rule triple_synced_facts)
    fix x uid gen cur pend t
    assume forms: "current_form cur" "admits gen cur pend t"
    let ?rest = "\<lambda>current actual. act_bind (save sys current release_json) (\<lambda>_.
       act_bind (if actual = None then act_return () else on_world (ns_apply sys [delete_table])) (\<lambda>_.
       act_bind (on_world (ns_read sys)) (\<lambda>seen.
       act_bind (act_check (seen = None) (ValueErr ''Auto firewall release not verified'')) (\<lambda>_.
       act_bind (store_file sys None) (\<lambda>_. act_put (\<lambda>s. s\<lparr>gd_record := None\<rparr>))))))"
    have k: "triple (synced table uid gen cur pend t) (in_mode ''blocked'' ''Block Auto before release'')
        (\<lambda>c s. c = cur \<and> synced table uid gen cur pend t s) (guard_inv table)"
      unfolding in_mode_def
      by (rule no_pending_ok, rule bind_record, rule bind_lift, rule bind_check, rule triple_return) (auto intro: synced_inv)
    have ab: "triple (synced table uid gen cur pend t) (absent sys old) (\<lambda>_. synced table uid gen cur pend t) (guard_inv table)" for old
      by (rule triple_weaken [OF triple_absent [OF fw]]) (auto simp: kept_def)
    have ro: "triple (synced table uid gen cur pend t) (read_owned sys True)
        (\<lambda>r s. (r = None \<longleftrightarrow> t = None) \<and> synced table uid gen cur pend t s) (guard_inv table)"
      by (rule triple_weaken [OF triple_read_owned [OF fw]]) (auto simp: kept_def)
    show "triple (synced table uid gen cur pend t) (act_bind (in_mode ''blocked'' ''Block Auto before release'') (\<lambda>current.
        act_bind (act_lift (field current ''selected'')) (\<lambda>old. act_bind (absent sys old) (\<lambda>_.
        act_bind (read_owned sys True) (?rest current))))) (\<lambda>_. vacant table) (guard_inv table)"
      by (rule triple_bind [OF k], rule triple_fact, simp, rule bind_lift, rule triple_bind [OF ab], rule triple_bind [OF ro],
          rule triple_fact, rule tail) (use forms in \<open>auto intro: synced_inv\<close>)
  qed
qed

section \<open>Acquiring\<close>

text \<open>Without a record: the journal that \<open>acquire\<close> finds or starts.\<close>

definition unloaded :: "('w \<Rightarrow> json list option) \<Rightarrow> json list option \<Rightarrow> 'w guard \<Rightarrow> bool" where
  "unloaded table t s \<longleftrightarrow> guard_inv table s \<and> gd_record s = None \<and> table (gd_world s) = t"

lemma unloaded_kept: "unloaded table t s \<Longrightarrow> kept table t s"
  by (simp add: unloaded_def kept_def)

definition loaded :: "('w \<Rightarrow> json list option) \<Rightarrow> json list option \<Rightarrow> 'w guard \<Rightarrow> bool" where
  "loaded table t s \<longleftrightarrow> (\<exists>uid gen cur pend. synced table uid gen cur pend t s)"

lemma save_fresh:
  assumes fw: "atomic_firewall sys table"
  shows "triple (\<lambda>s. unloaded table t s \<and> gd_file s = None) (save sys JNull JNull) (\<lambda>_. loaded table t) (kept table t)"
proof (rule tripleI)
  fix s assume s: "unloaded table t s \<and> gd_file s = None"
  then have t: "t = None" and g: "fullmatch is_hex 32 32 (gd_generation s)" by (auto simp: unloaded_def guard_inv_def)
  obtain d w where d: "ns_disk sys (gd_world s) = (d, w)" by fastforce
  with fw s have w: "table w = None" by (metis atomic_firewall_def snd_conv t unloaded_def)
  let ?j = "journal (gd_uid s) (gd_generation s) JNull JNull"
  have forms: "journal_form ?j (gd_uid s) (gd_generation s) JNull JNull" "admits (gd_generation s) JNull JNull None"
    using g by (simp_all add: journal_form_def current_form_def pending_form_def admits_def)
  show "after (\<lambda>_. loaded table t) (kept table t) (save sys JNull JNull s)"
  proof (cases "d = Written")
    case True
    have "synced table (gd_uid s) (gd_generation s) JNull JNull t (s\<lparr>gd_world := w, gd_file := Some ?j, gd_record := Some ?j\<rparr>)"
      using forms t w by (simp add: synced_def journal_form_def)
    then have "loaded table t (s\<lparr>gd_world := w, gd_file := Some ?j, gd_record := Some ?j\<rparr>)" by (auto simp: loaded_def)
    with True d show ?thesis by (simp add: save_def act_bind_def store_file_def Let_def)
  next
    case False
    have "guard_inv table (s\<lparr>gd_world := w, gd_file := (if d = Lost then None else Some ?j)\<rparr>)"
      using forms t w s g by (auto simp: guard_inv_def unloaded_def)
    with False d s t show ?thesis by (auto simp: save_def act_bind_def store_file_def Let_def kept_def split: if_splits)
  qed
qed

lemma check_journal_owner:
  assumes "check_journal uid gen v = Inr u" "journal_form v uid' gen' cur pend"
  shows "uid' = uid \<and> gen' = gen"
  using assms by (auto simp: check_journal_def journal_form_def journal_def)

lemma triple_load:
  assumes fw: "atomic_firewall sys table"
  shows "triple (unloaded table t) (load_record sys) (\<lambda>_. loaded table t) (kept table t)"
proof (rule tripleI)
  fix s assume s: "unloaded table t s"
  obtain res where res: "private_read s = (res, s)" "\<forall>v. res = Inr v \<longrightarrow> gd_file s = Some v" "res = Inl FileMissing \<longrightarrow> gd_file s = None"
    using private_read_cases [of s] by blast
  show "after (\<lambda>_. loaded table t) (kept table t) (load_record sys s)"
  proof (cases res)
    case (Inl e)
    have "triple (\<lambda>s. unloaded table t s \<and> gd_file s = None) (act_bind (on_world (ns_read sys)) (\<lambda>r.
       act_bind (act_check (r = None) (ValueErr ''Auto firewall namespace occupied'')) (\<lambda>_. save sys JNull JNull)))
       (\<lambda>_. loaded table t) (kept table t)"
    proof (rule triple_bind)
      have "triple (\<lambda>s. unloaded table t s \<and> gd_file s = None) (on_world (ns_read sys))
         (\<lambda>_ s. unloaded table t s \<and> gd_file s = None) (\<lambda>s. unloaded table t s \<and> gd_file s = None)"
        using fw by (intro triple_world) (auto simp: unloaded_def guard_inv_world atomic_firewall_def read_faithful_def)
      then show "triple (\<lambda>s. unloaded table t s \<and> gd_file s = None) (on_world (ns_read sys))
         (\<lambda>_ s. unloaded table t s \<and> gd_file s = None) (kept table t)"
        by (rule triple_weaken) (auto intro: unloaded_kept)
    qed (rule bind_check, rule save_fresh [OF fw], auto intro: unloaded_kept)
    with s Inl res show ?thesis
      by (cases e) (auto simp: load_record_def triple_def unloaded_kept)
  next
    case (Inr v)
    with res have f: "gd_file s = Some v" by simp
    with s obtain uid gen cur pend where v: "journal_form v uid gen cur pend" "admits gen cur pend t"
      by (auto simp: unloaded_def guard_inv_def)
    show ?thesis
    proof (cases "check_journal (gd_uid s) (gd_generation s) v")
      case (Inl e)
      with Inr res s show ?thesis by (simp add: load_record_def act_bind_def unloaded_kept)
    next
      case u: (Inr u)
      from check_journal_owner [OF u v(1)] v f s
      have "synced table uid gen cur pend t (s\<lparr>gd_record := Some v\<rparr>)"
        by (auto simp: synced_def journal_form_def unloaded_def)
      then have "loaded table t (s\<lparr>gd_record := Some v\<rparr>)" by (auto simp: loaded_def)
      with Inr u res show ?thesis by (simp add: load_record_def act_bind_def)
    qed
  qed
qed

lemma acquire_ok:
  assumes fw: "atomic_firewall sys table"
  shows "triple (kept table t0) (acquire sys) (\<lambda>_. settled_in table Blocked) (kept table t0)"
proof (rule tripleI)
  fix s assume k: "kept table t0 s"
  let ?t = "table (gd_world s)"
  let ?rest = "act_bind (read_owned sys True) (\<lambda>_.
     act_bind (record_field ''pending'') (\<lambda>pend. act_bind (record_field ''current'') (\<lambda>current.
     act_bind (act_lift (bind_res (previous_selected current pend) blocked_policy)) (apply_state sys))))"
  have "triple (loaded table ?t) ?rest (\<lambda>_. settled_in table Blocked) (kept table ?t)"
    unfolding loaded_def
    by (intro triple_ex, rule bind_read_owned [OF fw], rule bind_record, rule bind_record, rule bind_lift, rule triple_apply_mode [OF fw])
      (auto dest: blocked_policy_Inr intro: synced_kept)
  then have all: "triple (unloaded table ?t) (act_bind (load_record sys) (\<lambda>_. ?rest)) (\<lambda>_. settled_in table Blocked) (kept table ?t)"
    by (rule triple_bind [OF triple_load [OF fw]])
  have "t0 \<noteq> None \<longrightarrow> ?t \<noteq> None" using k by (simp add: kept_def)
  from triple_kept [OF all this] have all: "after (\<lambda>_. settled_in table Blocked) (kept table t0) (act_bind (load_record sys) (\<lambda>_. ?rest) s)"
    if "gd_record s = None" using that k by (simp add: triple_def unloaded_def kept_def)
  show "after (\<lambda>_. settled_in table Blocked) (kept table t0) (acquire sys s)"
  proof (cases "gd_open s \<and> gd_record s = None")
    case True
    with all show ?thesis by (simp add: acquire_def act_bind_def)
  next
    case False
    with k show ?thesis by (auto simp: acquire_def act_bind_def check_def)
  qed
qed

section \<open>Runs\<close>

datatype guard_op = Acquire | Block | Prepare json | MakeReady json json | Release | Snapshot

definition op_act :: "'w nft_sys \<Rightarrow> guard_op \<Rightarrow> ('w, unit) gact" where
  "op_act sys p = (case p of Acquire \<Rightarrow> acquire sys | Block \<Rightarrow> block sys | Prepare sel \<Rightarrow> prepare sys sel
     | MakeReady i b \<Rightarrow> ready sys i b | Release \<Rightarrow> release sys
     | Snapshot \<Rightarrow> act_bind (snapshot sys) (\<lambda>_. act_return ()))"

inductive guard_step :: "'w nft_sys \<Rightarrow> ('w \<Rightarrow> json list option) \<Rightarrow> 'w guard \<Rightarrow> 'w guard \<Rightarrow> bool" for sys table where
  operate: "op_act sys p s = (r, s') \<Longrightarrow> guard_step sys table s s'"
| restart: "open_guard uid generation (gd_file s) (gd_world s) = Inr s' \<Longrightarrow> guard_step sys table s s'"
| closed: "guard_step sys table s (close s)"
| outside: "table w = table (gd_world s) \<Longrightarrow> guard_step sys table s (s\<lparr>gd_world := w\<rparr>)"

definition guard_init :: "('w \<Rightarrow> json list option) \<Rightarrow> 'w guard \<Rightarrow> bool" where
  "guard_init table s \<longleftrightarrow> (\<exists>uid generation w. open_guard uid generation None w = Inr s \<and> table w = None)"

lemma settled_inv: "settled_in table m s \<Longrightarrow> guard_inv table s \<and> table (gd_world s) \<noteq> None"
  by (auto simp: settled_in_def settled_def dest: synced_inv) (auto simp: synced_def)

lemma op_kept:
  assumes fw: "atomic_firewall sys table" and "p \<noteq> Release"
  shows "triple (kept table t) (op_act sys p) (\<lambda>_. kept table t) (kept table t)"
proof -
  have w: "triple (kept table t) m (\<lambda>_. kept table t) (kept table t)"
    if "triple (kept table t) m (\<lambda>_. settled_in table md) (kept table t)" for md and m :: "('a, unit) gact"
    using that by (rule triple_weaken) (auto dest: settled_inv simp: kept_def)
  have sn: "triple (kept table t) (act_bind (snapshot sys) (\<lambda>_. act_return ())) (\<lambda>_. kept table t) (kept table t)"
    by (rule triple_bind [OF snapshot_ok [OF fw]]) (rule triple_return)
  show ?thesis
    using assms(2) w [OF acquire_ok [OF fw]] w [OF block_ok [OF fw]] w [OF prepare_ok [OF fw]] w [OF ready_ok [OF fw]] sn
    by (cases p) (simp_all add: op_act_def)
qed

lemma op_inv:
  assumes fw: "atomic_firewall sys table"
  shows "triple (guard_inv table) (op_act sys p) (\<lambda>_. guard_inv table) (guard_inv table)"
proof (cases "p = Release")
  case True
  then show ?thesis by (auto simp: op_act_def vacant_def intro: triple_weaken [OF release_ok [OF fw]])
next
  case False
  from op_kept [OF fw this, of None] show ?thesis by (rule triple_weaken) (auto simp: kept_def)
qed

lemma open_guard_inv:
  assumes "guard_inv table s" "open_guard uid generation (gd_file s) (gd_world s) = Inr s'"
  shows "guard_inv table s'"
proof -
  from assms(2) have "fullmatch is_hex 32 32 generation"
    and s': "s' = \<lparr>gd_uid = uid, gd_generation = generation, gd_open = True, gd_record = None, gd_file = gd_file s, gd_world = gd_world s\<rparr>"
    by (auto simp: open_guard_def objects_def)
  with assms(1) show ?thesis by (cases "gd_file s") (simp_all add: guard_inv_def)
qed

lemma guard_inv_init:
  assumes "guard_init table s"
  shows "guard_inv table s"
proof -
  from assms obtain uid generation w where o: "open_guard uid generation None w = Inr s" and t: "table w = None"
    unfolding guard_init_def by blast
  from o have "fullmatch is_hex 32 32 generation"
    and "s = \<lparr>gd_uid = uid, gd_generation = generation, gd_open = True, gd_record = None, gd_file = None, gd_world = w\<rparr>"
    by (auto simp: open_guard_def objects_def)
  with t show ?thesis by (simp add: guard_inv_def)
qed

lemma guard_inv_step:
  assumes "atomic_firewall sys table" "guard_inv table s" "guard_step sys table s s'"
  shows "guard_inv table s'"
  using assms(3)
proof cases
  case (operate p r)
  then show ?thesis using tripleD [OF op_inv [OF assms(1)] assms(2)] by simp
next
  case (restart uid generation)
  with assms(2) show ?thesis by (blast intro: open_guard_inv)
next
  case closed
  with assms(2) show ?thesis by (cases "gd_file s") (simp_all add: close_def guard_inv_def)
next
  case (outside w)
  with assms(2) show ?thesis by (simp add: guard_inv_world)
qed

text \<open>The firewall of the run is atomic from the start on.\<close>

definition guarded_init :: "'w nft_sys \<Rightarrow> ('w \<Rightarrow> json list option) \<Rightarrow> 'w guard \<Rightarrow> bool" where
  "guarded_init sys table s \<longleftrightarrow> atomic_firewall sys table \<and> guard_init table s"

definition guarded :: "'w nft_sys \<Rightarrow> ('w \<Rightarrow> json list option) \<Rightarrow> 'w guard \<Rightarrow> bool" where
  "guarded sys table s \<longleftrightarrow> atomic_firewall sys table \<and> guard_inv table s"

interpretation gd: invariant_system "guarded_init sys table" "guard_step sys table" "guarded sys table"
  by unfold_locales (auto simp: guarded_init_def guarded_def intro: guard_inv_init guard_inv_step)

section \<open>What the guard promises\<close>

lemma settled_in_force:
  assumes "reach (guarded_init sys table) (guard_step sys table) s"
    and "gd_file s = Some (journal uid gen cur JNull)" and "cur \<noteq> JNull"
  shows "\<exists>rules objs. table (gd_world s) = Some rules \<and> objects gen cur = Inr objs \<and> py_eq (JList rules) (JList objs)"
proof -
  have "guard_inv table s" using gd.reach_inv [OF assms(1)] by (simp add: guarded_def)
  with assms(2) obtain uid' gen' cur' pend' where j: "journal_form (journal uid gen cur JNull) uid' gen' cur' pend'"
    and ad: "admits gen' cur' pend' (table (gd_world s))" by (auto simp: guard_inv_def)
  from j have eq: "gen' = gen" "cur' = cur" "pend' = JNull" by (auto simp: journal_form_def journal_def)
  from ad eq assms(3) obtain rules st where "table (gd_world s) = Some rules" "wf_state st"
    "py_eq (JList rules) (JList (objects_of gen st))" "cur = state_json st"
    by (cases "table (gd_world s)") (auto simp: admits_def release_json_def apply_json_def)
  moreover from j eq have "fullmatch is_hex 32 32 gen" by (simp add: journal_form_def)
  ultimately show ?thesis using objects_wf by blast
qed

text \<open>C9. The guard fails closed: whatever operations were issued, failed half-way or were cut off by a restart, as long as the
  journal on disk names a current policy and nothing is pending, the firewall table is in place and holds exactly the
  objects of that policy.\<close>

theorem settled_journal_is_enforced:
  assumes "reach (guarded_init sys table) (guard_step sys table) s"
    and "gd_file s = Some (journal uid gen cur JNull)" and "cur \<noteq> JNull"
  shows "\<exists>rules objs. table (gd_world s) = Some rules \<and> objects gen cur = Inr objs \<and> py_eq (JList rules) (JList objs)"
  using assms by (rule settled_in_force)

text \<open>C10. Only a release takes the firewall table away: no other operation, successful or failing at any point, leaves a
  guarded host without a table.\<close>

theorem only_release_opens:
  assumes "reach (guarded_init sys table) (guard_step sys table) s" and "table (gd_world s) \<noteq> None"
    and "p \<noteq> Release" and "op_act sys p s = (r, s')"
  shows "table (gd_world s') \<noteq> None"
proof -
  have g: "atomic_firewall sys table" "guard_inv table s" using gd.reach_inv [OF assms(1)] by (simp_all add: guarded_def)
  then have "kept table (table (gd_world s)) s" by (simp add: kept_def)
  from tripleD [OF op_kept [OF g(1) assms(3)] this assms(4)] assms(2) show ?thesis by (simp add: kept_def)
qed

text \<open>C11. What a successful operation means: \<open>acquire\<close> and \<open>block\<close> end in the blocked policy, \<open>prepare\<close> in the probe
  policy and \<open>ready\<close> in an open one, recorded and in force; \<open>release\<close> ends without journal and table.\<close>

theorem operations_take_effect:
  assumes "reach (guarded_init sys table) (guard_step sys table) s" and "op_act sys p s = (Inr (), s')"
  shows "case p of Acquire \<Rightarrow> settled_in table Blocked s' | Block \<Rightarrow> settled_in table Blocked s' | Prepare _ \<Rightarrow> settled_in table Probe s'
    | MakeReady _ _ \<Rightarrow> settled_in table Open s' | Release \<Rightarrow> vacant table s' | Snapshot \<Rightarrow> guard_inv table s'"
proof -
  have fw: "atomic_firewall sys table" and inv: "guard_inv table s" using gd.reach_inv [OF assms(1)] by (simp_all add: guarded_def)
  have k: "kept table None s" using inv by (simp add: kept_def)
  show ?thesis
  proof (cases p)
    case Snapshot
    with tripleD_ok [OF op_inv [OF fw] inv assms(2)] show ?thesis by simp
  qed (use assms(2) tripleD_ok [OF acquire_ok [OF fw] k] tripleD_ok [OF block_ok [OF fw] k] tripleD_ok [OF prepare_ok [OF fw] k]
      tripleD_ok [OF ready_ok [OF fw] k] tripleD_ok [OF release_ok [OF fw] inv] in \<open>simp_all add: op_act_def\<close>)
qed

end
