(* ===== verification/Auto_Policy.thy ===== *)
theory Auto_Policy
  imports Auto_Guard_Ops
begin

text \<open>
  The adapter between the Linux service and the shared policy process, \<open>clients/linux/auto_policy.py\<close>: the frames of
  the policy's pipe, the host that carries out its calls under the traffic guard, and the bookkeeping of tickets and
  calls in \<open>PolicyProcess\<close>.

  A validator returns the frame it accepts, or \<open>None\<close> where the source raises.  The platform (transports, health checks,
  the clock behind \<open>Context.check\<close>) is a parameter acting on the same outside world as the guard.  Of the two
  threads, each block under the lock is one step, and so is each access to the flags that are read and set without it.
\<close>

section \<open>Frames\<close>

definition max_id :: int where "max_id = 2 ^ 53 - 1"

definition candidates :: "string set" where
  "candidates = {''wg'', ''awg'', ''tcp'', ''restricted''}"

definition failures :: "string set" where
  "failures = {''CANCELLED'', ''AUTH'', ''CONFIGURATION'', ''NETWORK'', ''TRANSPORT_UNAVAILABLE'', ''BOOTSTRAP_UNAVAILABLE'', ''INTERNAL''}"

definition states :: "string set" where
  "states = {''DISCONNECTED'', ''CONNECTING'', ''CONNECTED'', ''RESTORING'', ''FAILED'', ''DISCONNECTING''}"

text \<open>\<open>value.get(key, '')\<close> is one of the strings or the empty one.\<close>

definition optional_in :: "string set \<Rightarrow> json \<Rightarrow> string \<Rightarrow> bool" where
  "optional_in S v k = (case jget v k of None \<Rightarrow> True | Some x \<Rightarrow> jstr_in (insert [] S) x)"

definition field_sat :: "json \<Rightarrow> string \<Rightarrow> (json \<Rightarrow> bool) \<Rightarrow> bool" where
  "field_sat v k p = (case jget v k of None \<Rightarrow> False | Some x \<Rightarrow> p x)"

definition is_event_char :: "char \<Rightarrow> bool" where
  "is_event_char c \<longleftrightarrow> is_lower c \<or> c = CHR ''_''"

fun event_name :: "json \<Rightarrow> bool" where
  "event_name (JStr s) = fullmatch is_event_char 1 48 s"
| "event_name _ = False"

definition event_ok :: "json \<Rightarrow> bool" where
  "event_ok e \<longleftrightarrow> has_fields {''event'', ''state'', ''elapsed_ms''} {''candidate'', ''category''} e \<and>
     field_sat e ''event'' event_name \<and> field_sat e ''state'' (jstr_in states) \<and>
     field_sat e ''elapsed_ms'' (jint_in 0 (2 ^ 63 - 1)) \<and> optional_in candidates e ''candidate'' \<and> optional_in failures e ''category''"

fun events_ok :: "json \<Rightarrow> bool" where
  "events_ok JNull = True"
| "events_ok (JList es) = (length es \<le> 128 \<and> list_all event_ok es)"
| "events_ok _ = False"

definition snapshot_ok :: "json \<Rightarrow> bool" where
  "snapshot_ok v \<longleftrightarrow>
     has_fields {''generation'', ''state'', ''desired_connected'', ''retry_at_ms'', ''events'', ''events_dropped''} {''selected'', ''first_reason''} v \<and>
     field_sat v ''generation'' (jint_in 0 max_id) \<and> field_sat v ''state'' (jstr_in states) \<and> field_sat v ''desired_connected'' is_jbool \<and>
     optional_in candidates v ''selected'' \<and> optional_in failures v ''first_reason'' \<and>
     field_sat v ''retry_at_ms'' (jint_in 0 (2 ^ 63 - 1)) \<and> field_sat v ''events_dropped'' (jint_in 0 (2 ^ 64 - 1)) \<and>
     field_sat v ''events'' events_ok"

datatype host_op = Configure | OpenC string | CloseC | ReleaseC | Remember string

record host_call =
  hc_id :: int
  hc_generation :: int
  hc_op :: host_op
  hc_budget :: int

datatype frame = Reply int json | HostCancel int | HostCall host_call

fun int_of :: "json option \<Rightarrow> int" where
  "int_of (Some (JInt i)) = i"
| "int_of _ = 0"

fun str_of :: "json option \<Rightarrow> string" where
  "str_of (Some (JStr s)) = s"
| "str_of _ = []"

definition reply_ok :: "json \<Rightarrow> bool" where
  "reply_ok v \<longleftrightarrow> has_fields {''schema'', ''id'', ''ok'', ''snapshot''} {''error''} v \<and> field_sat v ''ok'' is_jbool \<and>
     optional_in {''BUSY'', ''STALE'', ''INVALID'', ''INTERNAL''} v ''error'' \<and>
     (jget v ''ok'' = Some (JBool True) \<longleftrightarrow> jget v ''error'' \<in> {None, Some (JStr [])}) \<and> field_sat v ''snapshot'' snapshot_ok"

definition budget_limit :: "host_op \<Rightarrow> int" where
  "budget_limit p = (case p of Configure \<Rightarrow> 30000 | OpenC c \<Rightarrow> (if c = ''restricted'' then 200000 else 20000) | _ \<Rightarrow> 20000)"

definition call_op :: "json \<Rightarrow> host_op option" where
  "call_op v =
     (let operation = str_of (jget v ''operation''); candidate = jget v ''candidate'' in
      if operation \<in> {''open'', ''remember''}
      then (if field_sat v ''candidate'' (jstr_in candidates) \<and> (operation \<noteq> ''remember'' \<or> candidate \<noteq> Some (JStr ''restricted''))
            then Some (if operation = ''open'' then OpenC (str_of candidate) else Remember (str_of candidate)) else None)
      else if candidate \<noteq> None then None
      else if operation = ''configure'' then Some Configure
      else if operation = ''close'' then Some CloseC
      else if operation = ''release'' then Some ReleaseC else None)"

definition validate_call :: "json \<Rightarrow> host_call option" where
  "validate_call v =
     (if has_fields {''schema'', ''id'', ''generation'', ''operation'', ''budget_ms''} {''candidate''} v \<and>
         field_sat v ''generation'' (jint_in 1 max_id)
      then (case call_op v of
              None \<Rightarrow> None
            | Some p \<Rightarrow> if field_sat v ''budget_ms'' (jint_in 1 (budget_limit p))
                then Some \<lparr>hc_id = int_of (jget v ''id''), hc_generation = int_of (jget v ''generation''), hc_op = p,
                           hc_budget = int_of (jget v ''budget_ms'')\<rparr> else None)
      else None)"

definition validate_frame :: "json \<Rightarrow> frame option" where
  "validate_frame frame = (case frame of
     JObj [(kind, v)] \<Rightarrow>
       if is_obj v \<and> jget v ''schema'' = Some (JInt 1) \<and> field_sat v ''id'' (jint_in 1 max_id)
       then if kind = ''reply'' then (if reply_ok v then Some (Reply (int_of (jget v ''id'')) v) else None)
            else if kind = ''host_cancel'' then (if jkeys v = {''schema'', ''id''} then Some (HostCancel (int_of (jget v ''id''))) else None)
            else if kind = ''host_call'' then map_option HostCall (validate_call v)
            else None
       else None
   | _ \<Rightarrow> None)"

section \<open>The host\<close>

datatype host_error = Failure string bool | Protocol | GuardFailed guard_error | Crashed

text \<open>\<open>Failure(category, temporary)\<close>\<close>

definition mk_failure :: "string \<Rightarrow> bool \<Rightarrow> host_error" where
  "mk_failure category temporary =
     (if category \<notin> failures \<or> (temporary \<and> category \<noteq> ''BOOTSTRAP_UNAVAILABLE'') then Failure ''INTERNAL'' False
      else Failure category temporary)"

datatype ctx = Live | Cancelled | Expired

record 'w platform =
  pf_context :: "'w \<Rightarrow> ctx \<times> 'w"
  pf_configure :: "(host_error, 'w, json) act"
  pf_prepare :: "string \<Rightarrow> (host_error, 'w, json) act"
  pf_open :: "string \<Rightarrow> (host_error, 'w, json \<times> json) act"
  pf_applied :: "(string \<Rightarrow> (host_error, 'w, unit) act) option"
  pf_cancel_health :: "(host_error, 'w, unit) act option"
  pf_close :: "(host_error, 'w, unit) act"
  pf_release :: "(host_error, 'w, unit) act"
  pf_remember :: "string \<Rightarrow> (host_error, 'w, unit) act"

record 'w host =
  ho_guard :: "'w guard"
  ho_generation :: int
  ho_released :: bool
  ho_prepared :: bool
  ho_configured :: bool

type_synonym ('w, 'a) hact = "(host_error, 'w host, 'a) act"

definition on_guard :: "('w, 'a) gact \<Rightarrow> ('w, 'a) hact" where
  "on_guard m = (\<lambda>s. case m (ho_guard s) of (r, g) \<Rightarrow> (map_err GuardFailed r, s\<lparr>ho_guard := g\<rparr>))"

definition on_platform :: "(host_error, 'w, 'a) act \<Rightarrow> ('w, 'a) hact" where
  "on_platform m = (\<lambda>s. case m (gd_world (ho_guard s)) of (r, w) \<Rightarrow> (r, s\<lparr>ho_guard := (ho_guard s)\<lparr>gd_world := w\<rparr>\<rparr>))"

definition require :: "bool \<Rightarrow> ('w, unit) hact" where
  "require c = act_check c Protocol"

text \<open>\<open>Context.check\<close>\<close>

definition context_check :: "'w platform \<Rightarrow> ('w, unit) hact" where
  "context_check pf = on_platform (\<lambda>w. case pf_context pf w of
     (Live, w') \<Rightarrow> (Inr (), w')
   | (Cancelled, w') \<Rightarrow> (Inl (mk_failure ''CANCELLED'' False), w')
   | (Expired, w') \<Rightarrow> (Inl (mk_failure ''NETWORK'' False), w'))"

definition candidate_list :: "json \<Rightarrow> string list option" where
  "candidate_list v = (case v of
     JList vs \<Rightarrow> if length vs \<le> 3 \<and> distinct vs \<and> list_all (jstr_in {''wg'', ''awg'', ''tcp''}) vs
                  then Some (map (\<lambda>x. str_of (Some x)) vs) else None
   | _ \<Rightarrow> None)"

definition plan_kind :: "string \<Rightarrow> string" where
  "plan_kind selected = (if selected = ''restricted'' then ''mesh'' else selected)"

definition has_record :: "('w, bool) hact" where
  "has_record = act_get (\<lambda>s. gd_record (ho_guard s) \<noteq> None)"

definition call_configure :: "'w nft_sys \<Rightarrow> 'w platform \<Rightarrow> ('w, string list) hact" where
  "call_configure sys pf =
     act_bind (act_get id) (\<lambda>s.
     act_bind (require (\<not> ho_configured s)) (\<lambda>_.
     act_bind (act_put (\<lambda>s. s\<lparr>ho_configured := True\<rparr>)) (\<lambda>_.
     act_bind (on_guard (if ho_prepared s then block sys else acquire sys)) (\<lambda>_.
     act_bind (on_platform (pf_configure pf)) (\<lambda>result.
     act_bind (require (candidate_list result \<noteq> None)) (\<lambda>_.
     act_bind (context_check pf) (\<lambda>_.
     act_return (case candidate_list result of None \<Rightarrow> [] | Some cs \<Rightarrow> cs))))))))"

definition call_open :: "'w nft_sys \<Rightarrow> 'w platform \<Rightarrow> string \<Rightarrow> ('w, string list) hact" where
  "call_open sys pf selected =
     act_catch
       (act_bind (on_platform (pf_prepare pf selected)) (\<lambda>plan.
        act_bind (context_check pf) (\<lambda>_.
        act_bind (require (jget plan ''kind'' = Some (JStr (plan_kind selected)))) (\<lambda>_.
        act_bind (on_guard (prepare sys plan)) (\<lambda>_.
        act_bind (on_platform (pf_open pf selected)) (\<lambda>(index, ipv6).
        act_bind (context_check pf) (\<lambda>_.
        act_bind (on_guard (ready sys index ipv6)) (\<lambda>_.
        act_bind (context_check pf) (\<lambda>_.
        act_bind (case pf_applied pf of None \<Rightarrow> act_return () | Some applied \<Rightarrow> on_platform (applied selected)) (\<lambda>_.
        act_bind (context_check pf) (\<lambda>_. act_return [])))))))))))
       (\<lambda>e. act_bind (case pf_cancel_health pf of None \<Rightarrow> act_return () | Some m \<Rightarrow> on_platform m) (\<lambda>_. act_raise e))"

definition call_close :: "'w nft_sys \<Rightarrow> 'w platform \<Rightarrow> ('w, unit) hact" where
  "call_close sys pf =
     act_bind has_record (\<lambda>r.
     if r then act_bind (on_guard (block sys)) (\<lambda>_. on_platform (pf_close pf)) else act_return ())"

definition call_release :: "'w nft_sys \<Rightarrow> 'w platform \<Rightarrow> ('w, unit) hact" where
  "call_release sys pf =
     act_bind has_record (\<lambda>r.
     act_bind (if r then act_bind (on_platform (pf_release pf)) (\<lambda>_. act_bind (context_check pf) (\<lambda>_. on_guard (release sys)))
               else act_return ()) (\<lambda>_.
     act_put (\<lambda>s. s\<lparr>ho_released := True\<rparr>)))"

definition call :: "'w nft_sys \<Rightarrow> 'w platform \<Rightarrow> host_call \<Rightarrow> ('w, string list) hact" where
  "call sys pf rq =
     act_bind (act_get id) (\<lambda>s.
     act_bind (require (hc_generation rq = ho_generation s \<and> \<not> ho_released s)) (\<lambda>_.
     act_bind (context_check pf) (\<lambda>_.
     case hc_op rq of
       Configure \<Rightarrow> call_configure sys pf
     | OpenC selected \<Rightarrow> call_open sys pf selected
     | CloseC \<Rightarrow> act_bind (call_close sys pf) (\<lambda>_. act_bind (context_check pf) (\<lambda>_. act_return []))
     | ReleaseC \<Rightarrow> act_bind (call_release sys pf) (\<lambda>_. act_bind (context_check pf) (\<lambda>_. act_return []))
     | Remember selected \<Rightarrow> act_bind (on_platform (pf_remember pf selected)) (\<lambda>_. act_bind (context_check pf) (\<lambda>_. act_return [])))))"

definition abort :: "'w nft_sys \<Rightarrow> 'w platform \<Rightarrow> ('w, unit) hact" where
  "abort sys pf =
     act_bind (act_get id) (\<lambda>s.
     if \<not> ho_released s \<and> gd_record (ho_guard s) \<noteq> None
     then act_bind (on_guard (block sys)) (\<lambda>_. on_platform (pf_close pf)) else act_return ())"

section \<open>The policy process\<close>

text \<open>The reply the operator thread sends for a call.\<close>

record host_reply =
  hr_id :: int
  hr_ok :: bool
  hr_candidates :: "string list"
  hr_failure :: string
  hr_temporary :: bool

definition operate :: "'w nft_sys \<Rightarrow> 'w platform \<Rightarrow> host_call \<Rightarrow> 'w host \<Rightarrow> host_reply \<times> 'w host" where
  "operate sys pf rq s =
     (case act_bind (call sys pf rq) (\<lambda>result.
           act_bind (context_check pf) (\<lambda>_.
           act_bind (require (length result \<le> 3)) (\<lambda>_.
           act_bind (require (result = [] \<or> hc_op rq = Configure)) (\<lambda>_.
           act_bind (require (set result \<subseteq> {''wg'', ''awg'', ''tcp''} \<and> distinct result)) (\<lambda>_. act_return result))))) s of
        (Inr result, s') \<Rightarrow> (\<lparr>hr_id = hc_id rq, hr_ok = True, hr_candidates = result, hr_failure = [], hr_temporary = False\<rparr>, s')
      | (Inl (Failure category temporary), s') \<Rightarrow>
          (\<lparr>hr_id = hc_id rq, hr_ok = False, hr_candidates = [], hr_failure = category, hr_temporary = temporary\<rparr>, s')
      | (Inl _, s') \<Rightarrow> (\<lparr>hr_id = hc_id rq, hr_ok = False, hr_candidates = [], hr_failure = ''INTERNAL'', hr_temporary = False\<rparr>, s'))"

datatype ticket = Waiting | Replied json | TicketFailed

text \<open>Where the two threads are.  The reader is at the head of its loop, receiving, in \<open>_fail\<close> after it has set \<open>stopping\<close>, or has
  ended; the operator is at the head of its loop, waiting for work, carrying out a call, about to answer it, in \<open>_fail\<close>, about
  to abort the host, or has ended.\<close>

datatype reader_at = Rd_Head | Rd_Receive | Rd_Failing | Rd_Ended

datatype operator_at = Op_Head | Op_Get | Op_Call host_call | Op_Answer | Op_Failing | Op_Abort | Op_Ended

text \<open>\<open>pr_failing\<close> counts the calls of \<open>_fail\<close> in other threads that have set \<open>stopping\<close> and not yet taken the lock.\<close>

record policy_process =
  pr_stopping :: bool
  pr_failing :: nat
  pr_identifier :: int
  pr_last_call :: int
  pr_completed_call :: int
  pr_pending :: "int list"
  pr_active :: "(host_call \<times> bool) option"
  pr_work :: "host_call list"
  pr_reader :: reader_at
  pr_operator :: operator_at
  pr_tickets :: "int \<Rightarrow> ticket option"
  pr_abort_failed :: bool

definition new_process :: policy_process where
  "new_process = \<lparr>pr_stopping = False, pr_failing = 0, pr_identifier = 0, pr_last_call = 0, pr_completed_call = 0, pr_pending = [],
     pr_active = None, pr_work = [], pr_reader = Rd_Head, pr_operator = Op_Head, pr_tickets = (\<lambda>_. None), pr_abort_failed = False\<rparr>"

text \<open>\<open>_fail\<close>: the flag is set without the lock; the tickets are failed later, under it.\<close>

definition begin_fail :: "policy_process \<Rightarrow> policy_process" where
  "begin_fail s = s\<lparr>pr_stopping := True, pr_failing := pr_failing s + 1\<rparr>"

definition fail_tickets :: "policy_process \<Rightarrow> policy_process" where
  "fail_tickets s = s\<lparr>pr_active := map_option (\<lambda>(c, _). (c, True)) (pr_active s),
     pr_tickets := (\<lambda>i. if i \<in> set (pr_pending s) then Some TicketFailed else pr_tickets s i), pr_pending := []\<rparr>"

definition end_fail :: "policy_process \<Rightarrow> policy_process" where
  "end_fail s = (if pr_failing s = 0 then s else fail_tickets (s\<lparr>pr_failing := pr_failing s - 1\<rparr>))"

text \<open>The arguments \<open>submit\<close> accepts.\<close>

definition submit_fields :: "string \<Rightarrow> string set" where
  "submit_fields action = (if action = ''connect'' then {''network'', ''preferred'', ''last_good''}
     else if action = ''network'' then {''network''} else if action = ''lost'' then {''reason''}
     else if action = ''healthy'' then {''healthy''} else {})"

definition submit_ok :: "string \<Rightarrow> json \<Rightarrow> json \<Rightarrow> bool" where
  "submit_ok action generation arguments \<longleftrightarrow>
     action \<in> {''connect'', ''status'', ''network'', ''disconnect'', ''retry'', ''lost'', ''healthy''} \<and>
     jint_in 0 max_id generation \<and> (action = ''status'' \<longleftrightarrow> generation = JInt 0) \<and>
     jkeys arguments \<subseteq> submit_fields action \<and>
     (action \<in> {''connect'', ''network''} \<longrightarrow> field_sat arguments ''network'' is_jbool) \<and>
     (action = ''healthy'' \<longrightarrow> field_sat arguments ''healthy'' is_jbool) \<and>
     (action = ''lost'' \<longrightarrow> field_sat arguments ''reason'' (jstr_in failures)) \<and>
     optional_in candidates arguments ''preferred'' \<and> optional_in candidates arguments ''last_good''"

text \<open>\<open>submit\<close> up to the end of its locked block.  The command is written after that; a write that fails calls \<open>_fail\<close>.\<close>

definition submit :: "string \<Rightarrow> json \<Rightarrow> json \<Rightarrow> policy_process \<Rightarrow> (host_error, int) res \<times> policy_process" where
  "submit action generation arguments s =
     (if \<not> submit_ok action generation arguments then (Inl Protocol, s)
      else if pr_stopping s \<or> max_id \<le> pr_identifier s \<or> 4 \<le> length (pr_pending s) then (Inl (mk_failure ''INTERNAL'' False), s)
      else let i = pr_identifier s + 1
           in (Inr i, s\<lparr>pr_identifier := i, pr_pending := pr_pending s @ [i], pr_tickets := (pr_tickets s)(i \<mapsto> Waiting)\<rparr>))"

definition submit_send :: "bool \<Rightarrow> policy_process \<Rightarrow> policy_process" where
  "submit_send delivered s = (if delivered then s else begin_fail s)"

text \<open>The reader's locked block: whether it passes, and what it leaves.  The queue holds one call.\<close>

definition accept_frame :: "frame \<Rightarrow> policy_process \<Rightarrow> bool \<times> policy_process" where
  "accept_frame f s = (case f of
     Reply i v \<Rightarrow>
       if i \<in> set (pr_pending s)
       then (True, s\<lparr>pr_pending := remove1 i (pr_pending s), pr_tickets := (pr_tickets s)(i \<mapsto> Replied v)\<rparr>) else (False, s)
   | HostCancel i \<Rightarrow>
       (case pr_active s of
          Some (c, b) \<Rightarrow> if hc_id c = i then (True, s\<lparr>pr_active := Some (c, True)\<rparr>) else (i = pr_completed_call s, s)
        | None \<Rightarrow> (i = pr_completed_call s, s))
   | HostCall c \<Rightarrow>
       if pr_active s = None \<and> pr_last_call s < hc_id c
       then (let s' = s\<lparr>pr_last_call := hc_id c, pr_active := Some (c, False)\<rparr>
             in if pr_work s = [] then (True, s'\<lparr>pr_work := [c]\<rparr>) else (False, s')) else (False, s))"

definition reader_fails :: "policy_process \<Rightarrow> policy_process" where
  "reader_fails s = s\<lparr>pr_stopping := True, pr_reader := Rd_Failing\<rparr>"

definition reader_ends :: "policy_process \<Rightarrow> policy_process" where
  "reader_ends s = (if pr_reader s = Rd_Failing then (fail_tickets s)\<lparr>pr_reader := Rd_Ended\<rparr> else s)"

definition reader_head :: "policy_process \<Rightarrow> policy_process" where
  "reader_head s =
     (if pr_reader s \<noteq> Rd_Head then s else if pr_stopping s then reader_fails s else s\<lparr>pr_reader := Rd_Receive\<rparr>)"

text \<open>What \<open>ipc.receive\<close> ends with: a frame, a timeout, or another exception.  A frame is taken even where \<open>stopping\<close> was
  set while it was received.\<close>

datatype received = Frame json | Timeout | Broken

definition read_frame :: "received \<Rightarrow> policy_process \<Rightarrow> policy_process" where
  "read_frame r s =
     (if pr_reader s \<noteq> Rd_Receive then s
      else case r of
        Timeout \<Rightarrow> s\<lparr>pr_reader := Rd_Head\<rparr>
      | Broken \<Rightarrow> reader_fails s
      | Frame v \<Rightarrow> (case validate_frame v of
          None \<Rightarrow> reader_fails s
        | Some f \<Rightarrow> (case accept_frame f s of (ok, s') \<Rightarrow> if ok then s'\<lparr>pr_reader := Rd_Head\<rparr> else reader_fails s')))"

text \<open>The operator: the head of its loop, \<open>work.get\<close>, which may return a call after \<open>stopping\<close> was set, the locked block after
  the call, the answer, and the end.  The call and the abort themselves act on the host.\<close>

definition operator_head :: "policy_process \<Rightarrow> policy_process" where
  "operator_head s = (if pr_operator s \<noteq> Op_Head then s else s\<lparr>pr_operator := (if pr_stopping s then Op_Abort else Op_Get)\<rparr>)"

definition take_work :: "policy_process \<Rightarrow> policy_process" where
  "take_work s =
     (if pr_operator s \<noteq> Op_Get then s
      else case pr_work s of c # cs \<Rightarrow> s\<lparr>pr_work := cs, pr_operator := Op_Call c\<rparr> | [] \<Rightarrow> s\<lparr>pr_operator := Op_Head\<rparr>)"

definition finish_call :: "host_call \<Rightarrow> policy_process \<Rightarrow> policy_process" where
  "finish_call c s = s\<lparr>pr_completed_call := hc_id c, pr_active := None, pr_operator := Op_Answer\<rparr>"

definition answer_call :: "bool \<Rightarrow> policy_process \<Rightarrow> policy_process" where
  "answer_call delivered s =
     (if pr_operator s \<noteq> Op_Answer then s
      else if pr_stopping s then s\<lparr>pr_operator := Op_Abort\<rparr>
      else if delivered then s\<lparr>pr_operator := Op_Head\<rparr> else s\<lparr>pr_stopping := True, pr_operator := Op_Failing\<rparr>)"

definition operator_fails :: "policy_process \<Rightarrow> policy_process" where
  "operator_fails s = (if pr_operator s = Op_Failing then (fail_tickets s)\<lparr>pr_operator := Op_Abort\<rparr> else s)"

definition end_operator :: "bool \<Rightarrow> policy_process \<Rightarrow> policy_process" where
  "end_operator ok s = s\<lparr>pr_operator := Op_Ended, pr_abort_failed := (pr_abort_failed s \<or> \<not> ok)\<rparr>"

section \<open>Process and host\<close>

record 'w coordinator =
  co_process :: policy_process
  co_host :: "'w host"

definition serve_call :: "'w nft_sys \<Rightarrow> 'w platform \<Rightarrow> 'w coordinator \<Rightarrow> 'w coordinator" where
  "serve_call sys pf s = (case pr_operator (co_process s) of
     Op_Call c \<Rightarrow> s\<lparr>co_host := snd (operate sys pf c (co_host s)), co_process := finish_call c (co_process s)\<rparr>
   | _ \<Rightarrow> s)"

definition abort_host :: "'w nft_sys \<Rightarrow> 'w platform \<Rightarrow> 'w coordinator \<Rightarrow> 'w coordinator" where
  "abort_host sys pf s =
     (if pr_operator (co_process s) \<noteq> Op_Abort then s
      else case abort sys pf (co_host s) of (r, h) \<Rightarrow> s\<lparr>co_host := h, co_process := end_operator (is_ok r) (co_process s)\<rparr>)"

text \<open>Every block of a thread between two points where another thread can intervene is one step.\<close>

inductive thread_step :: "policy_process \<Rightarrow> policy_process \<Rightarrow> bool" where
  submits: "thread_step s (snd (submit action generation arguments s))"
| sends: "thread_step s (submit_send delivered s)"
| closes: "thread_step s (begin_fail s)"
| fails: "thread_step s (end_fail s)"
| reader_loops: "thread_step s (reader_head s)"
| reads: "thread_step s (read_frame r s)"
| reader_ended: "thread_step s (reader_ends s)"
| operator_loops: "thread_step s (operator_head s)"
| takes: "thread_step s (take_work s)"
| answers: "thread_step s (answer_call delivered s)"
| operator_failed: "thread_step s (operator_fails s)"

inductive process_step :: "policy_process \<Rightarrow> policy_process \<Rightarrow> bool" where
  thread: "thread_step s t \<Longrightarrow> process_step s t"
| finishes: "pr_operator s = Op_Call c \<Longrightarrow> process_step s (finish_call c s)"
| ends: "pr_operator s = Op_Abort \<Longrightarrow> process_step s (end_operator ok s)"

text \<open>The same steps with the host: the operator's call and abort act on it.\<close>

inductive coordinator_step :: "'w nft_sys \<Rightarrow> 'w platform \<Rightarrow> 'w coordinator \<Rightarrow> 'w coordinator \<Rightarrow> bool" for sys pf where
  internal: "thread_step (co_process s) p \<Longrightarrow> coordinator_step sys pf s (s\<lparr>co_process := p\<rparr>)"
| serves: "coordinator_step sys pf s (serve_call sys pf s)"
| aborts: "coordinator_step sys pf s (abort_host sys pf s)"

text \<open>\<open>close\<close> waits for both threads and raises unless they have ended and the host was aborted.\<close>

definition close_returns :: "policy_process \<Rightarrow> bool" where
  "close_returns s \<longleftrightarrow> pr_reader s = Rd_Ended \<and> pr_operator s = Op_Ended \<and> \<not> pr_abort_failed s"

end
