(* ===== verification/Auto_Policy_Host.thy ===== *)
theory Auto_Policy_Host
  imports Auto_Policy
begin

text \<open>
  The host carries out every call of the policy as a run of the guard, so what holds of all runs of the guard
  holds whatever the policy asks for; and what each call that returns has achieved.
\<close>

section \<open>Host calls are runs of the guard\<close>

definition leaves :: "('w \<Rightarrow> 't) \<Rightarrow> ('e, 'w, 'a) act \<Rightarrow> bool" where
  "leaves table m \<longleftrightarrow> (\<forall>w. table (snd (m w)) = table w)"

text \<open>What the guard relies on: no part of the platform touches the guard's own table.\<close>

definition apart :: "('w \<Rightarrow> json list option) \<Rightarrow> 'w platform \<Rightarrow> bool" where
  "apart table pf \<longleftrightarrow> (\<forall>w. table (snd (pf_context pf w)) = table w) \<and> leaves table (pf_configure pf) \<and>
     (\<forall>c. leaves table (pf_prepare pf c)) \<and> (\<forall>c. leaves table (pf_open pf c)) \<and>
     (\<forall>m c. pf_applied pf = Some m \<longrightarrow> leaves table (m c)) \<and> (\<forall>m. pf_cancel_health pf = Some m \<longrightarrow> leaves table m) \<and>
     leaves table (pf_close pf) \<and> leaves table (pf_release pf) \<and> (\<forall>c. leaves table (pf_remember pf c))"

definition moves :: "'w nft_sys \<Rightarrow> ('w \<Rightarrow> json list option) \<Rightarrow> ('w, 'a) hact \<Rightarrow> bool" where
  "moves sys table m \<longleftrightarrow> (\<forall>s. steps (guard_step sys table) (ho_guard s) (ho_guard (snd (m s))))"

named_theorems move_rules \<open>actions of the host that move its guard by steps\<close>

lemma moves_bind [move_rules]: "moves sys table m \<Longrightarrow> (\<And>x. moves sys table (f x)) \<Longrightarrow> moves sys table (act_bind m f)"
  unfolding moves_def act_bind_def by (auto split: prod.split sum.split) (metis snd_conv, metis snd_conv steps_trans)

lemma moves_catch [move_rules]: "moves sys table m \<Longrightarrow> (\<And>e. moves sys table (h e)) \<Longrightarrow> moves sys table (act_catch m h)"
  unfolding moves_def act_catch_def by (auto split: prod.split sum.split) (metis snd_conv steps_trans, metis snd_conv)

lemma moves_still [move_rules]:
  "moves sys table (act_return x)" "moves sys table (act_get f)" "moves sys table (act_raise e)" "moves sys table (require c)"
  "moves sys table has_record" "moves sys table (act_put (\<lambda>s. s\<lparr>ho_configured := True\<rparr>))"
  "moves sys table (act_put (\<lambda>s. s\<lparr>ho_released := True\<rparr>))"
  by (auto simp: moves_def require_def has_record_def intro: steps_refl)

lemma moves_guard:
  "m = op_act sys p \<Longrightarrow> moves sys table (on_guard m)"
  unfolding moves_def on_guard_def
  by (auto split: prod.split intro!: step_steps guard_step.operate)

lemma moves_guard_ops [move_rules]:
  "moves sys table (on_guard (acquire sys))" "moves sys table (on_guard (block sys))" "moves sys table (on_guard (release sys))"
  "moves sys table (on_guard (prepare sys sel))" "moves sys table (on_guard (ready sys i b))"
  by (rule moves_guard [of _ _ Acquire] moves_guard [of _ _ Block] moves_guard [of _ _ Release]
      moves_guard [of _ _ "Prepare sel"] moves_guard [of _ _ "MakeReady i b"]; simp add: op_act_def)+

lemma moves_platform: "leaves table m \<Longrightarrow> moves sys table (on_platform m)"
  unfolding moves_def on_platform_def leaves_def
  by (auto split: prod.split intro!: step_steps guard_step.outside) (metis snd_conv)

lemma leaves_context:
  assumes "apart table pf"
  shows "leaves table (\<lambda>w. case pf_context pf w of (Live, w') \<Rightarrow> (Inr (), w')
     | (Cancelled, w') \<Rightarrow> (Inl (mk_failure ''CANCELLED'' False), w') | (Expired, w') \<Rightarrow> (Inl (mk_failure ''NETWORK'' False), w'))"
proof -
  have "table (snd (pf_context pf w)) = table w" for w using assms by (simp add: apart_def)
  then show ?thesis unfolding leaves_def by (auto split: prod.split ctx.split) (metis snd_conv)+
qed

lemma moves_context [move_rules]: "apart table pf \<Longrightarrow> moves sys table (context_check pf)"
  unfolding context_check_def by (rule moves_platform [OF leaves_context])

lemma moves_call:
  assumes "apart table pf"
  shows "moves sys table (call sys pf rq)"
proof -
  have pf: "moves sys table (on_platform (pf_configure pf))" "moves sys table (on_platform (pf_prepare pf c))"
    "moves sys table (on_platform (pf_open pf c))" "moves sys table (on_platform (pf_close pf))"
    "moves sys table (on_platform (pf_release pf))" "moves sys table (on_platform (pf_remember pf c))" for c
    using assms by (auto simp: apart_def intro: moves_platform)
  have opt: "moves sys table (case pf_applied pf of None \<Rightarrow> act_return () | Some a \<Rightarrow> on_platform (a c))"
    "moves sys table (case pf_cancel_health pf of None \<Rightarrow> act_return () | Some m \<Rightarrow> on_platform m)" for c
    using assms by (auto simp: apart_def intro: moves_platform move_rules split: option.split)
  note rules = move_rules moves_context [OF assms] pf opt
  have gd: "moves sys table (on_guard (if b then block sys else acquire sys))" for b
    by (cases b) (auto intro: move_rules)
  have conf: "moves sys table (call_configure sys pf)"
    unfolding call_configure_def by (intro rules gd)
  have op: "moves sys table (call_open sys pf c)" for c
    unfolding call_open_def by (intro rules) (auto split: prod.split intro!: rules)
  have cl: "moves sys table (call_close sys pf)"
    unfolding call_close_def by (intro rules) (auto intro!: rules)
  have rel: "moves sys table (call_release sys pf)"
    unfolding call_release_def by (intro rules) (auto intro!: rules)
  show ?thesis unfolding call_def
    by (intro rules) (auto split: host_op.split intro!: rules conf op cl rel)
qed

lemma moves_abort:
  assumes "apart table pf"
  shows "moves sys table (abort sys pf)"
  unfolding abort_def using assms
  by (intro move_rules) (auto simp: apart_def intro!: move_rules moves_platform)

lemma moves_snd: "moves sys table m \<Longrightarrow> m s = (r, s') \<Longrightarrow> steps (guard_step sys table) (ho_guard s) (ho_guard s')"
  unfolding moves_def by (drule spec [of _ s]) simp

lemma operate_steps:
  assumes "apart table pf" "operate sys pf rq s = (reply, s')"
  shows "steps (guard_step sys table) (ho_guard s) (ho_guard s')"
proof -
  let ?m = "act_bind (call sys pf rq) (\<lambda>result. act_bind (context_check pf) (\<lambda>_. act_bind (require (length result \<le> 3)) (\<lambda>_.
     act_bind (require (result = [] \<or> hc_op rq = Configure)) (\<lambda>_.
     act_bind (require (set result \<subseteq> {''wg'', ''awg'', ''tcp''} \<and> distinct result)) (\<lambda>_. act_return result)))))"
  obtain r s1 where m: "?m s = (r, s1)" by (cases "?m s")
  have "s1 = s'"
    using assms(2) unfolding operate_def m by (cases r) (simp_all split: host_error.split_asm)
  moreover have "moves sys table ?m"
    by (rule moves_bind [OF moves_call [OF assms(1)]]) (intro move_rules moves_context [OF assms(1)])
  ultimately show ?thesis using moves_snd [of sys table ?m s r s1] m by simp
qed

section \<open>Containment through the host\<close>

text \<open>What does not depend on the outside world beyond the guard's table survives whatever the platform does.\<close>

definition steady :: "('w \<Rightarrow> json list option) \<Rightarrow> ('w host \<Rightarrow> bool) \<Rightarrow> bool" where
  "steady table P \<longleftrightarrow> (\<forall>s w. P s \<longrightarrow> table w = table (gd_world (ho_guard s)) \<longrightarrow> P (s\<lparr>ho_guard := (ho_guard s)\<lparr>gd_world := w\<rparr>\<rparr>))"

lemma settled_world:
  assumes "settled_in table md g" "table w = table (gd_world g)"
  shows "settled_in table md (g\<lparr>gd_world := w\<rparr>)"
  using assms by (auto simp: settled_in_def settled_def)

lemma steady_simps [simp]:
  "steady table (\<lambda>s. guard_inv table (ho_guard s))" "steady table (\<lambda>s. kept table t (ho_guard s))"
  "steady table (\<lambda>s. settled_in table md (ho_guard s))" "steady table (\<lambda>s. vacant table (ho_guard s))"
  "steady table (\<lambda>s. gd_record (ho_guard s) = r)" "steady table (\<lambda>s. gd_file (ho_guard s) = f)"
  "steady table (\<lambda>s. table (gd_world (ho_guard s)) = t)" "steady table ho_released"
  by (auto simp: steady_def guard_inv_world kept_def vacant_def intro: settled_world)

lemma steady_conj [simp]: "steady table P \<Longrightarrow> steady table Q \<Longrightarrow> steady table (\<lambda>s. P s \<and> Q s)"
  by (simp add: steady_def)

lemma triple_platform:
  assumes "leaves table m" "steady table P" "\<And>s. P s \<Longrightarrow> E s"
  shows "triple P (on_platform m) (\<lambda>_. P) E"
proof (rule tripleI)
  fix s assume "P s"
  obtain r w where m: "m (gd_world (ho_guard s)) = (r, w)" by fastforce
  with assms(1) have "table w = table (gd_world (ho_guard s))" unfolding leaves_def by (metis snd_conv)
  with assms(2) \<open>P s\<close> have "P (s\<lparr>ho_guard := (ho_guard s)\<lparr>gd_world := w\<rparr>\<rparr>)" by (simp add: steady_def)
  with m assms(3) show "after (\<lambda>_. P) E (on_platform m s)" by (cases r) (simp_all add: on_platform_def)
qed

lemma bind_platform:
  assumes "leaves table m" "steady table P" "\<And>x. triple P (f x) Q E" "\<And>s. P s \<Longrightarrow> E s"
  shows "triple P (act_bind (on_platform m) f) Q E"
  by (rule triple_bind [OF triple_platform [OF assms(1,2,4)] assms(3)])

lemmas bind_context = bind_platform [OF leaves_context, folded context_check_def]

lemma bind_require:
  "(c \<Longrightarrow> triple P (f ()) Q E) \<Longrightarrow> (\<And>s. P s \<Longrightarrow> E s) \<Longrightarrow> triple P (act_bind (require c) f) Q E"
  unfolding require_def by (rule bind_check)

lemma triple_guard:
  assumes "triple P (m :: ('w, unit) gact) (\<lambda>_. R) E"
  shows "triple (\<lambda>s. P (ho_guard s)) (on_guard m) (\<lambda>x s. R (ho_guard s)) (\<lambda>s. E (ho_guard s))"
proof (rule tripleI)
  fix s :: "'w host" assume "P (ho_guard s)"
  with assms have "after (\<lambda>_. R) E (m (ho_guard s))" by (simp add: triple_def)
  then show "after (\<lambda>x s. R (ho_guard s)) (\<lambda>s. E (ho_guard s)) (on_guard m s)"
    by (cases m "ho_guard s" rule: act_cases) (simp_all add: on_guard_def)
qed

lemma bind_guard:
  assumes "triple P (m :: ('w, unit) gact) (\<lambda>_. R) E" "triple (\<lambda>s. R (ho_guard s)) (f ()) Q (\<lambda>s. E (ho_guard s))"
  shows "triple (\<lambda>s. P (ho_guard s)) (act_bind (on_guard m) f) Q (\<lambda>s. E (ho_guard s))"
  by (rule triple_bind [OF triple_guard [OF assms(1)]]) (simp add: assms(2))

lemma settled_kept: "settled_in table md g \<Longrightarrow> kept table t g"
  by (auto dest: settled_inv simp: kept_def)

section \<open>What each call achieves\<close>

text \<open>The guard's journal, its record and the table before a call.\<close>

definition before_call :: "('w \<Rightarrow> json list option) \<Rightarrow> 'w host \<Rightarrow> 'w host \<Rightarrow> bool" where
  "before_call table s0 s \<longleftrightarrow> guard_inv table (ho_guard s) \<and> gd_record (ho_guard s) = gd_record (ho_guard s0) \<and>
     gd_file (ho_guard s) = gd_file (ho_guard s0) \<and> table (gd_world (ho_guard s)) = table (gd_world (ho_guard s0))"

abbreviation table_of :: "('w \<Rightarrow> json list option) \<Rightarrow> 'w host \<Rightarrow> json list option" where
  "table_of table s \<equiv> table (gd_world (ho_guard s))"

definition call_effect :: "('w \<Rightarrow> json list option) \<Rightarrow> host_op \<Rightarrow> 'w host \<Rightarrow> 'w host \<Rightarrow> bool" where
  "call_effect table p s0 s = (case p of
     Configure \<Rightarrow> settled_in table Blocked (ho_guard s)
   | OpenC _ \<Rightarrow> settled_in table Open (ho_guard s)
   | CloseC \<Rightarrow> if gd_record (ho_guard s0) = None then before_call table s0 s else settled_in table Blocked (ho_guard s)
   | ReleaseC \<Rightarrow> ho_released s \<and> (if gd_record (ho_guard s0) = None then before_call table s0 s else vacant table (ho_guard s))
   | Remember _ \<Rightarrow> before_call table s0 s)"

lemma before_kept: "before_call table s0 s \<Longrightarrow> kept table (table_of table s0) (ho_guard s)"
  by (simp add: before_call_def kept_def)

lemma steady_before [simp]: "steady table (before_call table s0)"
  unfolding before_call_def by (intro steady_conj steady_simps)

lemma steady_effect [simp]: "steady table (call_effect table p s0)"
  by (cases p; cases "gd_record (ho_guard s0)") (simp_all add: call_effect_def [abs_def])

lemma configure_effect:
  assumes fw: "atomic_firewall sys table" and ap: "apart table pf"
  shows "triple (\<lambda>s. kept table t (ho_guard s)) (call_configure sys pf) (\<lambda>_ s. settled_in table Blocked (ho_guard s)) (\<lambda>s. kept table t (ho_guard s))"
proof -
  have conf: "leaves table (pf_configure pf)" using ap by (simp add: apart_def)
  have gd: "triple (kept table t) (if b then block sys else acquire sys) (\<lambda>_. settled_in table Blocked) (kept table t)" for b
    using block_ok [OF fw] acquire_ok [OF fw] by (cases b) simp_all
  show ?thesis
    unfolding call_configure_def
    apply (rule triple_bind [OF triple_get [where Q = "\<lambda>_ s. kept table t (ho_guard s)"]], assumption)
    apply (rule bind_require)
     apply (rule triple_bind [OF triple_put [where Q = "\<lambda>_ s. kept table t (ho_guard s)"]], simp)
     apply (rule bind_guard [OF gd])
     apply (rule bind_platform [OF conf], simp)
      apply (rule bind_require)
       apply (rule bind_context [OF ap], simp)
        apply (rule triple_return)
    by (auto intro: settled_kept)
qed

lemma open_effect:
  assumes fw: "atomic_firewall sys table" and ap: "apart table pf"
  shows "triple (\<lambda>s. kept table t (ho_guard s)) (call_open sys pf c) (\<lambda>_ s. settled_in table Open (ho_guard s)) (\<lambda>s. kept table t (ho_guard s))"
proof -
  have pf: "leaves table (pf_prepare pf c)" "leaves table (pf_open pf c)" using ap by (simp_all add: apart_def)
  have last: "triple (\<lambda>s. settled_in table Open (ho_guard s))
      (act_bind (case pf_applied pf of None \<Rightarrow> act_return () | Some a \<Rightarrow> on_platform (a c)) (\<lambda>_. act_bind (context_check pf) (\<lambda>_. act_return [])))
      (\<lambda>_ s. settled_in table Open (ho_guard s)) (\<lambda>s. kept table t (ho_guard s))"
  proof (cases "pf_applied pf")
    case None
    show ?thesis unfolding None option.case
      by (rule triple_bind [OF triple_return], assumption, rule bind_context [OF ap]) (auto intro: triple_return settled_kept)
  next
    case (Some a)
    then have "leaves table (a c)" using ap by (simp add: apart_def)
    then show ?thesis unfolding Some option.case
      by (rule bind_platform) (auto intro!: bind_context [OF ap] triple_return intro: settled_kept)
  qed
  have clean: "triple (\<lambda>s. kept table t (ho_guard s))
      (act_bind (case pf_cancel_health pf of None \<Rightarrow> act_return () | Some m \<Rightarrow> on_platform m) (\<lambda>_. act_raise e))
      (\<lambda>_ s. settled_in table Open (ho_guard s)) (\<lambda>s. kept table t (ho_guard s))" for e
  proof (cases "pf_cancel_health pf")
    case None
    show ?thesis unfolding None option.case by (rule triple_bind [OF triple_return], assumption) (rule triple_raise)
  next
    case (Some m)
    then have "leaves table m" using ap by (simp add: apart_def)
    then show ?thesis unfolding Some option.case by (rule bind_platform) (auto intro: triple_raise)
  qed
  show ?thesis
    unfolding call_open_def
    apply (rule triple_catch [OF _ clean])
    apply (rule bind_platform [OF pf(1)], simp)
     apply (rule bind_context [OF ap], simp)
      apply (rule bind_require)
       apply (rule bind_guard [OF prepare_ok [OF fw]])
       apply (rule triple_pre [where P' = "\<lambda>s. kept table t (ho_guard s)"])
        apply (rule bind_platform [OF pf(2)], simp)
         apply (simp only: split_def)
         apply (rule bind_context [OF ap], simp)
          apply (rule bind_guard [OF ready_ok [OF fw]])
          apply (rule bind_context [OF ap], simp)
           apply (rule last)
    by (auto intro: settled_kept)
qed

lemma close_effect:
  assumes fw: "atomic_firewall sys table" and ap: "apart table pf"
  shows "triple (before_call table s0) (call_close sys pf) (\<lambda>_. call_effect table CloseC s0) (\<lambda>s. kept table (table_of table s0) (ho_guard s))"
proof -
  have cl: "leaves table (pf_close pf)" using ap by (simp add: apart_def)
  let ?K = "\<lambda>s. kept table (table_of table s0) (ho_guard s)"
  have held: "triple ?K (act_bind (on_guard (block sys)) (\<lambda>_. on_platform (pf_close pf))) (\<lambda>_ s. settled_in table Blocked (ho_guard s)) ?K"
    by (rule bind_guard [OF block_ok [OF fw]], rule triple_platform [OF cl]) (auto intro: settled_kept)
  show ?thesis
    unfolding call_close_def has_record_def
  proof (rule triple_bind [OF triple_get [where Q = "\<lambda>b s. before_call table s0 s \<and> b = (gd_record (ho_guard s0) \<noteq> None)"]])
    show "before_call table s0 s \<Longrightarrow> before_call table s0 s \<and> (gd_record (ho_guard s) \<noteq> None) = (gd_record (ho_guard s0) \<noteq> None)" for s
      by (simp add: before_call_def)
    show "triple (\<lambda>s. before_call table s0 s \<and> r = (gd_record (ho_guard s0) \<noteq> None))
        (if r then act_bind (on_guard (block sys)) (\<lambda>_. on_platform (pf_close pf)) else act_return ())
        (\<lambda>_. call_effect table CloseC s0) ?K" for r
      by (rule triple_fact', cases r)
        (auto simp: call_effect_def intro: before_kept triple_return triple_weaken [OF held])
  qed
qed

lemma release_effect:
  assumes fw: "atomic_firewall sys table" and ap: "apart table pf"
  shows "triple (before_call table s0) (call_release sys pf) (\<lambda>_. call_effect table ReleaseC s0) (\<lambda>s. guard_inv table (ho_guard s))"
proof -
  let ?I = "\<lambda>s. guard_inv table (ho_guard s)"
  have rl: "leaves table (pf_release pf)" using ap by (simp add: apart_def)
  have put: "triple (\<lambda>s. if gd_record (ho_guard s0) = None then before_call table s0 s else vacant table (ho_guard s))
      (act_put (\<lambda>s. s\<lparr>ho_released := True\<rparr>)) (\<lambda>_. call_effect table ReleaseC s0) ?I"
    by (rule triple_put) (auto simp: call_effect_def before_call_def split: if_splits)
  have rel: "triple ?I (on_guard (release sys)) (\<lambda>_ s. vacant table (ho_guard s)) ?I" by (rule triple_guard [OF release_ok [OF fw]])
  have held: "triple ?I (act_bind (on_platform (pf_release pf)) (\<lambda>_. act_bind (context_check pf) (\<lambda>_. on_guard (release sys))))
      (\<lambda>_ s. vacant table (ho_guard s)) ?I"
    by (rule bind_platform [OF rl], simp, rule bind_context [OF ap], simp, rule rel)
  show ?thesis
    unfolding call_release_def has_record_def
  proof (rule triple_bind [OF triple_get [where Q = "\<lambda>b s. before_call table s0 s \<and> b = (gd_record (ho_guard s0) \<noteq> None)"]], rule_tac [2] triple_bind [OF _ put])
    show "before_call table s0 s \<Longrightarrow> before_call table s0 s \<and> (gd_record (ho_guard s) \<noteq> None) = (gd_record (ho_guard s0) \<noteq> None)" for s
      by (simp add: before_call_def)
    show "triple (\<lambda>s. before_call table s0 s \<and> r = (gd_record (ho_guard s0) \<noteq> None))
        (if r then act_bind (on_platform (pf_release pf)) (\<lambda>_. act_bind (context_check pf) (\<lambda>_. on_guard (release sys))) else act_return ())
        (\<lambda>_ s. if gd_record (ho_guard s0) = None then before_call table s0 s else vacant table (ho_guard s)) ?I" for r
      by (rule triple_fact', cases r)
        (auto simp: before_call_def intro: triple_return triple_weaken [OF held])
  qed
qed

text \<open>What is left of a call that fails.\<close>

definition call_left :: "('w \<Rightarrow> json list option) \<Rightarrow> host_op \<Rightarrow> 'w host \<Rightarrow> 'w host \<Rightarrow> bool" where
  "call_left table p s0 s \<longleftrightarrow> (if p = ReleaseC then guard_inv table (ho_guard s) else kept table (table_of table s0) (ho_guard s))"

lemma before_left: "before_call table s0 s \<Longrightarrow> call_left table p s0 s"
  by (simp add: call_left_def before_kept) (simp add: before_call_def)

lemma effect_left: "call_effect table p s0 s \<Longrightarrow> call_left table p s0 s"
  by (cases p) (auto simp: call_effect_def call_left_def vacant_def intro: settled_kept before_kept before_left [unfolded call_left_def, of _ _ _ ReleaseC, simplified]
      split: if_splits)

lemma triple_call:
  assumes fw: "atomic_firewall sys table" and ap: "apart table pf"
  shows "triple (before_call table s0) (call sys pf rq) (\<lambda>_. call_effect table (hc_op rq) s0) (call_left table (hc_op rq) s0)"
proof -
  have fin: "triple (call_effect table p s0) (act_bind (context_check pf) (\<lambda>_. act_return [])) (\<lambda>_. call_effect table p s0) (call_left table p s0)" for p
    by (rule bind_context [OF ap]) (auto intro: triple_return effect_left)
  have rm: "leaves table (pf_remember pf c)" for c using ap by (simp add: apart_def)
  have "triple (before_call table s0) (case hc_op rq of
       Configure \<Rightarrow> call_configure sys pf
     | OpenC selected \<Rightarrow> call_open sys pf selected
     | CloseC \<Rightarrow> act_bind (call_close sys pf) (\<lambda>_. act_bind (context_check pf) (\<lambda>_. act_return []))
     | ReleaseC \<Rightarrow> act_bind (call_release sys pf) (\<lambda>_. act_bind (context_check pf) (\<lambda>_. act_return []))
     | Remember selected \<Rightarrow> act_bind (on_platform (pf_remember pf selected)) (\<lambda>_. act_bind (context_check pf) (\<lambda>_. act_return [])))
     (\<lambda>_. call_effect table (hc_op rq) s0) (call_left table (hc_op rq) s0)"
  proof (cases "hc_op rq")
    case Configure
    then show ?thesis
      by simp (rule triple_weaken [OF configure_effect [OF fw ap, where t = "table_of table s0"]]; auto simp: call_effect_def call_left_def before_kept)
  next
    case (OpenC c)
    then show ?thesis
      by simp (rule triple_weaken [OF open_effect [OF fw ap, where t = "table_of table s0"]]; auto simp: call_effect_def call_left_def before_kept)
  next
    case CloseC
    then show ?thesis
      by simp (rule triple_bind [OF triple_weaken [OF close_effect [OF fw ap]] fin]; simp add: call_left_def)
  next
    case ReleaseC
    then show ?thesis
      by simp (rule triple_bind [OF triple_weaken [OF release_effect [OF fw ap]] fin]; simp add: call_left_def)
  next
    case (Remember c)
    have "triple (before_call table s0) (act_bind (on_platform (pf_remember pf c)) (\<lambda>_. act_bind (context_check pf) (\<lambda>_. act_return [])))
        (\<lambda>_. before_call table s0) (call_left table (Remember c) s0)"
      by (rule bind_platform [OF rm], simp, rule bind_context [OF ap]) (auto intro: triple_return before_left)
    with Remember show ?thesis by (simp add: call_effect_def [abs_def])
  qed
  then show ?thesis
    unfolding call_def
    by (intro triple_bind [OF triple_get [where Q = "\<lambda>_. before_call table s0"]] bind_require bind_context [OF ap])
      (auto intro: before_left)
qed

lemma operate_effect:
  assumes fw: "atomic_firewall sys table" and ap: "apart table pf" and inv: "guard_inv table (ho_guard s)"
    and op: "operate sys pf rq s = (reply, s')"
  shows "(hr_ok reply \<longrightarrow> call_effect table (hc_op rq) s s') \<and> call_left table (hc_op rq) s s'"
proof -
  let ?m = "act_bind (call sys pf rq) (\<lambda>result. act_bind (context_check pf) (\<lambda>_. act_bind (require (length result \<le> 3)) (\<lambda>_.
     act_bind (require (result = [] \<or> hc_op rq = Configure)) (\<lambda>_.
     act_bind (require (set result \<subseteq> {''wg'', ''awg'', ''tcp''} \<and> distinct result)) (\<lambda>_. act_return result)))))"
  have t: "triple (before_call table s) ?m (\<lambda>_. call_effect table (hc_op rq) s) (call_left table (hc_op rq) s)"
    by (rule triple_bind [OF triple_call [OF fw ap]])
      (intro bind_context [OF ap] bind_require triple_return; simp add: effect_left)
  have b: "before_call table s s" using inv by (simp add: before_call_def)
  obtain r s1 where m: "?m s = (r, s1)" by (cases "?m s")
  show ?thesis
  proof (cases r)
    case (Inl e)
    with op m have "s1 = s'" "\<not> hr_ok reply" unfolding operate_def by (auto split: host_error.split_asm)
    with tripleD_err [OF t b] m Inl show ?thesis by simp
  next
    case (Inr x)
    with op m have "s1 = s'" unfolding operate_def by simp
    with tripleD_ok [OF t b] m Inr show ?thesis by (simp add: effect_left)
  qed
qed

end
