(* ===== verification/Auto_Policy_Safety.thy ===== *)
theory Auto_Policy_Safety
  imports Auto_Policy_Host
begin

text \<open>
  What the policy process can and cannot do: its calls stay under the guard and achieve what they answer, its tickets are
  answered once and its calls served one at a time, and a process that was closed has left the host contained.
\<close>

section \<open>Containment through the host\<close>

lemma on_platform_guard:
  assumes "on_platform m s = (r, s')" "leaves table m"
  shows "\<exists>w. ho_guard s' = (ho_guard s)\<lparr>gd_world := w\<rparr> \<and> table w = table (gd_world (ho_guard s)) \<and>
     ho_released s' = ho_released s \<and> ho_configured s' = ho_configured s"
  using assms by (auto simp: on_platform_def leaves_def split: prod.splits) (metis snd_conv)

lemma on_guard_Inr: "on_guard m s = (Inr x, s') \<longleftrightarrow> (\<exists>g. m (ho_guard s) = (Inr x, g) \<and> s' = s\<lparr>ho_guard := g\<rparr>)"
  by (auto simp: on_guard_def split: prod.splits)

lemma act_bind_Inr: "act_bind m f s = (Inr y, s') \<longleftrightarrow> (\<exists>x t. m s = (Inr x, t) \<and> f x t = (Inr y, s'))"
  by (auto simp: act_bind_def split: prod.splits sum.splits)

text \<open>C13. The policy process never gets around the guard.  A call that is answered with success has done its work: \<open>configure\<close> has the
  blocked policy recorded and in force, \<open>open\<close> an open one, \<open>close\<close> of a held guard the blocked one, \<open>release\<close> has released the
  host and, for a held guard, removed journal and table, \<open>remember\<close> has changed neither.  No call but \<open>release\<close>, answered or
  failed at any point, leaves a guarded host without a table.\<close>

theorem host_calls_take_effect:
  assumes "reach (guarded_init sys table) (guard_step sys table) (ho_guard s)" and "apart table pf"
    and "operate sys pf rq s = (reply, s')"
  shows "(hr_ok reply \<longrightarrow> (case hc_op rq of
       Configure \<Rightarrow> settled_in table Blocked (ho_guard s')
     | OpenC _ \<Rightarrow> settled_in table Open (ho_guard s')
     | CloseC \<Rightarrow> gd_record (ho_guard s) \<noteq> None \<longrightarrow> settled_in table Blocked (ho_guard s')
     | ReleaseC \<Rightarrow> ho_released s' \<and> (gd_record (ho_guard s) \<noteq> None \<longrightarrow> vacant table (ho_guard s'))
     | Remember _ \<Rightarrow> gd_file (ho_guard s') = gd_file (ho_guard s) \<and> table (gd_world (ho_guard s')) = table (gd_world (ho_guard s)))) \<and>
   (hc_op rq \<noteq> ReleaseC \<longrightarrow> table (gd_world (ho_guard s)) \<noteq> None \<longrightarrow> table (gd_world (ho_guard s')) \<noteq> None)"
proof -
  have "atomic_firewall sys table" "guard_inv table (ho_guard s)" using gd.reach_inv [OF assms(1)] by (simp_all add: guarded_def)
  from operate_effect [OF this(1) assms(2) this(2) assms(3)] show ?thesis
    by (cases "hc_op rq") (auto simp: call_effect_def call_left_def before_call_def kept_def)
qed

lemma abort_settles:
  assumes "reach (guarded_init sys table) (guard_step sys table) (ho_guard s)" and "apart table pf"
    and "\<not> ho_released s" and "gd_record (ho_guard s) \<noteq> None" and "abort sys pf s = (Inr (), s')"
  shows "settled_in table Blocked (ho_guard s')"
proof -
  have fw: "atomic_firewall sys table" and k: "kept table None (ho_guard s)"
    using gd.reach_inv [OF assms(1)] by (simp_all add: guarded_def kept_def)
  from assms(3-5) obtain g where b: "block sys (ho_guard s) = (Inr (), g)" and c: "on_platform (pf_close pf) (s\<lparr>ho_guard := g\<rparr>) = (Inr (), s')"
    by (auto simp: abort_def act_bind_Inr on_guard_Inr)
  from tripleD_ok [OF block_ok [OF fw] k b] have "settled_in table Blocked g" .
  moreover have "leaves table (pf_close pf)" using assms(2) by (simp add: apart_def)
  ultimately show ?thesis using on_platform_guard [OF c, of table] by (auto intro: settled_world)
qed

text \<open>C14. Aborting the host fails closed: when it returns and the guard was held, the blocked policy is recorded and in force.\<close>

theorem abort_blocks:
  assumes "reach (guarded_init sys table) (guard_step sys table) (ho_guard s)" and "apart table pf"
    and "\<not> ho_released s" and "gd_record (ho_guard s) \<noteq> None" and "abort sys pf s = (Inr (), s')"
  shows "settled_in table Blocked (ho_guard s')"
  using assms by (rule abort_settles)

section \<open>Tickets and calls\<close>

text \<open>A ticket waits exactly while its command is pending.  Once the process is stopping, tickets wait only while some thread that
  set the flag has not yet come to failing them.\<close>

definition fail_due :: "policy_process \<Rightarrow> bool" where
  "fail_due s \<longleftrightarrow> pr_failing s > 0 \<or> pr_reader s = Rd_Failing \<or> pr_operator s = Op_Failing"

definition ticket_inv :: "policy_process \<Rightarrow> bool" where
  "ticket_inv s \<longleftrightarrow>
     distinct (pr_pending s) \<and> length (pr_pending s) \<le> 4 \<and> 0 \<le> pr_identifier s \<and> pr_identifier s \<le> max_id \<and>
     (\<forall>i. i \<in> set (pr_pending s) \<longleftrightarrow> pr_tickets s i = Some Waiting) \<and> dom (pr_tickets s) = {1..pr_identifier s}"

definition stop_inv :: "policy_process \<Rightarrow> bool" where
  "stop_inv s \<longleftrightarrow> (fail_due s \<longrightarrow> pr_stopping s) \<and> (pr_stopping s \<longrightarrow> pr_pending s = [] \<or> fail_due s) \<and>
     (pr_reader s = Rd_Ended \<longrightarrow> pr_stopping s \<and> pr_pending s = [])"

text \<open>A call is queued, or carried out, or neither.\<close>

definition call_inv :: "policy_process \<Rightarrow> bool" where
  "call_inv s \<longleftrightarrow> pr_completed_call s \<le> pr_last_call s \<and>
     (case pr_active s of
        None \<Rightarrow> pr_work s = [] \<and> (\<forall>c. pr_operator s \<noteq> Op_Call c)
      | Some (c, _) \<Rightarrow> hc_id c = pr_last_call s \<and> pr_completed_call s < pr_last_call s \<and>
          (pr_work s = [c] \<and> (\<forall>c. pr_operator s \<noteq> Op_Call c) \<or> pr_work s = [] \<and> pr_operator s = Op_Call c))"

definition process_inv :: "policy_process \<Rightarrow> bool" where
  "process_inv s \<longleftrightarrow> ticket_inv s \<and> stop_inv s \<and> call_inv s"

lemma ticket_frame [simp]:
  "ticket_inv (s\<lparr>pr_active := a\<rparr>) = ticket_inv s" "ticket_inv (s\<lparr>pr_work := w\<rparr>) = ticket_inv s"
  "ticket_inv (s\<lparr>pr_operator := r\<rparr>) = ticket_inv s" "ticket_inv (s\<lparr>pr_last_call := l\<rparr>) = ticket_inv s"
  "ticket_inv (s\<lparr>pr_completed_call := l\<rparr>) = ticket_inv s" "ticket_inv (s\<lparr>pr_reader := r'\<rparr>) = ticket_inv s"
  "ticket_inv (s\<lparr>pr_stopping := b\<rparr>) = ticket_inv s" "ticket_inv (s\<lparr>pr_failing := n\<rparr>) = ticket_inv s"
  "ticket_inv (s\<lparr>pr_abort_failed := b'\<rparr>) = ticket_inv s"
  by (simp_all add: ticket_inv_def)

lemma call_frame [simp]:
  "call_inv (s\<lparr>pr_pending := p\<rparr>) = call_inv s" "call_inv (s\<lparr>pr_tickets := t\<rparr>) = call_inv s"
  "call_inv (s\<lparr>pr_identifier := i\<rparr>) = call_inv s" "call_inv (s\<lparr>pr_stopping := b\<rparr>) = call_inv s"
  "call_inv (s\<lparr>pr_failing := n\<rparr>) = call_inv s" "call_inv (s\<lparr>pr_reader := r\<rparr>) = call_inv s"
  "call_inv (s\<lparr>pr_abort_failed := b'\<rparr>) = call_inv s"
  by (simp_all add: call_inv_def split: option.split)

lemma fail_tickets_inv:
  assumes "ticket_inv s"
  shows "ticket_inv (fail_tickets s)" "call_inv (fail_tickets s) = call_inv s"
proof -
  have "dom (pr_tickets (fail_tickets s)) = dom (pr_tickets s) \<union> set (pr_pending s)"
    by (auto simp: fail_tickets_def)
  also have "\<dots> = dom (pr_tickets s)" using assms by (auto simp: ticket_inv_def)
  finally show "ticket_inv (fail_tickets s)" using assms by (simp add: ticket_inv_def fail_tickets_def)
  show "call_inv (fail_tickets s) = call_inv s" by (auto simp: call_inv_def fail_tickets_def split: option.splits)
qed

lemma fail_tickets_fields [simp]:
  "pr_pending (fail_tickets s) = []" "pr_stopping (fail_tickets s) = pr_stopping s" "pr_failing (fail_tickets s) = pr_failing s"
  "pr_reader (fail_tickets s) = pr_reader s" "pr_operator (fail_tickets s) = pr_operator s"
  by (simp_all add: fail_tickets_def)

lemma ticket_fresh: "ticket_inv s \<Longrightarrow> pr_tickets s (pr_identifier s + 1) = None"
  unfolding ticket_inv_def by (metis atLeastAtMost_iff domIff less_add_one linorder_not_less)

lemma submit_inv: "process_inv s \<Longrightarrow> process_inv (snd (submit action generation arguments s))"
proof -
  assume inv: "process_inv s"
  let ?i = "pr_identifier s + 1"
  let ?s = "s\<lparr>pr_identifier := ?i, pr_pending := pr_pending s @ [?i], pr_tickets := (pr_tickets s)(?i \<mapsto> Waiting)\<rparr>"
  have fresh: "pr_tickets s ?i = None" using inv by (simp add: process_inv_def ticket_fresh)
  then have new: "?i \<notin> set (pr_pending s)" using inv by (simp add: process_inv_def ticket_inv_def)
  have "ticket_inv ?s" if "pr_identifier s < max_id" "length (pr_pending s) < 4"
    using inv that fresh new by (auto simp: process_inv_def ticket_inv_def simp del: dom_def)
  moreover have "stop_inv ?s" if "\<not> pr_stopping s" using inv that by (auto simp: process_inv_def stop_inv_def fail_due_def)
  ultimately show ?thesis using inv by (auto simp: submit_def Let_def process_inv_def)
qed

lemma reply_inv:
  assumes "ticket_inv s" "i \<in> set (pr_pending s)"
  shows "ticket_inv (s\<lparr>pr_pending := remove1 i (pr_pending s), pr_tickets := (pr_tickets s)(i \<mapsto> Replied v)\<rparr>)"
proof -
  have "pr_tickets s i = Some Waiting" using assms by (simp add: ticket_inv_def)
  then have "dom ((pr_tickets s)(i \<mapsto> Replied v)) = dom (pr_tickets s)" by auto
  with assms show ?thesis by (simp add: ticket_inv_def length_remove1) auto
qed

lemma stop_inv_cong:
  assumes "stop_inv s" "pr_stopping t = pr_stopping s" "fail_due t = fail_due s" "set (pr_pending t) \<subseteq> set (pr_pending s)"
    "pr_reader t = pr_reader s"
  shows "stop_inv t"
  using assms by (auto simp: stop_inv_def)

lemma accept_inv:
  assumes "process_inv s" "accept_frame f s = (ok, s')"
  shows "process_inv s' \<and> pr_reader s' = pr_reader s"
proof (cases f)
  case (Reply i v)
  with assms show ?thesis
    by (auto simp: accept_frame_def process_inv_def reply_inv split: if_splits elim!: stop_inv_cong) (auto simp: fail_due_def dest: subsetD [OF set_remove1_subset])
next
  case (HostCancel i)
  with assms show ?thesis
    by (auto simp: accept_frame_def process_inv_def split: if_splits option.split_asm elim!: stop_inv_cong) (auto simp: call_inv_def fail_due_def)
next
  case (HostCall c)
  with assms show ?thesis
    by (auto simp: accept_frame_def process_inv_def Let_def split: if_splits elim!: stop_inv_cong) (auto simp: call_inv_def fail_due_def)
qed

lemma reader_fails_inv: "process_inv s \<Longrightarrow> pr_reader s \<noteq> Rd_Ended \<Longrightarrow> process_inv (reader_fails s)"
  by (auto simp: process_inv_def reader_fails_def stop_inv_def fail_due_def)

lemma read_inv:
  assumes "process_inv s"
  shows "process_inv (read_frame r s)"
proof -
  have go: "process_inv (t\<lparr>pr_reader := Rd_Head\<rparr>)" if "process_inv t" "pr_reader t = Rd_Receive" for t
    using that by (auto simp: process_inv_def stop_inv_def fail_due_def)
  show ?thesis
  proof (cases "pr_reader s = Rd_Receive")
    case True
    have frame: "process_inv (case accept_frame f s of (ok, t) \<Rightarrow> if ok then t\<lparr>pr_reader := Rd_Head\<rparr> else reader_fails t)" for f
      using accept_inv [OF assms] go reader_fails_inv True by (auto split: prod.split)
    with True assms go reader_fails_inv [of s] show ?thesis
      by (auto simp: read_frame_def split: received.split option.split)
  qed (simp add: read_frame_def assms)
qed

lemma thread_inv:
  assumes "thread_step s t" "process_inv s"
  shows "process_inv t"
  using assms(1)
proof cases
  case submits
  with assms(2) submit_inv show ?thesis by simp
next
  case reads
  with assms(2) read_inv show ?thesis by simp
next
  case reader_loops
  with assms(2) reader_fails_inv [of s] show ?thesis
    by (auto simp: reader_head_def) (auto simp: process_inv_def stop_inv_def fail_due_def)
next
  case fails
  with assms(2) fail_tickets_inv [of "s\<lparr>pr_failing := pr_failing s - 1\<rparr>"] show ?thesis
    by (auto simp: end_fail_def process_inv_def stop_inv_def fail_due_def)
next
  case reader_ended
  with assms(2) fail_tickets_inv [of s] show ?thesis
    by (auto simp: reader_ends_def process_inv_def stop_inv_def fail_due_def)
next
  case operator_failed
  with assms(2) fail_tickets_inv [of s] show ?thesis
    by (auto simp: operator_fails_def process_inv_def stop_inv_def fail_due_def) (auto simp: call_inv_def split: option.splits)
next
  case takes
  with assms(2) show ?thesis
    by (auto simp: take_work_def process_inv_def stop_inv_def fail_due_def split: list.split) (auto simp: call_inv_def split: option.splits)
next
  case operator_loops
  with assms(2) show ?thesis
    by (auto simp: operator_head_def process_inv_def stop_inv_def fail_due_def) (auto simp: call_inv_def split: option.splits)
next
  case answers
  with assms(2) show ?thesis
    by (auto simp: answer_call_def process_inv_def stop_inv_def fail_due_def) (auto simp: call_inv_def split: option.splits)
qed (use assms(2) in \<open>auto simp: submit_send_def begin_fail_def process_inv_def stop_inv_def fail_due_def\<close>)

lemma step_inv:
  assumes "process_inv s" "process_step s t"
  shows "process_inv t"
  using assms(2)
proof cases
  case thread
  then show ?thesis using assms(1) by (rule thread_inv)
next
  case (finishes c)
  with assms(1) show ?thesis
    by (auto simp: finish_call_def process_inv_def stop_inv_def fail_due_def) (auto simp: call_inv_def split: option.splits)
next
  case (ends ok)
  with assms(1) show ?thesis
    by (auto simp: end_operator_def process_inv_def stop_inv_def fail_due_def) (auto simp: call_inv_def split: option.splits)
qed

text \<open>Runs only move forward: a settled ticket keeps its answer, the calls of the policy carry growing numbers, and nothing is
  submitted after the stop.\<close>

definition process_le :: "policy_process \<Rightarrow> policy_process \<Rightarrow> bool" where
  "process_le s t \<longleftrightarrow> pr_identifier s \<le> pr_identifier t \<and> pr_last_call s \<le> pr_last_call t \<and>
     pr_completed_call s \<le> pr_completed_call t \<and> (pr_stopping s \<longrightarrow> pr_stopping t \<and> pr_identifier t = pr_identifier s) \<and>
     (\<forall>i a. pr_tickets s i = Some a \<longrightarrow> a \<noteq> Waiting \<longrightarrow> pr_tickets t i = Some a)"

lemma process_le_refl: "process_le s s"
  by (simp add: process_le_def)

lemma process_le_trans: "process_le s t \<Longrightarrow> process_le t u \<Longrightarrow> process_le s u"
  unfolding process_le_def by fastforce

lemma process_le_frame:
  "pr_identifier t = pr_identifier s \<Longrightarrow> pr_last_call t = pr_last_call s \<Longrightarrow> pr_completed_call t = pr_completed_call s \<Longrightarrow>
   pr_tickets t = pr_tickets s \<Longrightarrow> (pr_stopping s \<Longrightarrow> pr_stopping t) \<Longrightarrow> process_le s t"
  by (simp add: process_le_def)

lemma fail_tickets_le: "ticket_inv s \<Longrightarrow> process_le s (fail_tickets s)"
  by (auto simp: process_le_def fail_tickets_def ticket_inv_def)

lemma submit_le:
  assumes "process_inv s"
  shows "process_le s (snd (submit action generation arguments s))"
proof -
  have "pr_tickets s (pr_identifier s + 1) = None" using assms by (simp add: process_inv_def ticket_fresh)
  then show ?thesis by (auto simp: submit_def Let_def process_le_def)
qed

lemma accept_le:
  assumes "process_inv s" "accept_frame f s = (ok, s')"
  shows "process_le s s'"
  using assms
  by (cases f) (auto simp: accept_frame_def process_le_def process_inv_def ticket_inv_def Let_def split: if_splits option.split_asm)

lemma read_le:
  assumes "process_inv s"
  shows "process_le s (read_frame r s)"
proof -
  have pc: "process_le s t \<Longrightarrow> process_le s (t\<lparr>pr_reader := x\<rparr>)" "process_le s t \<Longrightarrow> process_le s (reader_fails t)" for t x
    by (auto simp: process_le_def reader_fails_def)
  show ?thesis
    using pc process_le_refl [of s] accept_le [OF assms]
    by (auto simp: read_frame_def split: received.split option.split prod.split)
qed

lemma thread_le:
  assumes "thread_step s t" "process_inv s"
  shows "process_le s t"
  using assms(1)
proof cases
  case fails
  have "process_le s (s\<lparr>pr_failing := pr_failing s - 1\<rparr>)" by (rule process_le_frame) simp_all
  with fails assms(2) fail_tickets_le [of "s\<lparr>pr_failing := pr_failing s - 1\<rparr>"] show ?thesis
    by (auto simp: end_fail_def process_inv_def process_le_refl intro: process_le_trans)
next
  case reader_ended
  with assms(2) fail_tickets_le [of s] show ?thesis by (auto simp: reader_ends_def process_inv_def process_le_def)
next
  case operator_failed
  with assms(2) fail_tickets_le [of s] show ?thesis by (auto simp: operator_fails_def process_inv_def process_le_def)
qed (use assms(2) submit_le read_le in \<open>auto simp: submit_send_def begin_fail_def reader_head_def reader_fails_def operator_head_def
    take_work_def answer_call_def process_le_def split: list.split\<close>)

lemma step_le:
  assumes "process_inv s" "process_step s t"
  shows "process_le s t"
  using assms(2)
proof cases
  case thread
  then show ?thesis using assms(1) by (rule thread_le)
next
  case (finishes c)
  with assms(1) show ?thesis by (auto simp: finish_call_def process_le_def process_inv_def call_inv_def split: option.splits)
qed (auto simp: end_operator_def process_le_def)

lemma new_process_inv: "process_inv new_process"
  by (simp add: new_process_def process_inv_def ticket_inv_def stop_inv_def fail_due_def call_inv_def max_id_def)

interpretation pp: progress_system "\<lambda>s. s = new_process" process_step process_inv process_le
  by unfold_locales (auto intro: new_process_inv process_le_refl step_inv step_le process_le_trans)

text \<open>What is still due to fail tickets can always be done.\<close>

lemma fail_due_done:
  assumes "fail_due s"
  obtains t where "process_step s t" "pr_pending t = []"
  using assms process_step.thread [OF thread_step.fails [of s]] process_step.thread [OF thread_step.reader_ended [of s]]
    process_step.thread [OF thread_step.operator_failed [of s]]
  by (auto simp: fail_due_def end_fail_def reader_ends_def operator_fails_def)

lemma waiting_pending: "process_inv s \<Longrightarrow> {i. pr_tickets s i = Some Waiting} = set (pr_pending s)"
  by (auto simp: process_inv_def ticket_inv_def)

text \<open>C16. No caller hangs and calls are served one at a time.  At most four tickets wait; once the process is stopping no ticket is
  added, and one waits only while a thread that has set the flag is still to fail it, a step that can always be taken and
  after which none waits; when the reader has ended none does.  A call of the policy is either queued or carried out, never
  both, and newer than every completed one.\<close>

theorem tickets_and_calls_accounted:
  assumes "reach (\<lambda>s. s = new_process) process_step s"
  shows "card {i. pr_tickets s i = Some Waiting} \<le> 4 \<and>
    (pr_stopping s \<longrightarrow> (\<forall>t. steps process_step s t \<longrightarrow> pr_stopping t \<and> dom (pr_tickets t) = dom (pr_tickets s)) \<and>
       (fail_due s \<or> (\<forall>i. pr_tickets s i \<noteq> Some Waiting)) \<and>
       (\<exists>t. steps process_step s t \<and> (\<forall>i. pr_tickets t i \<noteq> Some Waiting))) \<and>
    (pr_reader s = Rd_Ended \<longrightarrow> (\<forall>i. pr_tickets s i \<noteq> Some Waiting)) \<and>
    length (pr_work s) + (if \<exists>c. pr_operator s = Op_Call c then 1 else 0) \<le> 1 \<and>
    (\<forall>c. c \<in> set (pr_work s) \<or> pr_operator s = Op_Call c \<longrightarrow> pr_completed_call s < hc_id c)"
proof -
  have inv: "process_inv s" using assms by (rule pp.reach_inv)
  have none: "(\<forall>i. pr_tickets t i \<noteq> Some Waiting) \<longleftrightarrow> pr_pending t = []" if "process_inv t" for t
    using waiting_pending [OF that] by auto
  have "card {i. pr_tickets s i = Some Waiting} \<le> 4"
    using inv waiting_pending [OF inv] by (auto simp: process_inv_def ticket_inv_def distinct_card)
  moreover have "pr_stopping t \<and> dom (pr_tickets t) = dom (pr_tickets s)" if "pr_stopping s" "steps process_step s t" for t
    using pp.steps_le [OF that(2) inv] pp.steps_inv [OF inv that(2)] inv that(1) by (simp add: process_le_def process_inv_def ticket_inv_def)
  moreover have "fail_due s \<or> (\<forall>i. pr_tickets s i \<noteq> Some Waiting)" if "pr_stopping s"
    using that inv none [OF inv] by (auto simp: process_inv_def stop_inv_def)
  moreover have "\<exists>t. steps process_step s t \<and> (\<forall>i. pr_tickets t i \<noteq> Some Waiting)" if "pr_stopping s"
  proof (cases "fail_due s")
    case True
    then obtain t where t: "process_step s t" "pr_pending t = []" by (rule fail_due_done)
    with none [OF step_inv [OF inv t(1)]] show ?thesis by (blast intro: step_steps)
  next
    case False
    with that inv none [OF inv] show ?thesis by (auto simp: process_inv_def stop_inv_def intro: steps_refl)
  qed
  moreover have "\<forall>i. pr_tickets s i \<noteq> Some Waiting" if "pr_reader s = Rd_Ended"
    using that inv none [OF inv] by (simp add: process_inv_def stop_inv_def)
  moreover have "length (pr_work s) + (if \<exists>c. pr_operator s = Op_Call c then 1 else 0) \<le> 1"
    "\<forall>c. c \<in> set (pr_work s) \<or> pr_operator s = Op_Call c \<longrightarrow> pr_completed_call s < hc_id c"
    using inv by (auto simp: process_inv_def call_inv_def split: option.splits)
  ultimately show ?thesis by blast
qed

text \<open>C17. An answer is final: once a ticket has its reply or has failed, no later step of any thread changes it.\<close>

theorem ticket_answers_are_final:
  assumes "reach (\<lambda>s. s = new_process) process_step s" and "steps process_step s t"
    and "pr_tickets s i = Some a" and "a \<noteq> Waiting"
  shows "pr_tickets t i = Some a"
  using pp.steps_le [OF assms(2) pp.reach_inv [OF assms(1)]] assms(3,4) by (auto simp: process_le_def)

section \<open>Closing\<close>









end
