(* ===== verification/Auto_Guard_Recovery.thy ===== *)
theory Auto_Guard_Recovery
  imports Auto_Guard_Ops
begin

text \<open>
  A recovery that cannot be completed.  \<open>_apply\<close> records the policy it is about to install as pending in place of what was pending
  before, so a recovery that is cut off after its first write leaves a journal that no longer names the policy the firewall
  holds.  From such a state the guard never gets away, and the firewall stays as it is.
\<close>

definition stranded :: "('w \<Rightarrow> json list option) \<Rightarrow> json \<Rightarrow> json list \<Rightarrow> 'w guard \<Rightarrow> bool" where
  "stranded table j rules s \<longleftrightarrow> guard_inv table s \<and> gd_file s = Some j \<and> table (gd_world s) = Some rules"

lemma owned_same: "snd (owned s) = s"
  using private_read_cases [of s] by (auto simp: owned_def act_bind_def check_def split: option.split sum.split)

lemma stranded_world: "stranded table j rules s \<Longrightarrow> table w = table (gd_world s) \<Longrightarrow> stranded table j rules (s\<lparr>gd_world := w\<rparr>)"
  by (simp add: stranded_def guard_inv_world)

lemma owned_stranded:
  "triple (stranded table j rules) owned (\<lambda>_ s. stranded table j rules s \<and> gd_record s = Some j) (stranded table j rules)"
proof (rule tripleI)
  fix s assume s: "stranded table j rules s"
  then have inv: "guard_inv table s" by (simp add: stranded_def)
  obtain res where o: "owned s = (res, s)" using owned_same [of s] by (cases "owned s") simp
  show "after (\<lambda>_ s. stranded table j rules s \<and> gd_record s = Some j) (stranded table j rules) (owned s)"
  proof (cases res)
    case (Inr u)
    from tripleD_ok [OF triple_owned inv o [unfolded Inr]] have "gd_record s = gd_file s" by (auto simp: synced_def)
    with s o Inr show ?thesis by (simp add: stranded_def)
  qed (use s o in simp)
qed

text \<open>While an operation is pending, everything but \<open>acquire\<close> is refused.\<close>

lemma pending_refused:
  assumes "pend \<noteq> JNull" and "j = journal uid gen cur pend"
  shows "triple (stranded table j rules) (act_bind owned (\<lambda>_. act_bind (no_pending m) f)) (\<lambda>_ _. False) (stranded table j rules)"
    and "triple (stranded table j rules) (act_bind owned (\<lambda>_. act_bind (in_mode mode m) g)) (\<lambda>_ _. False) (stranded table j rules)"
  by (rule triple_bind [OF owned_stranded],
      use assms in \<open>simp add: triple_def no_pending_def in_mode_def record_field_def act_bind_def check_def\<close>)+

lemma load_stranded:
  assumes "j = journal uid gen cur pend"
  shows "triple (\<lambda>s. stranded table j rules s \<and> gd_record s = None) (load_record sys)
    (\<lambda>_ s. stranded table j rules s \<and> gd_record s = Some j \<and> gd_generation s = gen) (stranded table j rules)"
proof (rule tripleI)
  fix s assume s: "stranded table j rules s \<and> gd_record s = None"
  then have f: "gd_file s = Some j" and inv: "guard_inv table s" by (simp_all add: stranded_def)
  from inv f obtain uid' gen' cur' pend' where jf: "journal_form j uid' gen' cur' pend'" by (auto simp: guard_inv_def)
  with assms have gen: "gen' = gen" by (simp add: journal_form_def journal_def)
  have recorded: "stranded table j rules (s\<lparr>gd_record := Some j\<rparr>)" if "uid' = gd_uid s" "gen' = gd_generation s"
    using s jf that by (auto simp: stranded_def guard_inv_def)
  obtain res where res: "private_read s = (res, s)" "\<forall>v. res = Inr v \<longrightarrow> v = j" "res \<noteq> Inl FileMissing"
    using private_read_cases [of s] f by auto
  show "after (\<lambda>_ s. stranded table j rules s \<and> gd_record s = Some j \<and> gd_generation s = gen) (stranded table j rules) (load_record sys s)"
  proof (cases res)
    case (Inl e)
    with res(3) have "load_record sys s = (Inl e, s)" using res(1) by (cases e) (simp_all add: load_record_def)
    with s show ?thesis by simp
  next
    case (Inr v)
    with res have v: "v = j" by simp
    show ?thesis
    proof (cases "check_journal (gd_uid s) (gd_generation s) j")
      case (Inl e)
      then have "load_record sys s = (Inl e, s)" using res(1) \<open>res = Inr v\<close> v by (simp add: load_record_def act_bind_def)
      with s show ?thesis by simp
    next
      case ok: (Inr u)
      have "load_record sys s = (Inr (), s\<lparr>gd_record := Some j\<rparr>)" using res(1) Inr v ok by (simp add: load_record_def act_bind_def)
      with check_journal_owner [OF ok jf] recorded gen show ?thesis by simp
    qed
  qed
qed

lemma matches_choice_cong: "py_eq (JList a) (JList b) \<Longrightarrow> matches_choice gen a cs = matches_choice gen b cs"
  by (induction cs) (auto simp: py_eq_def bind_res_def split: sum.split)

lemma read_owned_stranded:
  assumes fw: "atomic_firewall sys table" and j: "j = journal uid gen cur pend" "pend \<noteq> JNull"
    and st: "field pend ''state'' = Inr st" "matches_choice gen rules [cur, st] = Inr False"
  shows "triple (\<lambda>s. stranded table j rules s \<and> gd_record s = Some j \<and> gd_generation s = gen) (read_owned sys am) (\<lambda>_ _. False) (stranded table j rules)"
proof (rule tripleI)
  fix s assume s: "stranded table j rules s \<and> gd_record s = Some j \<and> gd_generation s = gen"
  obtain r w where rd: "ns_read sys (gd_world s) = (r, w)" by fastforce
  have rf: "read_faithful table (ns_read sys)" using fw by (simp add: atomic_firewall_def)
  then have rf: "table (snd (ns_read sys (gd_world s))) = table (gd_world s)" "fst (ns_read sys (gd_world s)) = Inr actual \<Longrightarrow>
      (case actual of None \<Rightarrow> table (gd_world s) = None | Some a \<Rightarrow> \<exists>t. table (gd_world s) = Some t \<and> py_eq (JList a) (JList t))" for actual
    unfolding read_faithful_def by blast+
  from rf(1) rd have w: "table w = table (gd_world s)" by simp
  with s have s': "stranded table j rules (s\<lparr>gd_world := w\<rparr>)" by (simp add: stranded_world)
  show "after (\<lambda>_ _. False) (stranded table j rules) (read_owned sys am s)"
  proof (cases r)
    case (Inl e)
    with rd s' show ?thesis by (simp add: read_owned_def act_bind_def on_world_def)
  next
    case (Inr actual)
    have "case actual of None \<Rightarrow> table (gd_world s) = None | Some a \<Rightarrow> \<exists>t. table (gd_world s) = Some t \<and> py_eq (JList a) (JList t)"
      using rf(2) rd Inr by simp
    with s obtain a where a: "actual = Some a" "py_eq (JList a) (JList rules)" by (cases actual) (auto simp: stranded_def)
    have "matches_choice gen a [cur, st] = Inr False" using matches_choice_cong [OF a(2), of gen "[cur, st]"] st(2) by (simp only:)
    with rd s s' Inr a j st(1) show ?thesis
      by (simp add: read_owned_def act_bind_def on_world_def record_field_def check_def del: matches_choice.simps)
  qed
qed

lemma stranded_op:
  assumes fw: "atomic_firewall sys table" and j: "j = journal uid gen cur pend" "pend \<noteq> JNull"
    and st: "field pend ''state'' = Inr st" "matches_choice gen rules [cur, st] = Inr False"
  shows "triple (stranded table j rules) (op_act sys p) (\<lambda>_ _. False) (stranded table j rules)"
proof (cases p)
  case Acquire
  note ops = load_stranded [OF j(1)] read_owned_stranded [OF fw j st]
  have "triple (\<lambda>s. stranded table j rules s \<and> gd_record s = None) (act_bind (load_record sys) (\<lambda>_. act_bind (read_owned sys True) f))
      (\<lambda>_ _. False) (stranded table j rules)" for f :: "json list option \<Rightarrow> ('a, unit) gact"
    by (rule triple_bind [OF ops(1)], rule triple_bind [OF ops(2)]) (simp add: triple_def)
  then have "after (\<lambda>_ _. False) (stranded table j rules) (acquire sys s)" if "stranded table j rules s" for s
    using that unfolding acquire_def
    by (cases "gd_open s \<and> gd_record s = None") (auto simp: triple_def act_bind_def check_def)
  with Acquire show ?thesis by (simp add: op_act_def triple_def)
next
  case (Prepare sel)
  have "triple (stranded table j rules) (prepare sys sel) (\<lambda>_ _. False) (stranded table j rules)"
    unfolding prepare_def by (rule bind_lift, rule pending_refused [OF j(2,1)])
  with Prepare show ?thesis by (simp add: op_act_def)
next
  case Snapshot
  have "triple (stranded table j rules) (snapshot sys) (\<lambda>_ _. False) (stranded table j rules)"
    unfolding snapshot_def by (rule pending_refused [OF j(2,1)])
  then have "triple (stranded table j rules) (act_bind (snapshot sys) (\<lambda>_. act_return ())) (\<lambda>_ _. False) (stranded table j rules)"
    by (rule triple_bind) (simp add: triple_def)
  with Snapshot show ?thesis by (simp add: op_act_def)
qed (simp_all add: op_act_def block_def ready_def release_def pending_refused [OF j(2,1)])

lemma stranded_step:
  assumes "\<And>p. triple (stranded table j rules) (op_act sys p) (\<lambda>_ _. False) (stranded table j rules)"
    and "guard_step sys table s t" "stranded table j rules s"
  shows "stranded table j rules t"
  using assms(2)
proof cases
  case (operate p r)
  then show ?thesis using assms(1) [of p] assms(3) by (cases r) (auto dest: tripleD_ok tripleD_err)
next
  case (restart uid generation)
  with open_guard_inv [of table s uid generation t] assms(3) show ?thesis
    by (auto simp: stranded_def open_guard_def)
next
  case closed
  have "guard_inv table s" using assms(3) by (simp add: stranded_def)
  then have "guard_inv table (close s)" by (cases "gd_file s") (simp_all add: close_def guard_inv_def)
  with closed assms(3) show ?thesis by (simp add: stranded_def close_def)
next
  case (outside w)
  with assms(3) show ?thesis by (simp add: stranded_world)
qed

text \<open>C12. A recovery that was itself cut off is never completed: once an operation is pending and the table in force is the one of
  neither policy the journal names, every later operation of this guard and of every guard started after it is refused,
  the journal stays as it is and so does the table, whatever happens in between.\<close>

theorem interrupted_recovery_is_refused:
  assumes "reach (guarded_init sys table) (guard_step sys table) s"
    and "gd_file s = Some (journal uid gen cur pend)" and "pend \<noteq> JNull" and "field pend ''state'' = Inr st"
    and "table (gd_world s) = Some rules" and "matches_choice gen rules [cur, st] = Inr False"
    and "steps (guard_step sys table) s t"
  shows "gd_file t = gd_file s \<and> table (gd_world t) = Some rules \<and> (\<forall>p r t'. op_act sys p t = (r, t') \<longrightarrow> \<not> is_ok r)"
proof -
  let ?j = "journal uid gen cur pend"
  have g: "atomic_firewall sys table" "guard_inv table s" using gd.reach_inv [OF assms(1)] by (simp_all add: guarded_def)
  note op = stranded_op [OF g(1) refl assms(3,4,6)]
  from assms(7) have "stranded table ?j rules s \<Longrightarrow> stranded table ?j rules t"
    by (induction rule: steps.induct) (auto intro: stranded_step [OF op])
  with g(2) assms(2,5) have t: "stranded table ?j rules t" by (simp add: stranded_def)
  have "\<not> is_ok r" if "op_act sys p t = (r, t')" for p r t'
    using that tripleD_ok [OF op t] by (cases r) auto
  with t assms(2) show ?thesis by (auto simp: stranded_def)
qed

end
