(* ===== verification/Auto_Guard_Example.thy ===== *)
theory Auto_Guard_Example
  imports Auto_Guard_Recovery
begin

text \<open>
  A firewall that does what it is told and a disk whose writes fail where a list says so, with runs of the
  guard on them: the instances of the properties, and the run that leads to a recovery that cannot be completed.
\<close>

type_synonym ex_world = "json list option \<times> disk list"

definition ex_nft :: "ex_world nft_sys" where
  "ex_nft = \<lparr>ns_read = (\<lambda>w. (Inr (fst w), w)), ns_apply = (\<lambda>cs w. (Inr (), (nft_exec cs (fst w), snd w))),
     ns_links = (\<lambda>w. (Inr (JList []), w)),
     ns_disk = (\<lambda>w. case snd w of [] \<Rightarrow> (Written, w) | d # ds \<Rightarrow> (d, (fst w, ds)))\<rparr>"

definition ex_table :: "ex_world \<Rightarrow> json list option" where "ex_table w = fst w"

lemma ex_atomic: "atomic_firewall ex_nft ex_table"
  by (auto simp: atomic_firewall_def read_faithful_def ex_nft_def ex_table_def split: option.split list.split)

definition ex_gen :: string where "ex_gen = replicate 32 CHR ''a''"

definition ex_cand :: gcand where
  "ex_cand = \<lparr>gc_kind = Awg, gc_interface = ''fcawg01234567'', gc_endpoint = Some (''8.8.8.8'', 443)\<rparr>"

definition ex_blocked :: gstate where
  "ex_blocked = \<lparr>gs_mode = Blocked, gs_selected = None, gs_index = 0, gs_ipv6 = False\<rparr>"

definition ex_probe :: gstate where
  "ex_probe = \<lparr>gs_mode = Probe, gs_selected = Some ex_cand, gs_index = 0, gs_ipv6 = False\<rparr>"

definition ex_rest :: gstate where "ex_rest = ex_probe\<lparr>gs_mode := Blocked\<rparr>"

definition ex_guard :: "json option \<Rightarrow> json option \<Rightarrow> ex_world \<Rightarrow> ex_world guard" where
  "ex_guard r f w = \<lparr>gd_uid = 1000, gd_generation = ex_gen, gd_open = True, gd_record = r, gd_file = f, gd_world = w\<rparr>"

definition ex_blocked_journal :: json where "ex_blocked_journal = journal 1000 ex_gen (state_json ex_blocked) JNull"
definition ex_probing_journal :: json where "ex_probing_journal = journal 1000 ex_gen (state_json ex_blocked) (apply_json ex_probe)"
definition ex_resting_journal :: json where "ex_resting_journal = journal 1000 ex_gen (state_json ex_blocked) (apply_json ex_rest)"

definition ex_faults :: "disk list" where "ex_faults = [Written, Written, Written, Written, Lost, Unsure]"

definition ex_held :: "ex_world guard" where
  "ex_held = ex_guard (Some ex_blocked_journal) (Some ex_blocked_journal) (Some (objects_of ex_gen ex_blocked), drop 3 ex_faults)"

lemma exg_open: "open_guard 1000 ex_gen f w = Inr (ex_guard None f w)"
proof -
  have "objects ex_gen (JObj []) = Inr (objects_of ex_gen ex_blocked)" by code_simp
  then show ?thesis by (simp add: open_guard_def ex_guard_def)
qed

lemma ex_acquire: "op_act ex_nft Acquire (ex_guard None None (None, ex_faults)) = (Inr (), ex_held)"
  by code_simp

lemma ex_prepare:
  "op_act ex_nft (Prepare (cand_json ex_cand)) ex_held =
     (Inl SystemFailed, ex_guard (Some ex_probing_journal) (Some ex_probing_journal) (Some (objects_of ex_gen ex_probe), [Unsure]))"
  by code_simp

lemma ex_recover:
  "op_act ex_nft Acquire (ex_guard None (Some ex_probing_journal) (Some (objects_of ex_gen ex_probe), [Unsure])) =
     (Inl SystemFailed, ex_guard (Some ex_probing_journal) (Some ex_resting_journal) (Some (objects_of ex_gen ex_probe), []))"
  by code_simp

definition ex_stuck :: "ex_world guard" where
  "ex_stuck = ex_guard None (Some ex_resting_journal) (Some (objects_of ex_gen ex_probe), [])"

lemma ex_stuck_acquire: "op_act ex_nft Acquire ex_stuck =
   (Inl (ValueErr ''Auto firewall ownership mismatch''), ex_stuck\<lparr>gd_record := Some ex_resting_journal\<rparr>)"
  by code_simp

section \<open>Reachable states\<close>

lemma exg_restart: "guard_step ex_nft ex_table (ex_guard r f w) (ex_guard None f w)"
  using guard_step.restart [of 1000 ex_gen "ex_guard r f w" "ex_guard None f w"] exg_open by (simp add: ex_guard_def)

abbreviation ex_runs :: "ex_world guard \<Rightarrow> bool" where
  "ex_runs s \<equiv> reach (guarded_init ex_nft ex_table) (guard_step ex_nft ex_table) s"

lemma exg_start: "ex_runs (ex_guard None None (None, ex_faults))"
proof (rule reach_init)
  have "guard_init ex_table (ex_guard None None (None, ex_faults))"
    unfolding guard_init_def using exg_open by (intro exI [of _ 1000] exI [of _ ex_gen] exI [of _ "(None, ex_faults)"]) (simp add: ex_table_def)
  then show "guarded_init ex_nft ex_table (ex_guard None None (None, ex_faults))" by (simp add: guarded_init_def ex_atomic)
qed

lemma ex_runs_held: "ex_runs ex_held"
  using exg_start ex_acquire by (blast intro: reach_step guard_step.operate)

lemma ex_runs_stuck: "ex_runs ex_stuck"
proof -
  have "ex_runs (ex_guard (Some ex_probing_journal) (Some ex_probing_journal) (Some (objects_of ex_gen ex_probe), [Unsure]))"
    using ex_runs_held ex_prepare by (blast intro: reach_step guard_step.operate)
  then have "ex_runs (ex_guard None (Some ex_probing_journal) (Some (objects_of ex_gen ex_probe), [Unsure]))"
    using exg_restart by (rule reach_step)
  then have "ex_runs (ex_guard (Some ex_probing_journal) (Some ex_resting_journal) (Some (objects_of ex_gen ex_probe), []))"
    using ex_recover by (blast intro: reach_step guard_step.operate)
  then show ?thesis unfolding ex_stuck_def using exg_restart by (rule reach_step)
qed

section \<open>Instances of the properties\<close>

lemma settled_journal_is_enforced_witness:
  "\<exists>rules objs. ex_table (gd_world ex_held) = Some rules \<and> objects ex_gen (state_json ex_blocked) = Inr objs \<and> py_eq (JList rules) (JList objs)"
  using settled_journal_is_enforced [OF ex_runs_held, of 1000 ex_gen "state_json ex_blocked"]
  by (simp add: ex_held_def ex_guard_def ex_blocked_journal_def) (simp add: state_json_def)

lemma only_release_opens_witness:
  "ex_table (gd_world (snd (op_act ex_nft (Prepare (cand_json ex_cand)) ex_held))) \<noteq> None"
  using only_release_opens [OF ex_runs_held _ _ ex_prepare] by (simp add: ex_prepare) (simp add: ex_held_def ex_guard_def ex_table_def)

lemma operations_take_effect_witness: "settled_in ex_table Blocked ex_held"
  using operations_take_effect [OF exg_start ex_acquire] by simp






lemma ex_stuck_mismatch: "matches_choice ex_gen (objects_of ex_gen ex_probe) [state_json ex_blocked, state_json ex_rest] = Inr False"
  by code_simp

lemma interrupted_recovery_is_refused_witness:
  "ex_table (gd_world ex_stuck) = Some (objects_of ex_gen ex_probe) \<and> \<not> is_ok (fst (op_act ex_nft Acquire ex_stuck))"
proof -
  have s: "gd_file ex_stuck = Some (journal 1000 ex_gen (state_json ex_blocked) (apply_json ex_rest))"
    "ex_table (gd_world ex_stuck) = Some (objects_of ex_gen ex_probe)"
    by (simp_all add: ex_stuck_def ex_guard_def ex_resting_journal_def ex_table_def)
  have "apply_json ex_rest \<noteq> JNull" "field (apply_json ex_rest) ''state'' = Inr (state_json ex_rest)" by (simp_all add: apply_json_def field_def)
  from interrupted_recovery_is_refused [OF ex_runs_stuck s(1) this s(2) ex_stuck_mismatch steps_refl] show ?thesis
    by (metis prod.collapse)
qed

end
