(* ===== verification/Auto_Policy_Example.thy ===== *)
theory Auto_Policy_Example
  imports Auto_Policy_Safety Auto_Guard_Example
begin

text \<open>A platform on the example firewall whose parts all succeed, and runs of the host and of the policy process.\<close>

definition ex_platform :: "ex_world platform" where
  "ex_platform = \<lparr>pf_context = (\<lambda>w. (Live, w)), pf_configure = act_return (JList [JStr ''awg'']),
     pf_prepare = (\<lambda>_. act_return (cand_json ex_cand)), pf_open = (\<lambda>_. act_return (JInt 7, JBool False)),
     pf_applied = None, pf_cancel_health = None, pf_close = act_return (), pf_release = act_return (),
     pf_remember = (\<lambda>_. act_return ())\<rparr>"

lemma ex_apart: "apart ex_table ex_platform"
  by (simp add: apart_def leaves_def ex_platform_def)

definition ex_calm :: "ex_world guard" where
  "ex_calm = ex_held\<lparr>gd_world := (Some (objects_of ex_gen ex_blocked), [])\<rparr>"

lemma ex_runs_calm: "ex_runs ex_calm"
  unfolding ex_calm_def
  by (rule reach_step [OF ex_runs_held], rule guard_step.outside) (simp add: ex_held_def ex_guard_def ex_table_def)

definition ex_host :: "ex_world host" where
  "ex_host = \<lparr>ho_guard = ex_calm, ho_generation = 1, ho_released = False, ho_prepared = True, ho_configured = True\<rparr>"

definition ex_call :: host_call where
  "ex_call = \<lparr>hc_id = 1, hc_generation = 1, hc_op = CloseC, hc_budget = 1000\<rparr>"

lemma ex_abort: "abort ex_nft ex_platform ex_host = (Inr (), ex_host)"
  by code_simp

lemma ex_operate: "operate ex_nft ex_platform ex_call ex_host =
   (\<lparr>hr_id = 1, hr_ok = True, hr_candidates = [], hr_failure = [], hr_temporary = False\<rparr>, ex_host)"
  by code_simp

lemma ex_host_guard: "ho_guard ex_host = ex_calm" "\<not> ho_released ex_host" "gd_record (ho_guard ex_host) \<noteq> None"
  by (simp_all add: ex_host_def ex_calm_def ex_held_def ex_guard_def)

lemma host_calls_take_effect_witness: "settled_in ex_table Blocked (ho_guard ex_host)"
  using host_calls_take_effect [OF ex_runs_calm [folded ex_host_guard(1)] ex_apart ex_operate] ex_host_guard(3)
  by (simp add: ex_call_def)

lemma abort_blocks_witness: "settled_in ex_table Blocked (ho_guard ex_host)"
  by (rule abort_blocks [OF ex_runs_calm [folded ex_host_guard(1)] ex_apart ex_host_guard(2,3) ex_abort])

section \<open>The policy process\<close>

definition ex_submitted :: policy_process where
  "ex_submitted = snd (submit ''status'' (JInt 0) (JObj []) new_process)"

definition ex_failed :: policy_process where "ex_failed = end_fail (begin_fail ex_submitted)"

lemma ex_submitted_reach: "reach (\<lambda>s. s = new_process) process_step ex_submitted"
  unfolding ex_submitted_def by (rule reach_step [OF reach_init]) (auto intro: process_step.thread thread_step.submits)

lemma ex_failed_reach: "reach (\<lambda>s. s = new_process) process_step ex_failed"
  unfolding ex_failed_def
  by (rule reach_step [OF reach_step [OF ex_submitted_reach]]) (rule process_step.thread, rule thread_step.closes thread_step.fails)+

lemma ex_submit: "submit_ok ''status'' (JInt 0) (JObj [])"
  by (simp add: submit_ok_def max_id_def submit_fields_def optional_in_def)

lemma ex_failed_ticket: "pr_stopping ex_failed" "pr_tickets ex_failed 1 = Some TicketFailed"
  by (simp_all add: ex_failed_def ex_submitted_def submit_def ex_submit new_process_def begin_fail_def end_fail_def fail_tickets_def max_id_def)

lemma tickets_and_calls_accounted_witness:
  "card {i. pr_tickets ex_failed i = Some Waiting} \<le> 4 \<and> (fail_due ex_failed \<or> (\<forall>i. pr_tickets ex_failed i \<noteq> Some Waiting))"
  using tickets_and_calls_accounted [OF ex_failed_reach] ex_failed_ticket(1) by blast

lemma ticket_answers_are_final_witness: "pr_tickets (begin_fail ex_failed) 1 = Some TicketFailed"
proof -
  have "steps process_step ex_failed (begin_fail ex_failed)" by (intro step_steps process_step.thread thread_step.closes)
  from ticket_answers_are_final [OF ex_failed_reach this ex_failed_ticket(2)] show ?thesis by simp
qed

section \<open>Closing\<close>




end
