(* ===== verification/Fleet_Contracts.thy ===== *)
theory Fleet_Contracts
  imports Wire Fleet_Gateway
begin

text \<open>
  The contracts of the gateway fleet, \<open>fleet/contracts.py\<close>, the signed permit of a rehearsal, \<open>fleet/permit.py\<close>, and the
  signed physical acceptance, \<open>fleet/acceptance.py\<close>.  All three check dynamic values.

  SHA-256, signature verification, the parsing of ISO timestamps and of IPv6 addresses are parameters.  A clock
  reading is a real number.
\<close>

datatype rehearsal_error = FleetError string | PyError

record contract_env =
  ce_sha256 :: "string \<Rightarrow> string"
  ce_time :: "string \<Rightarrow> bool"
  ce_ipv6 :: "string \<Rightarrow> bool"
  ce_verify :: "string \<Rightarrow> string \<Rightarrow> string \<Rightarrow> bool"

type_synonym 'a rres = "(rehearsal_error, 'a) res"

section \<open>Texts\<close>

text \<open>\<open>json.dumps(value, sort_keys=True, separators=(',', ':'))\<close>\<close>

fun sort_keys :: "json \<Rightarrow> json" where
  "sort_keys (JList vs) = JList (map sort_keys vs)"
| "sort_keys (JObj kvs) = JObj (sort_key fst (map (\<lambda>(k, v). (k, sort_keys v)) kvs))"
| "sort_keys v = v"

definition canonical_text :: "json \<Rightarrow> string" where
  "canonical_text v = dumps (sort_keys v)"

definition digest :: "contract_env \<Rightarrow> string \<Rightarrow> string" where
  "digest env s = bytes_hex (ce_sha256 env s)"

definition exact :: "json \<Rightarrow> string set \<Rightarrow> unit rres" where
  "exact v names = check (is_obj v \<and> jkeys v = names) (FleetError ''unknown_or_missing_fields'')"

section \<open>Typed fields\<close>

datatype kind = KId | KIds | KRoles | KTransports | KInt | KReceipt | KState | KHealth | KEnrollment | KAction
  | KOperationState | KHash | KCommit | KCountry | KVersion | KSignature | KIpv4 | KIpv6 | KTime | KOpt kind

definition fleet_states :: "string list" where
  "fleet_states = [''DISCOVERED'', ''PREFLIGHTED'', ''STAGED'', ''VERIFIED'', ''ACTIVE'', ''DRAINING'', ''QUARANTINED'', ''FAILED'', ''RETIRED'']"

definition fleet_roles :: "string list" where
  "fleet_roles = [''awg'', ''tcp'', ''mesh'', ''profile-reader'', ''publisher'', ''renewal'', ''snapshot'', ''restricted-sync'',
     ''mailbox'', ''load-monitor'', ''monitoring'']"

definition is_alnum :: "char \<Rightarrow> bool" where
  "is_alnum c \<longleftrightarrow> is_lower c \<or> is_upper c \<or> is_digit c"

definition id_text :: "string \<Rightarrow> bool" where
  "id_text s = (case s of [] \<Rightarrow> False
     | c # cs \<Rightarrow> is_alnum c \<and> fullmatch (\<lambda>c. is_alnum c \<or> c \<in> {CHR ''_'', CHR ''.'', CHR ''-''}) 0 95 cs)"

definition version_text :: "string \<Rightarrow> bool" where
  "version_text s \<longleftrightarrow> length s = 5 \<and> s ! 2 = CHR ''.'' \<and> list_all is_digit (take 2 s) \<and> list_all is_digit (drop 3 s)"

definition b64_class :: "char \<Rightarrow> bool" where
  "b64_class c \<longleftrightarrow> is_alnum c \<or> c = CHR ''+'' \<or> c = CHR ''/''"

definition signature_text :: "string \<Rightarrow> bool" where
  "signature_text s \<longleftrightarrow> length s = 88 \<and> list_all b64_class (take 86 s) \<and> drop 86 s = ''==''"

definition ipv4_unicast :: "string \<Rightarrow> bool" where
  "ipv4_unicast s = (case ipv4_parse s of None \<Rightarrow> False | Some a \<Rightarrow> \<not> in_net a 0xE0000000 28 \<and> a \<noteq> 0)"

definition receipt_ok :: "json \<Rightarrow> bool" where
  "receipt_ok v \<longleftrightarrow> (case v of
     JObj kvs \<Rightarrow> fst ` set kvs \<subseteq> {''result'', ''evidence_sha256'', ''scope''} \<and>
       list_all (\<lambda>(k, x). if k = ''evidence_sha256'' then str_sat (fullmatch is_hex 64 64) x
                          else if k = ''scope'' then jstr_in {''synthetic'', ''production_readonly''} x
                          else jstr_in {''PASS'', ''FAIL'', ''INTENT'', ''SUCCEEDED'', ''FAILED'', ''operator_intent''} x) kvs
   | _ \<Rightarrow> False)"

definition id_list :: "json \<Rightarrow> string list option \<Rightarrow> bool" where
  "id_list v domain = (case v of
     JList vs \<Rightarrow> length vs \<le> 64 \<and> list_all (str_sat id_text) vs \<and> distinct vs \<and>
       (case domain of None \<Rightarrow> True | Some d \<Rightarrow> list_all (jstr_in (set d)) vs)
   | _ \<Rightarrow> False)"

fun typed :: "contract_env \<Rightarrow> kind \<Rightarrow> json \<Rightarrow> bool" where
  "typed env (KOpt k) v \<longleftrightarrow> v = JNull \<or> typed env k v"
| "typed env KIds v \<longleftrightarrow> id_list v None"
| "typed env KRoles v \<longleftrightarrow> id_list v (Some fleet_roles)"
| "typed env KTransports v \<longleftrightarrow> id_list v (Some [''awg'', ''tcp'', ''mesh''])"
| "typed env KInt v \<longleftrightarrow> jint_in 0 (2 ^ 53 - 1) v"
| "typed env KReceipt v \<longleftrightarrow> receipt_ok v"
| "typed env KState v \<longleftrightarrow> jstr_in (set fleet_states) v"
| "typed env KHealth v \<longleftrightarrow> jstr_in {''UNKNOWN'', ''PASS'', ''FAIL''} v"
| "typed env KEnrollment v \<longleftrightarrow> jstr_in {''NEW'', ''ENROLLED'', ''CANCELLED''} v"
| "typed env KAction v \<longleftrightarrow> jstr_in {''plan'', ''preflight'', ''stage'', ''verify'', ''activate'', ''drain'', ''quarantine'', ''rollback'', ''status''} v"
| "typed env KOperationState v \<longleftrightarrow> jstr_in {''INTENT'', ''RUNNING'', ''SUCCEEDED'', ''FAILED''} v"
| "typed env KId v \<longleftrightarrow> str_sat id_text v"
| "typed env KHash v \<longleftrightarrow> str_sat (fullmatch is_hex 64 64) v"
| "typed env KCommit v \<longleftrightarrow> str_sat (fullmatch is_hex 40 40) v"
| "typed env KCountry v \<longleftrightarrow> str_sat (fullmatch is_upper 2 2) v"
| "typed env KVersion v \<longleftrightarrow> str_sat version_text v"
| "typed env KSignature v \<longleftrightarrow> str_sat signature_text v"
| "typed env KIpv4 v \<longleftrightarrow> str_sat ipv4_unicast v"
| "typed env KIpv6 v \<longleftrightarrow> str_sat (ce_ipv6 env) v"
| "typed env KTime v \<longleftrightarrow> str_sat (ce_time env) v"

datatype record_kind = Logical | Instance | Artifact | Operation

definition record_fields :: "record_kind \<Rightarrow> (string \<times> kind) list" where
  "record_fields k = (case k of
     Logical \<Rightarrow> [(''id'', KId), (''country'', KCountry), (''transports'', KTransports), (''desired_state'', KState),
       (''active_instance'', KOpt KId), (''fallback_instances'', KIds), (''catalog_generation'', KInt)]
   | Instance \<Rightarrow> [(''instance_id'', KId), (''logical_gateway'', KId), (''provider'', KId), (''region'', KId), (''ipv4'', KIpv4),
       (''ipv6'', KOpt KIpv6), (''os_family'', KId), (''os_version'', KVersion), (''architecture'', KId), (''state'', KState),
       (''desired_bundle'', KId), (''actual_bundle'', KOpt KId), (''enrollment_state'', KEnrollment), (''health_state'', KHealth),
       (''deployment_identity'', KOpt KHash), (''roles'', KRoles), (''created_at'', KTime), (''activated_at'', KOpt KTime),
       (''drained_at'', KOpt KTime), (''quarantined_at'', KOpt KTime)]
   | Artifact \<Rightarrow> [(''bundle_id'', KId), (''source_commit'', KCommit), (''manifest_sha256'', KHash), (''archive_sha256'', KHash),
       (''signature'', KSignature), (''supported_os'', KIds), (''architectures'', KIds), (''roles'', KRoles), (''created_at'', KTime)]
   | Operation \<Rightarrow> [(''operation_id'', KId), (''instance'', KId), (''action'', KAction), (''previous_bundle'', KOpt KId),
       (''target_bundle'', KId), (''state'', KOperationState), (''first_failure'', KOpt KId), (''started_at'', KTime),
       (''completed_at'', KOpt KTime), (''safe_receipt'', KReceipt)])"

definition kind_name :: "record_kind \<Rightarrow> string" where
  "kind_name k = (case k of Logical \<Rightarrow> ''logical'' | Instance \<Rightarrow> ''instance'' | Artifact \<Rightarrow> ''artifact'' | Operation \<Rightarrow> ''operation'')"

definition validate_record :: "contract_env \<Rightarrow> record_kind \<Rightarrow> json \<Rightarrow> unit rres" where
  "validate_record env k v =
     bind_res (exact v (fst ` set (record_fields k))) (\<lambda>_.
     check (list_all (\<lambda>(f, s). typed env s (the_field v f)) (record_fields k)) (FleetError (''invalid_'' @ kind_name k)))"

section \<open>Inventory\<close>

fun index_items :: "contract_env \<Rightarrow> record_kind \<Rightarrow> string \<Rightarrow> json list \<Rightarrow> (json \<times> json) list \<Rightarrow> (json \<times> json) list rres" where
  "index_items env k ident [] index = Inr index"
| "index_items env k ident (item # items) index =
     bind_res (validate_record env k item) (\<lambda>_.
     bind_res (check (map_of index (the_field item ident) = None) (FleetError (''duplicate_'' @ kind_name k))) (\<lambda>_.
     index_items env k ident items (index @ [(the_field item ident, item)])))"

definition collection :: "contract_env \<Rightarrow> record_kind \<Rightarrow> string \<Rightarrow> json \<Rightarrow> (json \<times> json) list rres" where
  "collection env k ident v = (case v of
     JList items \<Rightarrow> bind_res (check (length items \<le> 10000) (FleetError ''inventory_bound'')) (\<lambda>_. index_items env k ident items [])
   | _ \<Rightarrow> Inl (FleetError ''inventory_bound''))"

fun check_instances :: "(json \<times> json) list \<Rightarrow> (json \<times> json) list \<Rightarrow> json list \<Rightarrow> json list \<Rightarrow> json list \<Rightarrow> json list rres" where
  "check_instances gateways artifacts [] identities active = Inr active"
| "check_instances gateways artifacts (item # items) identities active =
     bind_res (check (map_of gateways (the_field item ''logical_gateway'') \<noteq> None) (FleetError ''missing_logical_gateway'')) (\<lambda>_.
     bind_res (check (list_all (\<lambda>b. b = JNull \<or> map_of artifacts b \<noteq> None) [the_field item ''desired_bundle'', the_field item ''actual_bundle''])
                (FleetError ''missing_artifact_binding'')) (\<lambda>_.
     if the_field item ''state'' = JStr ''ACTIVE''
     then bind_res (check (\<not> (the_field item ''deployment_identity'' = JNull \<or> the_field item ''deployment_identity'' \<in> set identities \<or>
                               the_field item ''logical_gateway'' \<in> set active)) (FleetError ''conflicting_active_identity'')) (\<lambda>_.
          bind_res (check (\<not> (the_field item ''health_state'' \<noteq> JStr ''PASS'' \<or> the_field item ''enrollment_state'' \<noteq> JStr ''ENROLLED'' \<or>
                               the_field item ''actual_bundle'' = JNull)) (FleetError ''active_not_accepted'')) (\<lambda>_.
          check_instances gateways artifacts items (the_field item ''deployment_identity'' # identities) (the_field item ''logical_gateway'' # active)))
     else check_instances gateways artifacts items identities active))"

fun jlist :: "json \<Rightarrow> json list" where
  "jlist (JList vs) = vs"
| "jlist _ = []"

definition check_gateway :: "(json \<times> json) list \<Rightarrow> json list \<Rightarrow> json \<Rightarrow> unit rres" where
  "check_gateway instances active gw =
     bind_res (check (list_all (\<lambda>i. i = JNull \<or>
                 (case map_of instances i of None \<Rightarrow> False | Some inst \<Rightarrow> the_field inst ''logical_gateway'' = the_field gw ''id''))
                 (the_field gw ''active_instance'' # jlist (the_field gw ''fallback_instances''))) (FleetError ''instance_gateway_binding'')) (\<lambda>_.
     bind_res (check (the_field gw ''active_instance'' = JNull \<or>
                 (case map_of instances (the_field gw ''active_instance'') of None \<Rightarrow> False | Some inst \<Rightarrow> the_field inst ''state'' = JStr ''ACTIVE''))
                (FleetError ''active_pointer'')) (\<lambda>_.
     check (\<not> (the_field gw ''id'' \<in> set active \<and> the_field gw ''active_instance'' = JNull)) (FleetError ''missing_active_pointer'')))"

definition inventory :: "contract_env \<Rightarrow> json \<Rightarrow> json rres" where
  "inventory env v =
     bind_res (exact v {''schema'', ''logical_gateways'', ''instances'', ''artifacts''}) (\<lambda>_.
     bind_res (check (the_field v ''schema'' = JInt 1) (FleetError ''inventory_schema'')) (\<lambda>_.
     bind_res (collection env Logical ''id'' (the_field v ''logical_gateways'')) (\<lambda>gateways.
     bind_res (collection env Instance ''instance_id'' (the_field v ''instances'')) (\<lambda>instances.
     bind_res (collection env Artifact ''bundle_id'' (the_field v ''artifacts'')) (\<lambda>artifacts.
     bind_res (check_instances gateways artifacts (jlist (the_field v ''instances'')) [] []) (\<lambda>active.
     bind_res (check_all (check_gateway instances active) (jlist (the_field v ''logical_gateways''))) (\<lambda>_. Inr v)))))))"

section \<open>States of an instance\<close>

definition transitions :: "string \<Rightarrow> string list" where
  "transitions s =
     (if s = ''DISCOVERED'' then [''PREFLIGHTED'', ''FAILED'', ''QUARANTINED'']
      else if s = ''PREFLIGHTED'' then [''STAGED'', ''FAILED'', ''QUARANTINED'']
      else if s = ''STAGED'' then [''VERIFIED'', ''FAILED'', ''QUARANTINED'']
      else if s = ''VERIFIED'' then [''ACTIVE'', ''STAGED'', ''FAILED'', ''QUARANTINED'']
      else if s = ''ACTIVE'' then [''DRAINING'', ''QUARANTINED'', ''FAILED'']
      else if s = ''DRAINING'' then [''RETIRED'', ''QUARANTINED'', ''VERIFIED'', ''PREFLIGHTED'']
      else if s = ''QUARANTINED'' then [''PREFLIGHTED'', ''RETIRED'']
      else if s = ''FAILED'' then [''PREFLIGHTED'', ''QUARANTINED'', ''RETIRED'']
      else [])"

definition transition :: "string \<Rightarrow> string \<Rightarrow> bool \<Rightarrow> string rres" where
  "transition previous target health_pass =
     bind_res (check (target \<in> set (transitions previous)) (FleetError ''invalid_state_transition'')) (\<lambda>_.
     bind_res (check (\<not> (target \<in> {''VERIFIED'', ''ACTIVE''} \<and> \<not> health_pass)) (FleetError ''health_acceptance_required'')) (\<lambda>_.
     Inr target))"

section \<open>Permits\<close>

definition rehearsal_scope :: string where "rehearsal_scope = ''DISPOSABLE_FLEET_REHEARSAL''"

definition rehearsal_actions :: "string list" where
  "rehearsal_actions = [''preflight'', ''enroll'', ''deliver-materials'', ''stage'', ''start-verification'', ''complete-verification'',
     ''run-acceptance'', ''activate-local'', ''status'', ''upgrade'', ''rollback'', ''reboot-verify'', ''drain'', ''retire'']"

definition excluded_hosts :: "string list" where
  "excluded_hosts = [''185.251.89.19'', ''185.10.158.212'', ''186.246.45.246'', ''186.246.51.201'']"

text \<open>\<open>ipaddress.IPv4Address(v)\<close> takes a text or an integer.\<close>

definition address_arg :: "json \<Rightarrow> int option" where
  "address_arg v = (case v of
     JStr s \<Rightarrow> ipv4_parse s
   | JInt i \<Rightarrow> if 0 \<le> i \<and> i < 2 ^ 32 then Some i else None
   | JBool b \<Rightarrow> Some (of_bool b)
   | _ \<Rightarrow> None)"

definition ipv4_global :: "int \<Rightarrow> bool" where
  "ipv4_global a \<longleftrightarrow> \<not> in_net a 0x64400000 22 \<and> \<not> ipv4_private a"

definition rehearsal_name :: "string \<Rightarrow> bool" where
  "rehearsal_name s \<longleftrightarrow> id_text s \<and> take 16 s = ''fleet-rehearsal-'' \<and> drop 16 s \<noteq> [] \<and>
     list_all (\<lambda>c. is_lower c \<or> is_digit c \<or> c = CHR ''-'') (drop 16 s)"

definition target_check :: "json \<Rightarrow> json \<Rightarrow> json \<Rightarrow> unit rres" where
  "target_check instance_id logical_gateway ipv4 =
     bind_res (check (str_sat rehearsal_name instance_id \<and> logical_gateway = JStr ''fleet-rehearsal'') (FleetError ''rehearsal_instance_required'')) (\<lambda>_.
     case address_arg ipv4 of
       None \<Rightarrow> Inl (FleetError ''rehearsal_ipv4'')
     | Some a \<Rightarrow> check (ipv4_global a \<and> ipv4_text a \<notin> set excluded_hosts) (FleetError ''production_or_nonpublic_target''))"

definition bundle_text :: "string \<Rightarrow> bool" where
  "bundle_text s \<longleftrightarrow> take 3 s = ''gw-'' \<and> fullmatch is_hex 32 32 (drop 3 s)"

definition fingerprint_text :: "string \<Rightarrow> bool" where
  "fingerprint_text s \<longleftrightarrow> take 7 s = ''SHA256:'' \<and> fullmatch b64_class 43 43 (drop 7 s)"

definition permit_fields :: "string set" where
  "permit_fields = {''schema'', ''scope'', ''permit_id'', ''instance_id'', ''logical_gateway'', ''ipv4'', ''ssh_fingerprint'', ''provider'',
     ''region'', ''bundle_a'', ''bundle_b'', ''allowed_actions'', ''issued_at'', ''expires_at'', ''catalog_publication'',
     ''production_identity_import'', ''user_operations'', ''paid_operations'', ''agent_sha256'', ''bundle_signer_sha256''}"

text \<open>\<open>type(a) is int and type(b) is int and 0 < b - a <= width and a <= now < b\<close>\<close>

definition window_ok :: "json \<Rightarrow> json \<Rightarrow> int \<Rightarrow> real \<Rightarrow> bool" where
  "window_ok issued expires width now = (case (issued, expires) of
     (JInt i, JInt e) \<Rightarrow> 0 < e - i \<and> e - i \<le> width \<and> of_int i \<le> now \<and> now < of_int e
   | _ \<Rightarrow> False)"

definition validate_permit :: "json \<Rightarrow> real \<Rightarrow> json rres" where
  "validate_permit body now =
     bind_res (exact body permit_fields) (\<lambda>_.
     bind_res (target_check (the_field body ''instance_id'') (the_field body ''logical_gateway'') (the_field body ''ipv4'')) (\<lambda>_.
     bind_res (check (the_field body ''schema'' = JInt 1 \<and> the_field body ''scope'' = JStr rehearsal_scope \<and>
         list_all (\<lambda>n. str_sat id_text (the_field body n)) [''permit_id'', ''provider'', ''region''] \<and>
         list_all (\<lambda>n. str_sat (fullmatch is_hex 64 64) (the_field body n)) [''agent_sha256'', ''bundle_signer_sha256''] \<and>
         str_sat fingerprint_text (the_field body ''ssh_fingerprint'') \<and> str_sat bundle_text (the_field body ''bundle_a'') \<and>
         (the_field body ''bundle_b'' = JNull \<or> str_sat bundle_text (the_field body ''bundle_b'')) \<and>
         the_field body ''bundle_a'' \<noteq> the_field body ''bundle_b'') (FleetError ''rehearsal_permit_contract'')) (\<lambda>_.
     bind_res (check (case the_field body ''allowed_actions'' of
         JList actions \<Rightarrow> actions \<noteq> [] \<and> list_all (jstr_in (set rehearsal_actions)) actions \<and> distinct actions
       | _ \<Rightarrow> False) (FleetError ''rehearsal_action'')) (\<lambda>_.
     bind_res (check (list_all (\<lambda>n. the_field body n = JBool False)
         [''catalog_publication'', ''production_identity_import'', ''user_operations'', ''paid_operations''])
         (FleetError ''rehearsal_prohibited_capability'')) (\<lambda>_.
     bind_res (check (window_ok (the_field body ''issued_at'') (the_field body ''expires_at'') 14400 now)
         (FleetError ''rehearsal_permit_expired_or_not_yet_valid'')) (\<lambda>_.
     Inr body))))))"

definition sign_permit :: "(string \<Rightarrow> string) \<Rightarrow> json \<Rightarrow> real \<Rightarrow> json rres" where
  "sign_permit sign body now =
     bind_res (validate_permit body now) (\<lambda>_.
     Inr (JObj [(''body'', body), (''signature'', JStr (b64encode (sign (canonical_text body))))]))"

definition signature_ok :: "contract_env \<Rightarrow> string \<Rightarrow> json \<Rightarrow> json \<Rightarrow> bool" where
  "signature_ok env key body signature = (case signature of
     JStr s \<Rightarrow> (case b64decode s of None \<Rightarrow> False | Some raw \<Rightarrow> ce_verify env key raw (canonical_text body))
   | _ \<Rightarrow> False)"

definition verify_permit ::
  "contract_env \<Rightarrow> json \<Rightarrow> string \<Rightarrow> string \<Rightarrow> string \<Rightarrow> json \<Rightarrow> string \<Rightarrow> string \<Rightarrow> string \<Rightarrow> real \<Rightarrow> string rres" where
  "verify_permit env permit key host fingerprint bundle_id action agent_sha256 signer_sha256 now =
     bind_res (exact permit {''body'', ''signature''}) (\<lambda>_.
     bind_res (validate_permit (the_field permit ''body'') now) (\<lambda>body.
     bind_res (check (signature_ok env key body (the_field permit ''signature'')) (FleetError ''rehearsal_permit_signature'')) (\<lambda>_.
     bind_res (check (the_field body ''ipv4'' = JStr host \<and> the_field body ''ssh_fingerprint'' = JStr fingerprint \<and>
         bundle_id \<in> {the_field body ''bundle_a'', the_field body ''bundle_b''} \<and> bundle_id \<noteq> JNull \<and>
         the_field body ''agent_sha256'' = JStr agent_sha256 \<and> the_field body ''bundle_signer_sha256'' = JStr signer_sha256)
         (FleetError ''rehearsal_permit_binding'')) (\<lambda>_.
     bind_res (check (JStr action \<in> set (jlist (the_field body ''allowed_actions''))) (FleetError ''rehearsal_action'')) (\<lambda>_.
     Inr (digest env (canonical_text body)))))))"

text \<open>The digests an operation is bound to.\<close>

definition replay_binding :: "contract_env \<Rightarrow> (string \<times> string) option \<Rightarrow> json \<Rightarrow> json \<Rightarrow> (string \<times> string) rres" where
  "replay_binding env previous permit request =
     bind_res (exact request {''operation_id'', ''action'', ''bundle_id'', ''parameters''}) (\<lambda>_.
     bind_res (check (str_sat id_text (the_field request ''operation_id'') \<and> jstr_in (set rehearsal_actions) (the_field request ''action''))
         (FleetError ''rehearsal_operation'')) (\<lambda>_.
     let binding = (digest env (canonical_text permit), digest env (canonical_text request)) in
     bind_res (check (previous = None \<or> previous = Some binding) (FleetError ''rehearsal_replay_changed_parameters'')) (\<lambda>_. Inr binding)))"

section \<open>Acceptance\<close>

definition acceptance_scope :: string where "acceptance_scope = ''DISPOSABLE_FLEET_REHEARSAL_ACCEPTANCE''"

definition acceptance_steps :: "(string \<times> string list) list" where
  "acceptance_steps = [(''awg'', [''handshake'', ''dns'', ''https'', ''egress'']), (''tcp'', [''authentication'', ''https'', ''egress'']),
     (''mesh'', [''room'', ''join'', ''ready'', ''registration'', ''family_tls'', ''dns'', ''four_https_streams'', ''egress''])]"

definition acceptance_fields :: "string set" where
  "acceptance_fields = {''schema'', ''scope'', ''instance_id'', ''bundle_id'', ''operation_id'', ''verification_nonce'', ''ipv4'', ''roles'',
     ''issued_at'', ''expires_at'', ''local_health_sha256'', ''external_evidence_sha256'', ''cleanup'', ''signer''}"

definition check_role :: "json \<Rightarrow> string \<times> string list \<Rightarrow> unit rres" where
  "check_role roles = (\<lambda>(role, steps).
     bind_res (exact (the_field roles role) (set steps)) (\<lambda>_.
     check (list_all (\<lambda>st. jstr_in {''PASS'', ''FAIL'', ''NOT_RUN''} (the_field (the_field roles role) st)) steps) (FleetError ''acceptance_safe_result'')))"

definition validate_acceptance :: "json \<Rightarrow> real \<Rightarrow> unit rres" where
  "validate_acceptance body now =
     bind_res (exact body acceptance_fields) (\<lambda>_.
     bind_res (target_check (the_field body ''instance_id'') (JStr ''fleet-rehearsal'') (the_field body ''ipv4'')) (\<lambda>_.
     bind_res (check (the_field body ''schema'' = JInt 1 \<and> the_field body ''scope'' = JStr acceptance_scope \<and>
         str_sat bundle_text (the_field body ''bundle_id'') \<and> str_sat id_text (the_field body ''operation_id'') \<and>
         list_all (\<lambda>n. str_sat (fullmatch is_hex 64 64) (the_field body n))
           [''verification_nonce'', ''local_health_sha256'', ''external_evidence_sha256'', ''signer''] \<and>
         window_ok (the_field body ''issued_at'') (the_field body ''expires_at'') 300 now) (FleetError ''acceptance_contract_or_expired'')) (\<lambda>_.
     bind_res (exact (the_field body ''roles'') (fst ` set acceptance_steps)) (\<lambda>_.
     bind_res (check_all (check_role (the_field body ''roles'')) acceptance_steps) (\<lambda>_.
     check (jstr_in {''PASS'', ''FAIL''} (the_field body ''cleanup'')) (FleetError ''acceptance_cleanup''))))))"

definition acceptance_passed :: "json \<Rightarrow> bool" where
  "acceptance_passed body \<longleftrightarrow> the_field body ''cleanup'' = JStr ''PASS'' \<and>
     list_all (\<lambda>(role, steps). list_all (\<lambda>st. the_field (the_field (the_field body ''roles'') role) st = JStr ''PASS'') steps) acceptance_steps"

definition verify_acceptance :: "contract_env \<Rightarrow> json \<Rightarrow> string \<Rightarrow> json \<Rightarrow> real \<Rightarrow> bool \<Rightarrow> string rres" where
  "verify_acceptance env receipt authority challenge now require_pass =
     bind_res (exact receipt {''body'', ''signature''}) (\<lambda>_.
     let body = the_field receipt ''body'' in
     bind_res (validate_acceptance body now) (\<lambda>_.
     bind_res (check (signature_ok env authority body (the_field receipt ''signature'')) (FleetError ''acceptance_signature'')) (\<lambda>_.
     bind_res (check (list_all (\<lambda>n. the_field body n = the_field challenge n)
         [''instance_id'', ''bundle_id'', ''operation_id'', ''verification_nonce'', ''ipv4'', ''local_health_sha256''])
         (FleetError ''acceptance_challenge_binding'')) (\<lambda>_.
     bind_res (check (case (the_field body ''issued_at'', the_field challenge ''started_at'', the_field body ''expires_at'', the_field challenge ''expires_at'') of
           (JInt i, JInt s, JInt e, JInt c) \<Rightarrow> s \<le> i \<and> e \<le> c
         | _ \<Rightarrow> False) (FleetError ''acceptance_window_or_signer'')) (\<lambda>_.
     bind_res (check (the_field body ''signer'' = JStr (digest env authority)) (FleetError ''acceptance_window_or_signer'')) (\<lambda>_.
     bind_res (check (require_pass \<longrightarrow> acceptance_passed body) (FleetError ''acceptance_not_passed'')) (\<lambda>_.
     Inr (digest env (canonical_text receipt)))))))))"

end
