(* ===== verification/Assoc_Table.thy ===== *)
theory Assoc_Table
  imports FC_Prelude
begin

text \<open>
  Keyed tables that keep their order: a Python dict, a directory of files, or a table written with
  \<open>INSERT ... ON CONFLICT DO UPDATE\<close>.  An entry that exists keeps its place.
\<close>

definition put_entry :: "'k \<Rightarrow> 'v \<Rightarrow> ('k \<times> 'v) list \<Rightarrow> ('k \<times> 'v) list" where
  "put_entry k v t =
     (if k \<in> fst ` set t then map (\<lambda>(n, g). (n, if n = k then v else g)) t else t @ [(k, v)])"

lemma map_of_overwrite:
  "map_of (map (\<lambda>(m, g). (m, if m = n then f else g)) t) = (\<lambda>x. if x = n then map_option (\<lambda>_. f) (map_of t n) else map_of t x)"
  by (induction t) (auto simp: fun_eq_iff)

lemma map_of_put_entry [simp]: "map_of (put_entry n f t) = (map_of t)(n \<mapsto> f)"
proof (cases "map_of t n")
  case None
  then have "n \<notin> fst ` set t" by (simp add: map_of_eq_None_iff)
  then have "put_entry n f t = t @ [(n, f)]" unfolding put_entry_def by (rule if_not_P)
  with None show ?thesis by (simp add: fun_eq_iff map_add_def split: option.split)
next
  case (Some g)
  then have "n \<in> fst ` set t" by (metis map_of_eq_None_iff option.distinct(1))
  then have "put_entry n f t = map (\<lambda>(m, g). (m, if m = n then f else g)) t" unfolding put_entry_def by (rule if_P)
  then show ?thesis by (simp only: map_of_overwrite Some) (simp add: fun_eq_iff)
qed

lemma distinct_put_entry [simp]: "distinct (map fst (put_entry n f t)) = distinct (map fst t)"
  by (auto simp: put_entry_def comp_def case_prod_unfold)

lemma keys_put_entry: "fst ` set (put_entry n f t) = insert n (fst ` set t)"
  by (force simp: put_entry_def)

lemma length_put_entry: "length (put_entry n f t) = (if map_of t n = None then Suc (length t) else length t)"
  by (simp add: put_entry_def map_of_eq_None_iff)

end
