(* ===== verification/Rehearsal.thy ===== *)
theory Rehearsal
  imports Fleet_Contracts Transition_Systems Assoc_Table
begin

text \<open>
  The durable operations of a disposable rehearsal node, \<open>fleet/rehearsal_state.py\<close>.  The directory is the list of its JSON
  files by name: the state file and one receipt per operation, under the operation's own name.  The runtime that installs,
  starts and inspects the node's services is a parameter over any type of world; so are its clock and its random nonces.  Elapsed seconds
  are kept unrounded.

  An operation runs as an action over the state it edits, the two attributes that steer a rollback, and the world, and may
  raise at any point.
\<close>

section \<open>State and receipts\<close>

datatype phase = Preflighted | Staged | Awaiting | Verified | Active | Draining | Quarantined | FailedPhase | Retired

type_synonym build = "string option"

record health =
  he_bundle :: build
  he_digest :: string
  he_observed :: int
  he_receipt :: string
  he_expires :: int

record rstate =
  rs_instance :: json
  rs_phase :: phase
  rs_actual :: build
  rs_previous :: build
  rs_accepted :: "build list"
  rs_staged :: "build list"
  rs_health :: "health option"
  rs_fenced :: bool
  rs_identity :: "string option"
  rs_verification :: "json option"

datatype rresult = Running | Passed | AwaitingResult | FailedResult | Recovered

record rreceipt =
  rr_instance :: json
  rr_operation :: string
  rr_action :: string
  rr_target :: build
  rr_previous :: build
  rr_binding :: "string \<times> string"
  rr_result :: rresult
  rr_first_failure :: "string option"
  rr_safe_code :: "string option"
  rr_rollback :: "bool option"
  rr_elapsed :: real
  rr_before :: phase
  rr_after :: "phase option"
  rr_actual :: build
  rr_evidence :: "json option"
  rr_recovered_by :: "string option"

datatype rfile = StateFile rstate | OpFile rreceipt

record 'w rehearsal =
  rd_files :: "(string \<times> rfile) list"
  rd_world :: 'w

section \<open>The runtime\<close>

record 'w runtime =
  rt_clock :: "'w \<Rightarrow> real \<times> 'w"
  rt_nonce :: "'w \<Rightarrow> string \<times> 'w"
  rt_authority :: string
  rt_enroll :: "json \<Rightarrow> (rehearsal_error, 'w, json option) act"
  rt_deliver :: "json \<Rightarrow> json \<Rightarrow> real \<Rightarrow> (rehearsal_error, 'w, json option) act"
  rt_identity :: "(rehearsal_error, 'w, string) act"
  rt_accept :: "build \<Rightarrow> (rehearsal_error, 'w, json) act"
  rt_stage :: "build \<Rightarrow> (rehearsal_error, 'w, unit) act"
  rt_configure :: "build \<Rightarrow> (rehearsal_error, 'w, unit) act"
  rt_stop :: "(rehearsal_error, 'w, unit) act"
  rt_switch :: "build \<Rightarrow> (rehearsal_error, 'w, unit) act"
  rt_start :: "build \<Rightarrow> (rehearsal_error, 'w, unit) act"
  rt_request_reboot :: "build \<Rightarrow> string option \<Rightarrow> (rehearsal_error, 'w, json option) act"
  rt_reboot_check :: "build \<Rightarrow> string option \<Rightarrow> (rehearsal_error, 'w, unit) act"
  rt_drain :: "(rehearsal_error, 'w, unit) act"
  rt_retire :: "(rehearsal_error, 'w, unit) act"

record 'w oper =
  op_state :: rstate
  op_switching :: bool
  op_rollback :: build
  op_world :: 'w

type_synonym ('w, 'a) oact = "(rehearsal_error, 'w oper, 'a) act"

definition at_world :: "(rehearsal_error, 'w, 'a) act \<Rightarrow> ('w, 'a) oact" where
  "at_world m = (\<lambda>s. case m (op_world s) of (r, w) \<Rightarrow> (r, s\<lparr>op_world := w\<rparr>))"

definition clock :: "'w runtime \<Rightarrow> ('w, real) oact" where
  "clock rt = at_world (\<lambda>w. case rt_clock rt w of (t, w') \<Rightarrow> (Inr t, w'))"

definition fail_unless :: "bool \<Rightarrow> string \<Rightarrow> ('w, unit) oact" where
  "fail_unless c code = act_check c (FleetError code)"

definition edit_state :: "(rstate \<Rightarrow> rstate) \<Rightarrow> ('w, unit) oact" where
  "edit_state f = act_put (\<lambda>s. s\<lparr>op_state := f (op_state s)\<rparr>)"

text \<open>\<open>int(t)\<close>\<close>

definition trunc :: "real \<Rightarrow> int" where
  "trunc t = (if t < 0 then - \<lfloor>- t\<rfloor> else \<lfloor>t\<rfloor>)"

definition permit_field :: "json \<Rightarrow> string \<Rightarrow> json" where
  "permit_field permit k = the_field (the_field permit ''body'') k"

definition local_digest :: "contract_env \<Rightarrow> json \<Rightarrow> string rres" where
  "local_digest env evidence = (case evidence of
     JObj kvs \<Rightarrow> Inr (digest env (canonical_text (JObj (filter (\<lambda>(k, v). k \<noteq> ''observations'') kvs))))
   | _ \<Rightarrow> Inl PyError)"

definition bundle_json :: "build \<Rightarrow> json" where
  "bundle_json b = (case b of None \<Rightarrow> JNull | Some s \<Rightarrow> JStr s)"

section \<open>Actions\<close>

definition await_acceptance :: "contract_env \<Rightarrow> 'w runtime \<Rightarrow> json \<Rightarrow> build \<Rightarrow> string \<Rightarrow> ('w, json option) oact" where
  "await_acceptance env rt permit target operation_id =
     act_bind (at_world (rt_accept rt target)) (\<lambda>evidence.
     act_bind (clock rt) (\<lambda>t.
     act_bind (at_world (\<lambda>w. case rt_nonce rt w of (n, w') \<Rightarrow> (Inr n, w'))) (\<lambda>nonce.
     act_bind (act_lift (local_digest env evidence)) (\<lambda>health.
     act_bind (act_get op_state) (\<lambda>st.
     let challenge = JObj [(''instance_id'', rs_instance st), (''bundle_id'', bundle_json target), (''operation_id'', JStr operation_id),
       (''verification_nonce'', JStr nonce), (''ipv4'', permit_field permit ''ipv4''), (''local_health_sha256'', JStr health),
       (''started_at'', JInt (trunc t)), (''expires_at'', permit_field permit ''expires_at'')] in
     act_bind (edit_state (\<lambda>st. st\<lparr>rs_previous := rs_actual st, rs_actual := target, rs_verification := Some challenge, rs_phase := Awaiting\<rparr>)) (\<lambda>_.
     act_return (Some (JObj [(''challenge'', challenge), (''local_health'', evidence)]))))))))"

text \<open>Configure, stop, switch, start, and wait for the acceptance from outside.\<close>

definition switch_to :: "contract_env \<Rightarrow> 'w runtime \<Rightarrow> json \<Rightarrow> build \<Rightarrow> string \<Rightarrow> ('w, json option) oact" where
  "switch_to env rt permit target operation_id =
     act_bind (act_put (\<lambda>s. s\<lparr>op_switching := True\<rparr>)) (\<lambda>_.
     act_bind (at_world (rt_configure rt target)) (\<lambda>_.
     act_bind (at_world (rt_stop rt)) (\<lambda>_.
     act_bind (at_world (rt_switch rt target)) (\<lambda>_.
     act_bind (at_world (rt_start rt target)) (\<lambda>_.
     await_acceptance env rt permit target operation_id)))))"

definition fresh_health :: "'w runtime \<Rightarrow> health \<Rightarrow> string \<Rightarrow> ('w, unit) oact" where
  "fresh_health rt h code =
     act_bind (clock rt) (\<lambda>t.
     act_bind (fail_unless (0 \<le> t - of_int (he_observed h) \<and> t - of_int (he_observed h) \<le> 300) code) (\<lambda>_.
     act_bind (clock rt) (\<lambda>t. fail_unless (t < of_int (he_expires h)) code)))"

definition same_health :: "contract_env \<Rightarrow> 'w runtime \<Rightarrow> build \<Rightarrow> health \<Rightarrow> string \<Rightarrow> ('w, unit) oact" where
  "same_health env rt target h code =
     act_bind (at_world (rt_accept rt target)) (\<lambda>evidence.
     act_bind (act_lift (local_digest env evidence)) (\<lambda>d. fail_unless (d = he_digest h) code))"

definition complete_verification :: "contract_env \<Rightarrow> 'w runtime \<Rightarrow> build \<Rightarrow> json \<Rightarrow> ('w, json option) oact" where
  "complete_verification env rt target parameters =
     act_bind (act_get op_state) (\<lambda>st.
     case rs_verification st of
       None \<Rightarrow> act_raise (if rs_phase st = Awaiting then PyError else FleetError ''verification_state'')
     | Some challenge \<Rightarrow>
         act_bind (fail_unless (rs_phase st = Awaiting \<and> the_field challenge ''bundle_id'' = bundle_json target) ''verification_state'') (\<lambda>_.
         if jkeys parameters = {} then act_return (Some challenge)
         else
           act_bind (fail_unless (jkeys parameters = {''receipt''}) ''verification_parameters'') (\<lambda>_.
           let receipt = the_field parameters ''receipt''; external = the_field receipt ''body'' in
           act_bind (clock rt) (\<lambda>t.
           act_bind (act_lift (verify_acceptance env receipt (rt_authority rt) challenge t False)) (\<lambda>receipt_hash.
           if \<not> acceptance_passed external
           then act_bind (act_put (\<lambda>s. s\<lparr>op_switching := True, op_rollback := rs_previous st\<rparr>)) (\<lambda>_.
                act_raise (FleetError ''external_acceptance_failed''))
           else
             act_bind (at_world (rt_accept rt target)) (\<lambda>evidence.
             act_bind (act_lift (local_digest env evidence)) (\<lambda>d.
             act_bind (fail_unless (JStr d = the_field challenge ''local_health_sha256'') ''verification_local_health_drift'') (\<lambda>_.
             act_bind (clock rt) (\<lambda>t.
             act_bind (edit_state (\<lambda>st. st\<lparr>rs_health := Some \<lparr>he_bundle = target, he_digest = d, he_observed = trunc t,
                 he_receipt = receipt_hash, he_expires = (case the_field external ''expires_at'' of JInt e \<Rightarrow> e | _ \<Rightarrow> 0)\<rparr>,
               rs_phase := Verified, rs_verification := None\<rparr>)) (\<lambda>_.
             act_return (Some (JObj [(''local_health'', evidence), (''external_acceptance'', receipt)]))))))))))))"

definition request_reboot :: "contract_env \<Rightarrow> 'w runtime \<Rightarrow> build \<Rightarrow> json \<Rightarrow> ('w, json option) oact" where
  "request_reboot env rt target parameters =
     act_bind (act_get op_state) (\<lambda>st.
     act_bind (fail_unless (py_eq parameters (JObj [(''phase'', JStr ''request'')]) \<and> rs_phase st = Active \<and> target = rs_actual st \<and> rs_health st \<noteq> None)
         ''reboot_request_precondition'') (\<lambda>_.
     case rs_health st of
       None \<Rightarrow> act_raise PyError
     | Some h \<Rightarrow>
         act_bind (fresh_health rt h ''reboot_request_precondition'') (\<lambda>_.
         act_bind (same_health env rt target h ''reboot_health_drift'') (\<lambda>_.
         at_world (rt_request_reboot rt target (rs_identity st))))))"

definition stage_bundle :: "'w runtime \<Rightarrow> build \<Rightarrow> ('w, json option) oact" where
  "stage_bundle rt target =
     act_bind (act_get op_state) (\<lambda>st.
     act_bind (fail_unless (rs_phase st \<in> {Preflighted, Staged, Verified, Active, FailedPhase}) ''stage_state'') (\<lambda>_.
     act_bind (at_world (rt_identity rt)) (\<lambda>identity.
     act_bind (fail_unless (rs_identity st \<in> {None, Some identity}) ''private_identity_conflict'') (\<lambda>_.
     act_bind (at_world (rt_stage rt target)) (\<lambda>_.
     act_bind (edit_state (\<lambda>st. st\<lparr>rs_identity := Some identity,
         rs_staged := (if target \<in> set (rs_staged st) then rs_staged st else rs_staged st @ [target]),
         rs_phase := (if rs_phase st \<in> {Active, Verified} then rs_phase st else Staged)\<rparr>)) (\<lambda>_.
     act_return None))))))"

text \<open>\<open>sorted(set(accepted) | {target})\<close>; \<open>None\<close> does not compare with a text.\<close>

definition accept_bundle :: "build list \<Rightarrow> build \<Rightarrow> build list rres" where
  "accept_bundle accepted target =
     (let S = insert target (set accepted) in
      if None \<in> S then (if S = {None} then Inr [None] else Inl PyError) else Inr (map Some (sorted_list_of_set (the ` S))))"

definition activate_local :: "contract_env \<Rightarrow> 'w runtime \<Rightarrow> build \<Rightarrow> ('w, json option) oact" where
  "activate_local env rt target =
     act_bind (act_get op_state) (\<lambda>st.
     act_bind (fail_unless (rs_phase st = Verified) ''verified_health_required'') (\<lambda>_.
     case rs_health st of
       None \<Rightarrow> act_raise (FleetError ''verified_health_required'')
     | Some h \<Rightarrow>
         act_bind (fail_unless (he_bundle h = target) ''verified_health_required'') (\<lambda>_.
         act_bind (fresh_health rt h ''verified_health_required'') (\<lambda>_.
         act_bind (same_health env rt target h ''activation_health_drift'') (\<lambda>_.
         act_bind (edit_state (\<lambda>st. st\<lparr>rs_phase := Active, rs_actual := target\<rparr>)) (\<lambda>_.
         act_bind (act_lift (accept_bundle (rs_accepted st) target)) (\<lambda>accepted.
         act_bind (edit_state (\<lambda>st. st\<lparr>rs_accepted := accepted\<rparr>)) (\<lambda>_.
         act_return None))))))))"

definition upgrade :: "contract_env \<Rightarrow> 'w runtime \<Rightarrow> json \<Rightarrow> bool \<Rightarrow> build \<Rightarrow> string \<Rightarrow> ('w, json option) oact" where
  "upgrade env rt permit back target operation_id =
     act_bind (act_get op_state) (\<lambda>st.
     act_bind (fail_unless (rs_phase st = Active \<and> target \<noteq> rs_actual st \<and> target \<in> set (rs_staged st)) ''upgrade_state'') (\<lambda>_.
     act_bind (fail_unless (\<not> back \<or> target \<in> set (rs_accepted st)) ''rollback_predecessor_not_accepted'') (\<lambda>_.
     switch_to env rt permit target operation_id)))"

definition simple_action :: "contract_env \<Rightarrow> 'w runtime \<Rightarrow> json \<Rightarrow> string \<Rightarrow> build \<Rightarrow> string \<Rightarrow> ('w, json option) oact" where
  "simple_action env rt permit action target operation_id =
     act_bind (act_get op_state) (\<lambda>st.
     if action = ''stage'' then stage_bundle rt target
     else if action = ''start-verification''
     then act_bind (fail_unless (rs_phase st = Staged \<and> target \<in> set (rs_staged st)) ''verify_state'') (\<lambda>_.
          switch_to env rt permit target operation_id)
     else if action = ''activate-local'' then activate_local env rt target
     else if action = ''upgrade'' then upgrade env rt permit False target operation_id
     else if action = ''rollback'' then upgrade env rt permit True target operation_id
     else if action = ''reboot-verify''
     then act_bind (fail_unless (rs_phase st = Active \<and> target = rs_actual st) ''reboot_state'') (\<lambda>_.
          act_bind (at_world (rt_reboot_check rt target (rs_identity st))) (\<lambda>_.
          await_acceptance env rt permit target operation_id))
     else if action = ''drain''
     then act_bind (fail_unless (rs_phase st \<in> {Active, Awaiting, Verified, Staged, FailedPhase}) ''drain_state'') (\<lambda>_.
          act_bind (at_world (rt_drain rt)) (\<lambda>_.
          act_bind (edit_state (\<lambda>st. st\<lparr>rs_phase := Draining\<rparr>)) (\<lambda>_. act_return None)))
     else if action = ''retire''
     then act_bind (fail_unless (rs_phase st = Draining) ''retire_state'') (\<lambda>_.
          act_bind (at_world (rt_retire rt)) (\<lambda>_.
          act_bind (edit_state (\<lambda>st. st\<lparr>rs_phase := Retired\<rparr>)) (\<lambda>_. act_return None)))
     else act_raise (FleetError ''rehearsal_action''))"

definition apply_action :: "contract_env \<Rightarrow> 'w runtime \<Rightarrow> json \<Rightarrow> string \<Rightarrow> build \<Rightarrow> json \<Rightarrow> string \<Rightarrow> ('w, json option) oact" where
  "apply_action env rt permit action target parameters operation_id =
     act_bind (fail_unless (is_obj parameters) ''rehearsal_parameters_not_supported'') (\<lambda>_.
     act_bind (act_get op_state) (\<lambda>st.
     if action = ''enroll''
     then act_bind (fail_unless (rs_phase st = Preflighted) ''enrollment_state'') (\<lambda>_. at_world (rt_enroll rt parameters))
     else if action = ''deliver-materials''
     then act_bind (fail_unless (rs_phase st = Preflighted \<and> jkeys parameters = {''envelope''}) ''material_state'') (\<lambda>_.
          act_bind (clock rt) (\<lambda>t.
          at_world (rt_deliver rt (the_field parameters ''envelope'') (permit_field permit ''expires_at'') t)))
     else if action = ''complete-verification'' then complete_verification env rt target parameters
     else if action = ''reboot-verify'' \<and> jkeys parameters \<noteq> {} then request_reboot env rt target parameters
     else if jkeys parameters \<noteq> {} then act_raise (FleetError ''rehearsal_parameters_not_supported'')
     else simple_action env rt permit action target operation_id))"

section \<open>Operations\<close>

definition initial_state :: "json \<Rightarrow> rstate" where
  "initial_state permit = \<lparr>rs_instance = permit_field permit ''instance_id'', rs_phase = Preflighted, rs_actual = None, rs_previous = None,
     rs_accepted = [], rs_staged = [], rs_health = None, rs_fenced = False, rs_identity = None, rs_verification = None\<rparr>"

definition state_name :: string where "state_name = ''state''"

text \<open>\<open>status\<close>: the state file holds a state, unless an operation of that very name overwrote it.\<close>

definition load_status :: "json \<Rightarrow> (string \<times> rfile) list \<Rightarrow> rfile rres" where
  "load_status permit files = (case map_of files state_name of
     None \<Rightarrow> Inr (StateFile (initial_state permit))
   | Some f \<Rightarrow> bind_res (check ((case f of StateFile st \<Rightarrow> rs_instance st | OpFile r \<Rightarrow> rr_instance r) = permit_field permit ''instance_id'')
       (FleetError ''private_identity_conflict'')) (\<lambda>_. Inr f))"

definition load_state :: "json \<Rightarrow> (string \<times> rfile) list \<Rightarrow> rstate rres" where
  "load_state permit files = bind_res (load_status permit files) (\<lambda>f. case f of StateFile st \<Rightarrow> Inr st | OpFile _ \<Rightarrow> Inl PyError)"

definition operations :: "(string \<times> rfile) list \<Rightarrow> rreceipt list" where
  "operations files = concat (map (\<lambda>(n, f). case f of OpFile r \<Rightarrow> if n = state_name then [] else [r] | StateFile _ \<Rightarrow> [])
     (sort_key (\<lambda>(n, f). n @ ''.json'') files))"

datatype outcome = StatusOut rfile "rreceipt list" | ReceiptOut rreceipt

definition request_bundle :: "json \<Rightarrow> build" where
  "request_bundle request = jstr (the_field request ''bundle_id'')"

definition request_text :: "json \<Rightarrow> string \<Rightarrow> string" where
  "request_text request k = (case jstr (the_field request k) of None \<Rightarrow> [] | Some s \<Rightarrow> s)"

text \<open>The one interrupted operation a drain may recover.\<close>

definition recoverable :: "json \<Rightarrow> (string \<times> rfile) list \<Rightarrow> rreceipt option rres" where
  "recoverable request files =
     (let interrupted = filter (\<lambda>r. rr_result r = Running) (operations files); p = the_field request ''parameters'' in
      case interrupted of
        [] \<Rightarrow> Inr None
      | [r] \<Rightarrow>
          if request_text request ''action'' = ''drain'' \<and> jkeys p = {''recover_operation_id'', ''recover_binding''} \<and>
             the_field p ''recover_operation_id'' = JStr (rr_operation r) \<and>
             py_eq (the_field p ''recover_binding'')
               (JObj [(''permit_sha256'', JStr (fst (rr_binding r))), (''request_sha256'', JStr (snd (rr_binding r)))])
          then Inr (Some r) else Inl (FleetError ''interrupted_operation_requires_recovery'')
      | _ \<Rightarrow> Inl (FleetError ''interrupted_operation_requires_recovery''))"

text \<open>Everything before the first write: an answer without effect, or the receipt to journal, the state and the recovery.\<close>

definition begin_operation ::
  "contract_env \<Rightarrow> json \<Rightarrow> json \<Rightarrow> (string \<times> rfile) list \<Rightarrow> (outcome + rreceipt \<times> rstate \<times> rreceipt option) rres" where
  "begin_operation env permit request files =
     bind_res (replay_binding env None permit request) (\<lambda>binding.
     bind_res (check (the_field request ''bundle_id'' \<in> {permit_field permit ''bundle_a'', permit_field permit ''bundle_b''})
         (FleetError ''rehearsal_bundle_binding'')) (\<lambda>_.
     let name = request_text request ''operation_id'' in
     if request_text request ''action'' = ''status''
     then bind_res (load_status permit files) (\<lambda>f. Inr (Inl (StatusOut f (operations files))))
     else case map_of files name of
       Some (OpFile r) \<Rightarrow>
         bind_res (replay_binding env (Some (rr_binding r)) permit request) (\<lambda>_.
         bind_res (check (rr_result r \<noteq> Running) (FleetError ''interrupted_operation_requires_recovery'')) (\<lambda>_. Inr (Inl (ReceiptOut r))))
     | Some (StateFile _) \<Rightarrow> Inl PyError
     | None \<Rightarrow>
         bind_res (recoverable request files) (\<lambda>recovery.
         bind_res (load_state permit files) (\<lambda>st.
         bind_res (check (\<not> (rs_fenced st \<or> rs_phase st = Retired)) (FleetError ''rehearsal_mutations_fenced'')) (\<lambda>_.
         Inr (Inr (\<lparr>rr_instance = rs_instance st, rr_operation = name, rr_action = request_text request ''action'', rr_target = request_bundle request,
              rr_previous = rs_actual st, rr_binding = binding, rr_result = Running, rr_first_failure = None, rr_safe_code = None,
              rr_rollback = None, rr_elapsed = 0, rr_before = rs_phase st, rr_after = None, rr_actual = None, rr_evidence = None,
              rr_recovered_by = None\<rparr>, st, recovery)))))))"

text \<open>Rolling back to the predecessor; an error fences the node.\<close>

definition roll_back :: "'w runtime \<Rightarrow> build \<Rightarrow> ('w, unit) oact" where
  "roll_back rt predecessor =
     act_bind (at_world (rt_stop rt)) (\<lambda>_.
     act_bind (at_world (rt_switch rt predecessor)) (\<lambda>_.
     if predecessor \<in> {None, Some []} then act_return ()
     else act_bind (at_world (rt_start rt predecessor)) (\<lambda>_.
          act_bind (at_world (rt_accept rt predecessor)) (\<lambda>_. act_return ()))))"

definition quarantine :: "rstate \<Rightarrow> rstate" where
  "quarantine st = st\<lparr>rs_fenced := True, rs_phase := Quarantined\<rparr>"

definition restored :: "rstate \<Rightarrow> build \<Rightarrow> rstate" where
  "restored original predecessor = original\<lparr>
     rs_phase := (if predecessor \<in> set (rs_accepted original) then Active
                  else if rs_phase original = Verified then Verified else FailedPhase),
     rs_actual := predecessor, rs_verification := None\<rparr>"

definition safe_codes :: "string list" where
  "safe_codes = [''role_service_unhealthy'', ''role_listener_owner'', ''role_process_hash'', ''role_process_argv'', ''awg_interface_health'',
     ''awg_peer_inventory'', ''awg_server_identity'', ''awg_listen_port'', ''awg_allowed_peer_inventory'', ''forwarding_health'',
     ''firewall_health'', ''mesh_directory_expired'', ''monitoring_health'', ''configuration_start_window'',
     ''role_command_unavailable'', ''role_command_failed'']"

definition safe_code :: "rehearsal_error \<Rightarrow> string" where
  "safe_code e = (case e of FleetError c \<Rightarrow> if c \<in> set safe_codes then c else ''UNCLASSIFIED'' | PyError \<Rightarrow> ''UNCLASSIFIED'')"

definition underscores :: "string \<Rightarrow> string" where
  "underscores s = map (\<lambda>c. if c = CHR ''-'' then CHR ''_'' else c) s"

text \<open>What a failed operation leaves: the state after a rollback that worked, or a fenced one.\<close>

definition after_failure :: "'w runtime \<Rightarrow> string \<Rightarrow> rstate \<Rightarrow> 'w oper \<Rightarrow> bool option \<times> 'w oper" where
  "after_failure rt action original s =
     (if op_switching s
      then (case roll_back rt (op_rollback s) s of
              (Inr _, s') \<Rightarrow> (Some True, s'\<lparr>op_state := restored original (op_rollback s)\<rparr>)
            | (Inl _, s') \<Rightarrow> (Some False, s'\<lparr>op_state := quarantine (op_state s')\<rparr>))
      else if action = ''retire'' then (None, s\<lparr>op_state := quarantine (op_state s)\<rparr>)
      else (None, s))"

definition recovery_evidence :: "rreceipt \<Rightarrow> json" where
  "recovery_evidence r = JObj [(''recovered_operation_id'', JStr (rr_operation r)), (''recovery'', JStr ''STOPPED_NOT_RETRIED'')]"

definition run_action :: "contract_env \<Rightarrow> 'w runtime \<Rightarrow> json \<Rightarrow> json \<Rightarrow> rreceipt option \<Rightarrow> rreceipt \<Rightarrow> ('w, json option) oact" where
  "run_action env rt permit request recovery receipt = (case recovery of
     Some r \<Rightarrow>
       act_bind (at_world (rt_drain rt)) (\<lambda>_.
       act_bind (edit_state (\<lambda>st. st\<lparr>rs_phase := Draining\<rparr>)) (\<lambda>_. act_return (Some (recovery_evidence r))))
   | None \<Rightarrow> apply_action env rt permit (rr_action receipt) (rr_target receipt) (the_field request ''parameters'') (rr_operation receipt))"

definition settle_receipt :: "real \<Rightarrow> rstate \<Rightarrow> rreceipt \<Rightarrow> rreceipt" where
  "settle_receipt elapsed st r = r\<lparr>rr_after := Some (rs_phase st), rr_actual := rs_actual st, rr_elapsed := elapsed\<rparr>"

definition finish_operation ::
  "contract_env \<Rightarrow> 'w runtime \<Rightarrow> json \<Rightarrow> json \<Rightarrow> rreceipt \<Rightarrow> rstate \<Rightarrow> rreceipt option \<Rightarrow> 'w \<Rightarrow> rreceipt \<times> rstate \<times> 'w" where
  "finish_operation env rt permit request receipt original recovery w0 =
     (case rt_clock rt w0 of (started, w) \<Rightarrow>
      let s0 = \<lparr>op_state = original, op_switching = False, op_rollback = rs_actual original, op_world = w\<rparr> in
      case (case run_action env rt permit request recovery receipt s0 of
              (Inr evidence, s) \<Rightarrow>
                (receipt\<lparr>rr_result := (if rs_phase (op_state s) = Awaiting then AwaitingResult else Passed), rr_evidence := evidence\<rparr>, s)
            | (Inl e, s) \<Rightarrow>
                (case after_failure rt (rr_action receipt) original s of (rb, s') \<Rightarrow>
                  (receipt\<lparr>rr_first_failure := Some (''rehearsal_'' @ underscores (rr_action receipt) @ ''_failed''),
                     rr_safe_code := Some (safe_code e), rr_result := FailedResult, rr_rollback := rb\<rparr>, s'))) of
        (r, s) \<Rightarrow> (case rt_clock rt (op_world s) of (ended, w') \<Rightarrow> (settle_receipt (ended - started) (op_state s) r, op_state s, w')))"

text \<open>The files an operation writes, in order: the intent, the state, the receipt, and the receipt it recovered.\<close>

definition operation_writes :: "rreceipt \<Rightarrow> rreceipt \<Rightarrow> rstate \<Rightarrow> rreceipt option \<Rightarrow> (string \<times> rfile) list" where
  "operation_writes intent r st recovery =
     [(rr_operation intent, OpFile intent), (state_name, StateFile st), (rr_operation r, OpFile r)] @
     (case recovery of
        None \<Rightarrow> []
      | Some q \<Rightarrow> if rr_result r = Passed
          then [(rr_operation q, OpFile (q\<lparr>rr_result := Recovered, rr_first_failure := Some ''interrupted_operation'',
                  rr_recovered_by := Some (rr_operation r)\<rparr>))]
          else [])"

definition write_files :: "(string \<times> rfile) list \<Rightarrow> (string \<times> rfile) list \<Rightarrow> (string \<times> rfile) list" where
  "write_files ws files = fold (\<lambda>(n, f). put_entry n f) ws files"

definition execute_rehearsal ::
  "contract_env \<Rightarrow> 'w runtime \<Rightarrow> json \<Rightarrow> json \<Rightarrow> 'w rehearsal \<Rightarrow> outcome rres \<times> 'w rehearsal" where
  "execute_rehearsal env rt permit request d =
     (case begin_operation env permit request (rd_files d) of
        Inl e \<Rightarrow> (Inl e, d)
      | Inr (Inl out) \<Rightarrow> (Inr out, d)
      | Inr (Inr (intent, st, recovery)) \<Rightarrow>
          (case finish_operation env rt permit request intent st recovery (rd_world d) of (r, st', w) \<Rightarrow>
             (Inr (ReceiptOut r), d\<lparr>rd_files := write_files (operation_writes intent r st' recovery) (rd_files d), rd_world := w\<rparr>)))"

text \<open>The process may end after any of the writes, with the world anywhere.\<close>

definition interrupt :: "contract_env \<Rightarrow> 'w runtime \<Rightarrow> json \<Rightarrow> json \<Rightarrow> nat \<Rightarrow> 'w \<Rightarrow> 'w rehearsal \<Rightarrow> 'w rehearsal" where
  "interrupt env rt permit request k w d =
     (case begin_operation env permit request (rd_files d) of
        Inr (Inr (intent, st, recovery)) \<Rightarrow>
          (case finish_operation env rt permit request intent st recovery (rd_world d) of (r, st', _) \<Rightarrow>
             d\<lparr>rd_files := write_files (take k (operation_writes intent r st' recovery)) (rd_files d), rd_world := w\<rparr>)
      | _ \<Rightarrow> d)"

end
