(* ===== verification/Rehearsal_Safety.thy ===== *)
theory Rehearsal_Safety
  imports Rehearsal
begin

text \<open>
  What a rehearsal node guarantees: repeated requests are answered from the journal, a fenced node stays as it is, a node is
  only active on a bundle whose acceptance it has, and where the journal's recovery ends.
\<close>

section \<open>Parts of the state an action keeps\<close>

definition keeps :: "(rstate \<Rightarrow> 'b) \<Rightarrow> ('w, 'a) oact \<Rightarrow> bool" where
  "keeps f m \<longleftrightarrow> (\<forall>s. f (op_state (snd (m s))) = f (op_state s))"

named_theorems keep_rules \<open>actions that keep a part of the state\<close>

lemma keeps_bind [keep_rules]: "keeps f m \<Longrightarrow> (\<And>x. keeps f (k x)) \<Longrightarrow> keeps f (act_bind m k)"
  unfolding keeps_def act_bind_def by (auto split: prod.split sum.split) (metis snd_conv)+

lemma keeps_still [keep_rules]:
  "keeps f (act_return x)" "keeps f (act_get g)" "keeps f (act_lift r)" "keeps f (act_raise e)" "keeps f (fail_unless c code)"
  "keeps f (act_put (\<lambda>s. s\<lparr>op_switching := b\<rparr>))" "keeps f (act_put (\<lambda>s. s\<lparr>op_switching := b, op_rollback := p\<rparr>))"
  by (simp_all add: keeps_def fail_unless_def)

lemma keeps_world [keep_rules]: "keeps f (at_world m)" "keeps f (clock rt)"
  by (auto simp: keeps_def at_world_def clock_def split: prod.split)

lemma keeps_set: "(\<And>st. f (g st) = f st) \<Longrightarrow> keeps f (edit_state g)"
  by (simp add: keeps_def edit_state_def)

text \<open>The bundles a node has accepted, and the health it was last verified with.\<close>

definition granted :: "rstate \<Rightarrow> build list \<times> health option" where
  "granted st = (rs_accepted st, rs_health st)"

lemma keeps_await [keep_rules]: "keeps granted (await_acceptance env rt permit target name)"
  unfolding await_acceptance_def Let_def by (intro keep_rules keeps_set) (simp add: granted_def)

lemma keeps_switch [keep_rules]: "keeps granted (switch_to env rt permit target name)"
  unfolding switch_to_def by (intro keep_rules)

lemma keeps_health [keep_rules]: "keeps f (fresh_health rt h code)" "keeps f (same_health env rt target h code)"
  unfolding fresh_health_def same_health_def by (intro keep_rules)+

lemma keeps_reboot [keep_rules]: "keeps f (request_reboot env rt target parameters)"
  unfolding request_reboot_def by (intro keep_rules) (auto split: option.split intro!: keep_rules)

lemma keeps_stage [keep_rules]: "keeps granted (stage_bundle rt target)"
  unfolding stage_bundle_def by (intro keep_rules keeps_set) (simp add: granted_def)

lemma keeps_upgrade [keep_rules]: "keeps granted (upgrade env rt permit back target name)"
  unfolding upgrade_def by (intro keep_rules)

lemma keeps_roll_back: "keeps f (roll_back rt predecessor)"
  unfolding roll_back_def by (intro keep_rules) (auto intro!: keep_rules)

section \<open>What an action grants\<close>

text \<open>
  A bundle is accepted only when the health of the state named it, and the health changes only together with an evidence that
  satisfies \<open>V\<close>.
\<close>

definition grant :: "(health \<Rightarrow> json \<Rightarrow> bool) \<Rightarrow> build list \<times> health option \<Rightarrow> json option rres \<Rightarrow> rstate \<Rightarrow> bool" where
  "grant V g r st \<longleftrightarrow>
     (\<forall>b \<in> set (rs_accepted st). b \<in> set (fst g) \<or> (\<exists>h. snd g = Some h \<and> he_bundle h = b)) \<and>
     (rs_health st = snd g \<or> (\<exists>h ev. rs_health st = Some h \<and> r = Inr (Some ev) \<and> rs_phase st = Verified \<and> V h ev))"

definition grants :: "(health \<Rightarrow> json \<Rightarrow> bool) \<Rightarrow> build list \<times> health option \<Rightarrow> ('w, json option) oact \<Rightarrow> bool" where
  "grants V g m \<longleftrightarrow> (\<forall>s. granted (op_state s) = g \<longrightarrow> grant V g (fst (m s)) (op_state (snd (m s))))"

lemma grant_same: "granted st = g \<Longrightarrow> grant V g r st"
  by (auto simp: granted_def grant_def)

lemma grants_keeps: "keeps granted m \<Longrightarrow> grants V g m"
  by (simp add: keeps_def grants_def grant_same)

lemma grants_bind:
  fixes m :: "('w, 'a) oact"
  assumes m: "keeps granted m"
    and k: "\<And>s x s'. m s = (Inr x, s') \<Longrightarrow> granted (op_state s) = g \<Longrightarrow> grants V g (k x)"
  shows "grants V g (act_bind m k)"
  unfolding grants_def
proof (intro allI impI)
  fix s :: "'w oper" assume s: "granted (op_state s) = g"
  obtain r s' where ms: "m s = (r, s')" by (cases "m s")
  with m s have s': "granted (op_state s') = g" by (metis keeps_def snd_conv)
  show "grant V g (fst (act_bind m k s)) (op_state (snd (act_bind m k s)))"
  proof (cases r)
    case (Inl e)
    with ms s' show ?thesis by (simp add: grant_same)
  next
    case (Inr x)
    with k [of s x s'] ms s s' show ?thesis by (simp add: grants_def)
  qed
qed

text \<open>An acceptance receipt of the authority that names the bundle and passed every step.\<close>

definition accepts :: "contract_env \<Rightarrow> string \<Rightarrow> build \<Rightarrow> json \<Rightarrow> bool" where
  "accepts env authority target receipt \<longleftrightarrow>
     (let body = the_field receipt ''body'' in
      signature_ok env authority body (the_field receipt ''signature'') \<and> acceptance_passed body \<and>
      the_field body ''bundle_id'' = bundle_json target)"

definition vouches :: "contract_env \<Rightarrow> string \<Rightarrow> build \<Rightarrow> health \<Rightarrow> json \<Rightarrow> bool" where
  "vouches env authority target h evidence \<longleftrightarrow>
     he_bundle h = target \<and> accepts env authority target (the_field evidence ''external_acceptance'')"

lemma verify_acceptanceD:
  assumes "verify_acceptance env receipt authority challenge t req = Inr d"
  shows "signature_ok env authority (the_field receipt ''body'') (the_field receipt ''signature'')"
    "the_field (the_field receipt ''body'') ''bundle_id'' = the_field challenge ''bundle_id''"
  using assms by (simp_all add: verify_acceptance_def Let_def)

lemma grants_verified:
  assumes "V h ev" "\<And>st. rs_accepted (f st) = rs_accepted st" "\<And>st. rs_health (f st) = Some h" "\<And>st. rs_phase (f st) = Verified"
  shows "grants V g (act_bind (edit_state f) (\<lambda>_. act_return (Some ev)))"
  using assms by (auto simp: grants_def grant_def edit_state_def granted_def)

lemma fail_unless_Inr: "fail_unless c code s = (Inr x, s') \<Longrightarrow> c"
  by (cases c) (simp_all add: fail_unless_def)

lemma act_lift_Inr: "act_lift r s = (Inr x, s') \<Longrightarrow> r = Inr x"
  by simp

lemma the_field_external [simp]:
  "the_field (JObj [(''local_health'', e), (''external_acceptance'', r)]) ''external_acceptance'' = r"
  by (simp add: the_field_def)

lemma grants_if: "(c \<Longrightarrow> grants V g a) \<Longrightarrow> (\<not> c \<Longrightarrow> grants V g b) \<Longrightarrow> grants V g (if c then a else b)"
  by simp

lemma grants_option:
  "grants V g a \<Longrightarrow> (\<And>x. y = Some x \<Longrightarrow> grants V g (f x)) \<Longrightarrow> grants V g (case y of None \<Rightarrow> a | Some x \<Rightarrow> f x)"
  by (cases y) simp_all

lemmas grants_steps = grants_bind [OF keeps_still(2)] grants_bind [OF keeps_still(3)] grants_bind [OF keeps_still(5)]
  grants_bind [OF keeps_world(1)] grants_bind [OF keeps_world(2)] grants_bind [OF keeps_health(1)] grants_bind [OF keeps_health(2)]
  grants_keeps [OF keeps_still(1)] grants_keeps [OF keeps_still(4)] grants_if grants_option

lemma vouchesI:
  assumes "verify_acceptance env receipt authority challenge t req = Inr d" "acceptance_passed (the_field receipt ''body'')"
    and "p \<and> the_field challenge ''bundle_id'' = bundle_json target" "he_bundle h = target"
  shows "vouches env authority target h (JObj [(''local_health'', e), (''external_acceptance'', receipt)])"
  using assms verify_acceptanceD [OF assms(1)] by (simp add: vouches_def accepts_def Let_def)

lemma grants_complete: "grants (vouches env (rt_authority rt) target) g (complete_verification env rt target parameters)"
  unfolding complete_verification_def Let_def
  apply (intro grants_steps)
   apply (rule grants_keeps, intro keep_rules)
  apply (rule grants_verified)
     apply (rule vouchesI)
        apply (erule act_lift_Inr)
       apply simp
      apply (erule fail_unless_Inr)
     apply simp_all
  done

lemma Some_the_image:
  assumes "None \<notin> S"
  shows "Some ` the ` S = S"
proof -
  have "Some (the x) = x" if "x \<in> S" for x using that assms by (cases x) auto
  then show ?thesis unfolding image_image by simp
qed

lemma accept_bundle_Some:
  assumes n: "None \<notin> set accepted"
  obtains l where "accept_bundle accepted (Some b) = Inr l" "set l = insert (Some b) (set accepted)"
proof -
  let ?S = "insert (Some b) (set accepted)"
  have "accept_bundle accepted (Some b) = Inr (map Some (sorted_list_of_set (the ` ?S)))"
    using n by (simp add: accept_bundle_def)
  moreover have "Some ` the ` ?S = ?S" using n by (intro Some_the_image) simp
  ultimately show ?thesis using that by (simp del: image_insert)
qed

lemma accept_bundle_subset:
  assumes "accept_bundle accepted target = Inr l"
  shows "set l \<subseteq> insert target (set accepted)"
proof (cases "None \<in> insert target (set accepted)")
  case True
  with assms have "l = [None]" by (simp add: accept_bundle_def Let_def split: if_splits)
  with True show ?thesis by simp
next
  case False
  with assms have "l = map Some (sorted_list_of_set (the ` insert target (set accepted)))"
    by (simp add: accept_bundle_def)
  moreover have "Some ` the ` insert target (set accepted) = insert target (set accepted)" using False by (rule Some_the_image)
  ultimately show ?thesis by (simp del: image_insert)
qed

lemma grants_accepted:
  assumes "fst g = accepted" "snd g = Some h" "he_bundle h = target"
  shows "grants V g (act_bind (edit_state (\<lambda>st. st\<lparr>rs_phase := Active, rs_actual := target\<rparr>)) (\<lambda>_.
      act_bind (act_lift (accept_bundle accepted target)) (\<lambda>l.
      act_bind (edit_state (\<lambda>st. st\<lparr>rs_accepted := l\<rparr>)) (\<lambda>_. act_return None))))"
proof (cases "accept_bundle accepted target")
  case (Inl e)
  then show ?thesis by (auto simp: grants_def grant_def granted_def edit_state_def act_bind_def)
next
  case (Inr l)
  from accept_bundle_subset [OF this] assms Inr show ?thesis
    by (auto simp: grants_def grant_def granted_def edit_state_def act_bind_def)
qed

lemma grants_activate: "grants V g (activate_local env rt target)"
  unfolding activate_local_def
  apply (intro grants_steps)
  apply (rule grants_accepted)
    apply (auto simp: granted_def dest!: fail_unless_Inr)
  done

lemma grants_simple: "grants V g (simple_action env rt permit action target name)"
  unfolding simple_action_def
  by (intro grants_steps grants_activate grants_keeps keep_rules keeps_set) (simp add: granted_def)+

lemma grants_apply: "grants (vouches env (rt_authority rt) target) g (apply_action env rt permit action target parameters name)"
  unfolding apply_action_def
  apply (intro grants_steps grants_complete grants_simple)
  apply (rule grants_keeps, intro keep_rules)+
  done

lemma grants_run:
  "grants (vouches env (rt_authority rt) (rr_target receipt)) g (run_action env rt permit request recovery receipt)"
  unfolding run_action_def
  by (intro grants_option grants_apply grants_keeps keep_rules keeps_set) (simp add: granted_def)

section \<open>Active nodes run an accepted bundle\<close>

definition sound_state :: "rstate \<Rightarrow> bool" where
  "sound_state st \<longleftrightarrow> None \<notin> set (rs_accepted st) \<and> (rs_phase st = Active \<longrightarrow> rs_actual st \<in> set (rs_accepted st))"

abbreviation sound_op :: "'w oper \<Rightarrow> bool" where
  "sound_op s \<equiv> sound_state (op_state s)"

definition preserves :: "('w, 'a) oact \<Rightarrow> bool" where
  "preserves m \<longleftrightarrow> (\<forall>s. sound_op s \<longrightarrow> sound_op (snd (m s)))"

lemma preservesD: "preserves m \<Longrightarrow> sound_op s \<Longrightarrow> sound_op (snd (m s))"
  by (simp add: preserves_def)

named_theorems preserve_rules \<open>actions that keep a state sound\<close>

lemma preserves_bind [preserve_rules]:
  fixes m :: "('w, 'a) oact"
  assumes "preserves m" "\<And>x. preserves (k x)"
  shows "preserves (act_bind m k)"
  unfolding preserves_def
proof (intro allI impI)
  fix s :: "'w oper" assume "sound_op s"
  with assms(1) have 1: "sound_op (snd (m s))" by (simp add: preserves_def)
  obtain r s' where m: "m s = (r, s')" by (cases "m s")
  with 1 assms(2) show "sound_op (snd (act_bind m k s))"
    by (cases r) (simp_all add: act_bind_def preserves_def)
qed

lemma preserves_still [preserve_rules]:
  "preserves (act_return x)" "preserves (act_get g)" "preserves (act_lift r)" "preserves (act_raise e)" "preserves (fail_unless c code)"
  "preserves (act_put (\<lambda>s. s\<lparr>op_switching := b\<rparr>))" "preserves (act_put (\<lambda>s. s\<lparr>op_switching := b, op_rollback := p\<rparr>))"
  "preserves (at_world a)" "preserves (clock rt)"
  by (auto simp: preserves_def fail_unless_def at_world_def clock_def split: prod.split)

lemma preserves_set: "(\<And>st. sound_state st \<Longrightarrow> sound_state (g st)) \<Longrightarrow> preserves (edit_state g)"
  by (simp add: preserves_def edit_state_def)

lemma preserves_await [preserve_rules]: "preserves (await_acceptance env rt permit target name)"
  unfolding await_acceptance_def Let_def by (intro preserve_rules preserves_set) (simp add: sound_state_def)

lemma preserves_switch [preserve_rules]: "preserves (switch_to env rt permit target name)"
  unfolding switch_to_def by (intro preserve_rules)

lemma preserves_health [preserve_rules]: "preserves (fresh_health rt h code)" "preserves (same_health env rt target h code)"
  unfolding fresh_health_def same_health_def by (intro preserve_rules)+

lemma preserves_complete [preserve_rules]: "preserves (complete_verification env rt target parameters)"
  unfolding complete_verification_def Let_def
  by (intro preserve_rules) (auto split: option.split simp: sound_state_def intro!: preserve_rules preserves_set)

lemma preserves_reboot [preserve_rules]: "preserves (request_reboot env rt target parameters)"
  unfolding request_reboot_def by (intro preserve_rules) (auto split: option.split intro!: preserve_rules)

lemma preserves_stage [preserve_rules]: "preserves (stage_bundle rt target)"
  unfolding stage_bundle_def by (intro preserve_rules preserves_set) (auto simp: sound_state_def split: if_splits)

lemma preserves_upgrade [preserve_rules]: "preserves (upgrade env rt permit back target name)"
  unfolding upgrade_def by (intro preserve_rules)

lemma preserves_activation:
  assumes "None \<notin> set acc"
  shows "preserves (act_bind (edit_state (\<lambda>st. st\<lparr>rs_phase := Active, rs_actual := Some b\<rparr>)) (\<lambda>_.
      act_bind (act_lift (accept_bundle acc (Some b))) (\<lambda>accepted.
      act_bind (edit_state (\<lambda>st. st\<lparr>rs_accepted := accepted\<rparr>)) (\<lambda>_. act_return None))))"
proof -
  obtain l where "accept_bundle acc (Some b) = Inr l" "set l = insert (Some b) (set acc)"
    by (rule accept_bundle_Some [OF assms])
  with assms show ?thesis by (simp add: preserves_def act_bind_def edit_state_def sound_state_def)
qed

lemma preserves_checks:
  assumes "\<And>h. preserves (t h)"
  shows "preserves (act_bind (fail_unless c code) (\<lambda>_. case ho of None \<Rightarrow> act_raise e
       | Some h \<Rightarrow> act_bind (fail_unless (c' h) code) (\<lambda>_.
           act_bind (fresh_health rt h code) (\<lambda>_. act_bind (same_health env rt target h code') (\<lambda>_. t h)))))"
  by (cases ho) (auto intro!: preserve_rules assms)

lemma preserves_activate [preserve_rules]: "preserves (activate_local env rt (Some b))"
  unfolding preserves_def
proof (intro allI impI)
  fix s :: "'a oper" assume s: "sound_op s"
  then have acc: "None \<notin> set (rs_accepted (op_state s))" by (simp add: sound_state_def)
  show "sound_op (snd (activate_local env rt (Some b) s))"
    unfolding activate_local_def act_bind_simps(2) [of "act_get op_state", OF act_simps(4)]
    by (rule preservesD [OF preserves_checks [OF preserves_activation [OF acc]] s])
qed

lemma preserves_simple: "preserves (simple_action env rt permit action (Some b) name)"
  unfolding simple_action_def
  by (intro preserve_rules) (auto intro!: preserve_rules preserves_set simp: sound_state_def)

lemma preserves_apply: "preserves (apply_action env rt permit action (Some b) parameters name)"
  unfolding apply_action_def by (intro preserve_rules) (auto intro!: preserve_rules preserves_simple)

lemma preserves_run: "preserves (run_action env rt permit request recovery (receipt\<lparr>rr_target := Some b\<rparr>))"
  unfolding run_action_def
  by (cases recovery) (auto intro!: preserve_rules preserves_set preserves_apply simp: sound_state_def)

section \<open>What an operation leaves\<close>

lemma sound_restored: "sound_state original \<Longrightarrow> sound_state (restored original p)"
  by (simp add: sound_state_def restored_def)

lemma sound_quarantine: "sound_state st \<Longrightarrow> sound_state (quarantine st)"
  by (simp add: sound_state_def quarantine_def)

lemma after_failure_state:
  assumes "after_failure rt action original s = (rb, s')"
  shows "op_state s' = restored original (op_rollback s) \<or> granted (op_state s') = granted (op_state s) \<and>
    (op_state s' = op_state s \<or> op_state s' = quarantine (op_state s))"
proof -
  have k: "op_state (snd (roll_back rt (op_rollback s) s)) = op_state s"
    using keeps_roll_back [of "\<lambda>st. st" rt "op_rollback s"] by (simp add: keeps_def)
  from assms show ?thesis
  proof (cases "op_switching s")
    case True
    obtain r t where rb: "roll_back rt (op_rollback s) s = (r, t)" by (cases "roll_back rt (op_rollback s) s")
    with assms True k show ?thesis by (cases r) (auto simp: after_failure_def quarantine_def granted_def)
  next
    case False
    with assms show ?thesis by (auto simp: after_failure_def quarantine_def granted_def split: if_splits)
  qed
qed

text \<open>The outcome of an operation, its clock readings left out.\<close>

definition outcome_state :: "contract_env \<Rightarrow> 'w runtime \<Rightarrow> rreceipt \<Rightarrow> rstate \<Rightarrow> rreceipt \<Rightarrow> rstate \<Rightarrow> bool" where
  "outcome_state env rt receipt original r st \<longleftrightarrow>
     rr_operation r = rr_operation receipt \<and> rr_target r = rr_target receipt \<and> rr_binding r = rr_binding receipt \<and> rr_result r \<noteq> Running \<and>
     (rr_target receipt \<noteq> None \<longrightarrow> sound_state original \<longrightarrow> sound_state st) \<and>
     (\<forall>b \<in> set (rs_accepted st). b \<in> set (rs_accepted original) \<or> (\<exists>h. rs_health original = Some h \<and> he_bundle h = b)) \<and>
     (rs_health st = rs_health original \<or>
      (\<exists>h ev. rs_health st = Some h \<and> rs_phase st = Verified \<and> rr_result r = Passed \<and> rr_evidence r = Some ev \<and>
         vouches env (rt_authority rt) (rr_target receipt) h ev))"

lemma finish_outcome:
  assumes "finish_operation env rt permit request receipt original recovery w0 = (r, st, w')"
  shows "outcome_state env rt receipt original r st"
proof -
  obtain started w where cl: "rt_clock rt w0 = (started, w)" by (cases "rt_clock rt w0")
  define s0 where "s0 = \<lparr>op_state = original, op_switching = False, op_rollback = rs_actual original, op_world = w\<rparr>"
  have s0: "op_state s0 = original" by (simp add: s0_def)
  obtain x s where run: "run_action env rt permit request recovery receipt s0 = (x, s)"
    by (cases "run_action env rt permit request recovery receipt s0")
  have g: "grant (vouches env (rt_authority rt) (rr_target receipt)) (granted original) x (op_state s)"
    using grants_run [of env rt receipt "granted original" permit request recovery] run s0
    unfolding grants_def by (metis fst_conv snd_conv)
  have p: "sound_state (op_state s)" if "rr_target receipt \<noteq> None" "sound_state original"
  proof -
    from that obtain b where "rr_target receipt = Some b" by auto
    then have "receipt\<lparr>rr_target := Some b\<rparr> = receipt" by simp
    then have "preserves (run_action env rt permit request recovery receipt)" by (metis preserves_run)
    from preservesD [OF this, of s0] run that s0 show ?thesis by simp
  qed
  show ?thesis
  proof (cases x)
    case (Inr evidence)
    have st: "st = op_state s" "rr_result r = (if rs_phase st = Awaiting then AwaitingResult else Passed)" "rr_evidence r = evidence"
      "rr_operation r = rr_operation receipt" "rr_target r = rr_target receipt" "rr_binding r = rr_binding receipt"
      using assms cl run Inr by (auto simp: finish_operation_def s0_def settle_receipt_def Let_def split: prod.splits)
    then show ?thesis using g p Inr by (auto simp: outcome_state_def grant_def granted_def)
  next
    case (Inl e)
    obtain rb s' where af: "after_failure rt (rr_action receipt) original s = (rb, s')"
      by (cases "after_failure rt (rr_action receipt) original s")
    have st: "st = op_state s'" "rr_result r = FailedResult"
      "rr_operation r = rr_operation receipt" "rr_target r = rr_target receipt" "rr_binding r = rr_binding receipt"
      using assms cl run Inl af by (auto simp: finish_operation_def s0_def settle_receipt_def Let_def split: prod.splits)
    from g Inl have gr: "rs_health (op_state s) = rs_health original"
      "\<forall>b \<in> set (rs_accepted (op_state s)). b \<in> set (rs_accepted original) \<or> (\<exists>h. rs_health original = Some h \<and> he_bundle h = b)"
      by (auto simp: grant_def granted_def)
    from after_failure_state [OF af] show ?thesis
    proof
      assume "op_state s' = restored original (op_rollback s)"
      with st show ?thesis by (auto simp: outcome_state_def sound_restored) (simp_all add: restored_def)
    next
      assume same: "granted (op_state s') = granted (op_state s) \<and> (op_state s' = op_state s \<or> op_state s' = quarantine (op_state s))"
      then have "rs_accepted st = rs_accepted (op_state s)" "rs_health st = rs_health (op_state s)" using st by (auto simp: granted_def)
      moreover have "sound_state st" if "rr_target receipt \<noteq> None" "sound_state original"
        using p [OF that] same st(1) sound_quarantine [of "op_state s"] by auto
      ultimately show ?thesis using st gr by (simp add: outcome_state_def)
    qed
  qed
qed

text \<open>A node that drains, is quarantined or retired only changes by being retired, and keeps what it was granted.\<close>

definition closing :: "phase set" where
  "closing = {Draining, Quarantined, Retired}"

lemma closing_simple:
  assumes "rs_phase (op_state s) \<in> closing" "simple_action env rt permit action target name s = (r, s')"
  shows "op_switching s' = op_switching s \<and> granted (op_state s') = granted (op_state s) \<and>
    (op_state s' = op_state s \<or> rs_phase (op_state s') \<in> closing)"
proof (cases "action = ''retire'' \<and> rs_phase (op_state s) = Draining")
  case True
  with assms(2) show ?thesis
    by (auto simp: simple_action_def act_bind_def fail_unless_def at_world_def edit_state_def granted_def closing_def
        split: prod.splits sum.splits)
next
  case False
  with assms have "s' = s"
    by (auto simp: simple_action_def stage_bundle_def activate_local_def upgrade_def closing_def act_bind_def fail_unless_def
        split: if_splits option.splits)
  then show ?thesis by simp
qed

lemma closing_apply:
  assumes "rs_phase (op_state s) \<in> closing" "apply_action env rt permit action target parameters name s = (r, s')"
  shows "op_switching s' = op_switching s \<and> granted (op_state s') = granted (op_state s) \<and>
    (op_state s' = op_state s \<or> rs_phase (op_state s') \<in> closing)"
proof (cases "is_obj parameters")
  case False
  with assms(2) show ?thesis by (simp add: apply_action_def act_bind_def fail_unless_def)
next
  case obj: True
  show ?thesis
  proof (cases "apply_action env rt permit action target parameters name s = simple_action env rt permit action target name s")
    case True
    with assms closing_simple show ?thesis by metis
  next
    case False
    with obj have "action \<in> {''enroll'', ''deliver-materials'', ''complete-verification''} \<or> jkeys parameters \<noteq> {}"
      by (auto simp: apply_action_def act_bind_def fail_unless_def split: if_splits)
    with assms obj have "s' = s"
      by (auto simp: apply_action_def complete_verification_def request_reboot_def closing_def act_bind_def fail_unless_def
          split: if_splits option.splits)
    then show ?thesis by simp
  qed
qed

lemma finish_closing:
  assumes "finish_operation env rt permit request receipt original None w0 = (r, st, w')" "rs_phase original \<in> closing"
  shows "granted st = granted original \<and> rs_phase st \<in> closing"
proof -
  obtain started w where cl: "rt_clock rt w0 = (started, w)" by (cases "rt_clock rt w0")
  define s0 where "s0 = \<lparr>op_state = original, op_switching = False, op_rollback = rs_actual original, op_world = w\<rparr>"
  obtain x s where run: "run_action env rt permit request None receipt s0 = (x, s)"
    by (cases "run_action env rt permit request None receipt s0")
  then have "op_switching s = op_switching s0 \<and> granted (op_state s) = granted (op_state s0) \<and>
      (op_state s = op_state s0 \<or> rs_phase (op_state s) \<in> closing)"
    using assms(2) by (intro closing_apply) (auto simp: run_action_def s0_def)
  then have s: "\<not> op_switching s" "granted (op_state s) = granted original" "rs_phase (op_state s) \<in> closing"
    using assms(2) by (auto simp: s0_def)
  have "st = op_state s \<or> st = quarantine (op_state s)"
    using assms(1) cl run s(1)
    by (auto simp: finish_operation_def s0_def Let_def after_failure_def split: prod.splits sum.splits if_splits)
  with s show ?thesis by (auto simp: quarantine_def granted_def closing_def)
qed

lemma finish_recovery:
  assumes "finish_operation env rt permit request receipt original (Some q) w0 = (r, st, w')" "rr_action receipt = ''drain''"
  shows "granted st = granted original \<and> (rs_phase st = Draining \<or> st = original \<and> rr_result r = FailedResult)"
proof -
  obtain started w where cl: "rt_clock rt w0 = (started, w)" by (cases "rt_clock rt w0")
  obtain x w1 where dr: "rt_drain rt w = (x, w1)" by (cases "rt_drain rt w")
  show ?thesis
    using assms cl dr
    by (cases x) (auto simp: finish_operation_def run_action_def at_world_def act_bind_def edit_state_def after_failure_def
        settle_receipt_def granted_def Let_def split: prod.splits)
qed

end
