(* ===== verification/Rehearsal_Node.thy ===== *)
theory Rehearsal_Node
  imports Rehearsal_Safety
begin

text \<open>
  The directory of a rehearsal node over a sequence of operations and crashes.  A step executes a request, or ends after any
  of the writes of one.  The invariant relates the state file to the journal: every bundle the node accepted is backed by a journaled
  receipt with the authority's signed acceptance.
\<close>

section \<open>Files\<close>

lemma write_files_simps [simp]: "write_files [] files = files" "write_files ((n, f) # ws) files = write_files ws (put_entry n f files)"
  by (simp_all add: write_files_def)

lemma in_operations: "r \<in> set (operations files) \<longleftrightarrow> (\<exists>n. n \<noteq> state_name \<and> (n, OpFile r) \<in> set files)"
proof -
  have "r \<in> set (operations files) \<longleftrightarrow> (\<exists>n f. (n, f) \<in> set files \<and> f = OpFile r \<and> n \<noteq> state_name)"
    unfolding operations_def set_concat set_map set_sort image_image UN_iff bex_simps
    by (intro iffI; elim bexE exE conjE) (auto split: rfile.split_asm if_split_asm intro!: bexI)
  then show ?thesis by blast
qed

lemma in_operations_map_of:
  "distinct (map fst files) \<Longrightarrow> r \<in> set (operations files) \<longleftrightarrow> (\<exists>n. n \<noteq> state_name \<and> map_of files n = Some (OpFile r))"
  by (simp add: in_operations map_of_eq_Some_iff)

section \<open>Beginning an operation\<close>

lemma begin_newD:
  assumes "begin_operation env permit request files = Inr (Inr (intent, st, recovery))"
  shows "map_of files (rr_operation intent) = None" "rr_operation intent = request_text request ''operation_id''"
    "rr_action intent = request_text request ''action''" "rr_target intent = request_bundle request" "rr_result intent = Running"
    "request_text request ''action'' \<noteq> ''status''" "replay_binding env None permit request = Inr (rr_binding intent)"
    "recoverable request files = Inr recovery" "load_state permit files = Inr st" "\<not> rs_fenced st" "rs_phase st \<noteq> Retired"
    "the_field request ''bundle_id'' \<in> {permit_field permit ''bundle_a'', permit_field permit ''bundle_b''}"
proof -
  let ?name = "request_text request ''operation_id''"
  have a: "request_text request ''action'' \<noteq> ''status''"
    using assms by (auto simp: begin_operation_def Let_def)
  have n: "map_of files ?name = None"
  proof (cases "map_of files ?name")
    case (Some f)
    with assms a show ?thesis by (cases f) (auto simp: begin_operation_def Let_def)
  qed
  note b = assms [unfolded begin_operation_def Let_def if_not_P [OF a] n option.case]
  show "map_of files (rr_operation intent) = None" "rr_operation intent = ?name"
    "rr_action intent = request_text request ''action''" "rr_target intent = request_bundle request" "rr_result intent = Running"
    "request_text request ''action'' \<noteq> ''status''" "replay_binding env None permit request = Inr (rr_binding intent)"
    "recoverable request files = Inr recovery" "load_state permit files = Inr st" "\<not> rs_fenced st" "rs_phase st \<noteq> Retired"
    "the_field request ''bundle_id'' \<in> {permit_field permit ''bundle_a'', permit_field permit ''bundle_b''}"
    using b a n by fastforce+
qed

lemma recoverable_None:
  assumes "recoverable request files = Inr None" "r \<in> set (operations files)"
  shows "rr_result r \<noteq> Running"
proof -
  have "filter (\<lambda>r. rr_result r = Running) (operations files) = []"
    using assms(1) by (simp add: recoverable_def Let_def split: list.split_asm if_split_asm)
  with assms(2) show ?thesis by (simp add: filter_empty_conv)
qed

lemma recoverable_Some:
  assumes "recoverable request files = Inr (Some q)"
  shows "q \<in> set (operations files)" "rr_result q = Running" "request_text request ''action'' = ''drain''"
proof -
  have i: "filter (\<lambda>r. rr_result r = Running) (operations files) = [q]" and a: "request_text request ''action'' = ''drain''"
    using assms by (simp_all add: recoverable_def Let_def split: list.split_asm if_split_asm)
  from i have "q \<in> set (filter (\<lambda>r. rr_result r = Running) (operations files))" by simp
  then show "q \<in> set (operations files)" "rr_result q = Running" by simp_all
  show "request_text request ''action'' = ''drain''" by (rule a)
qed

lemma load_stateD:
  "load_state permit files = Inr st \<Longrightarrow> map_of files state_name = None \<and> st = initial_state permit \<or> map_of files state_name = Some (StateFile st)"
  by (auto simp: load_state_def load_status_def split: option.splits rfile.splits)

lemma rehearsal_cases [consumes 1, case_names still new]:
  assumes "execute_rehearsal env rt permit request d = (out, d')"
  obtains "d' = d" "\<And>r. out = Inr (ReceiptOut r) \<Longrightarrow> begin_operation env permit request (rd_files d) = Inr (Inl (ReceiptOut r))"
  | intent st recovery r st' w where "begin_operation env permit request (rd_files d) = Inr (Inr (intent, st, recovery))"
      "finish_operation env rt permit request intent st recovery (rd_world d) = (r, st', w)" "out = Inr (ReceiptOut r)"
      "d' = d\<lparr>rd_files := write_files (operation_writes intent r st' recovery) (rd_files d), rd_world := w\<rparr>"
proof (cases "begin_operation env permit request (rd_files d)")
  case (Inl e)
  with assms show ?thesis by (intro that(1)) (auto simp: execute_rehearsal_def)
next
  case (Inr x)
  show ?thesis
  proof (cases x)
    case (Inl o')
    with assms Inr show ?thesis by (intro that(1)) (auto simp: execute_rehearsal_def)
  next
    case (Inr y)
    obtain intent st recovery where y: "y = (intent, st, recovery)" by (cases y)
    obtain r st' w where f: "finish_operation env rt permit request intent st recovery (rd_world d) = (r, st', w)"
      by (cases "finish_operation env rt permit request intent st recovery (rd_world d)")
    show ?thesis using assms \<open>begin_operation env permit request (rd_files d) = Inr x\<close> Inr y f
      by (intro that(2)) (auto simp: execute_rehearsal_def)
  qed
qed

section \<open>The invariant of the directory\<close>

definition running :: "(string \<times> rfile) list \<Rightarrow> bool" where
  "running files \<longleftrightarrow> (\<exists>r \<in> set (operations files). rr_result r = Running)"

text \<open>A receipt of the journal holds a signed, passed acceptance of the bundle.\<close>

definition backed :: "contract_env \<Rightarrow> 'w runtime \<Rightarrow> (string \<times> rfile) list \<Rightarrow> build \<Rightarrow> bool" where
  "backed env rt files b \<longleftrightarrow> (\<exists>n r ev. map_of files n = Some (OpFile r) \<and> rr_result r = Passed \<and> rr_evidence r = Some ev \<and>
     accepts env (rt_authority rt) b (the_field ev ''external_acceptance''))"

definition state_ok :: "contract_env \<Rightarrow> 'w runtime \<Rightarrow> (string \<times> rfile) list \<Rightarrow> rstate \<Rightarrow> bool" where
  "state_ok env rt files st \<longleftrightarrow> sound_state st \<and> (\<forall>b \<in> set (rs_accepted st). backed env rt files b) \<and>
     (\<forall>h. rs_health st = Some h \<longrightarrow> backed env rt files (he_bundle h) \<or> rs_phase st \<in> closing \<or> rs_phase st = Verified \<and> running files)"

definition node_ok :: "contract_env \<Rightarrow> 'w runtime \<Rightarrow> (string \<times> rfile) list \<Rightarrow> bool" where
  "node_ok env rt files \<longleftrightarrow> distinct (map fst files) \<and>
     (\<forall>n f. map_of files n = Some f \<longrightarrow> (case f of
        StateFile st \<Rightarrow> n = state_name \<and> state_ok env rt files st
      | OpFile r \<Rightarrow> n = rr_operation r \<and> n \<noteq> state_name))"

lemma node_okD:
  assumes "node_ok env rt files"
  shows "distinct (map fst files)"
    "map_of files n = Some (StateFile st) \<Longrightarrow> n = state_name \<and> state_ok env rt files st"
    "map_of files n = Some (OpFile r) \<Longrightarrow> n = rr_operation r \<and> n \<noteq> state_name"
  using assms unfolding node_ok_def by force+

lemma runningI:
  "distinct (map fst files) \<Longrightarrow> map_of files n = Some (OpFile r) \<Longrightarrow> n \<noteq> state_name \<Longrightarrow> rr_result r = Running \<Longrightarrow> running files"
  unfolding running_def using in_operations_map_of by blast

lemma node_ok_put_state:
  assumes ok: "node_ok env rt files" and st: "state_ok env rt (put_entry state_name (StateFile st) files) st"
  shows "node_ok env rt (put_entry state_name (StateFile st) files)"
  unfolding node_ok_def
proof (intro conjI allI impI)
  show "distinct (map fst (put_entry state_name (StateFile st) files))" using node_okD(1) [OF ok] by simp
next
  fix n f assume f: "map_of (put_entry state_name (StateFile st) files) n = Some f"
  show "case f of StateFile st' \<Rightarrow> n = state_name \<and> state_ok env rt (put_entry state_name (StateFile st) files) st' | OpFile r \<Rightarrow> n = rr_operation r \<and> n \<noteq> state_name"
    using f st node_okD(2,3) [OF ok, of n] by (cases "n = state_name"; cases f) auto
qed

lemma node_ok_put_op:
  assumes ok: "node_ok env rt files" and n: "rr_operation r \<noteq> state_name"
    and st: "\<And>st. map_of files state_name = Some (StateFile st) \<Longrightarrow> state_ok env rt (put_entry (rr_operation r) (OpFile r) files) st"
  shows "node_ok env rt (put_entry (rr_operation r) (OpFile r) files)"
  unfolding node_ok_def
proof (intro conjI allI impI)
  show "distinct (map fst (put_entry (rr_operation r) (OpFile r) files))" using node_okD(1) [OF ok] by simp
next
  let ?F = "put_entry (rr_operation r) (OpFile r) files"
  fix m f assume f: "map_of ?F m = Some f"
  show "case f of StateFile st' \<Rightarrow> m = state_name \<and> state_ok env rt ?F st' | OpFile r \<Rightarrow> m = rr_operation r \<and> m \<noteq> state_name"
  proof (cases "m = rr_operation r")
    case True
    with f n show ?thesis by (cases f) auto
  next
    case False
    with f have m: "map_of files m = Some f" by simp
    show ?thesis
    proof (cases f)
      case (StateFile st')
      with m node_okD(2) [OF ok] have "m = state_name" by blast
      with m st StateFile show ?thesis by simp
    next
      case (OpFile r')
      with m node_okD(3) [OF ok] show ?thesis by simp
    qed
  qed
qed

text \<open>Files with every passed receipt of others.\<close>

definition extends :: "(string \<times> rfile) list \<Rightarrow> (string \<times> rfile) list \<Rightarrow> bool" where
  "extends files files' \<longleftrightarrow>
     (\<forall>n r. map_of files n = Some (OpFile r) \<longrightarrow> rr_result r = Passed \<longrightarrow> map_of files' n = Some (OpFile r))"

lemma backed_extends: "backed env rt files b \<Longrightarrow> extends files files' \<Longrightarrow> backed env rt files' b"
  unfolding backed_def extends_def by blast

lemma state_ok_extends:
  "state_ok env rt files st \<Longrightarrow> extends files files' \<Longrightarrow> running files' \<Longrightarrow> state_ok env rt files' st"
  unfolding state_ok_def by (auto dest: backed_extends)

section \<open>Operations keep the invariant\<close>

text \<open>The state an operation computed is consistent with every directory it may be written to.\<close>

lemma new_state_ok:
  assumes st: "state_ok env rt files st"
    and rec: "recoverable request files = Inr recovery" and act: "recovery \<noteq> None \<Longrightarrow> rr_action intent = ''drain''"
    and target: "rr_target intent \<noteq> None"
    and fin: "finish_operation env rt permit request intent st recovery w0 = (r, st', w)"
    and ext: "extends files F"
    and new: "\<And>h ev. rr_result r = Passed \<Longrightarrow> rr_evidence r = Some ev \<Longrightarrow> vouches env (rt_authority rt) (rr_target intent) h ev \<Longrightarrow>
        running F \<or> backed env rt F (he_bundle h)"
    and failed: "recovery \<noteq> None \<Longrightarrow> rr_result r = FailedResult \<Longrightarrow> running F"
  shows "state_ok env rt F st'"
proof -
  note out = finish_outcome [OF fin, unfolded outcome_state_def]
  have sound: "sound_state st'" using out st target by (simp add: state_ok_def)
  have old: "backed env rt F b" if "b \<in> set (rs_accepted st)" for b
    using that st backed_extends [OF _ ext] unfolding state_ok_def by blast
  show ?thesis
  proof (cases "recovery = None \<and> rs_phase st \<notin> closing")
    case True
    then have "\<not> running files" using recoverable_None [of request files] rec by (auto simp: running_def)
    with True st have h: "backed env rt F (he_bundle h)" if "rs_health st = Some h" for h
      using that backed_extends [OF _ ext] unfolding state_ok_def by blast
    from out have "\<forall>b \<in> set (rs_accepted st'). b \<in> set (rs_accepted st) \<or> (\<exists>h. rs_health st = Some h \<and> he_bundle h = b)" by blast
    then have acc: "backed env rt F b" if "b \<in> set (rs_accepted st')" for b
      using that old h by blast
    from out consider "rs_health st' = rs_health st"
      | h ev where "rs_health st' = Some h" "rs_phase st' = Verified" "rr_result r = Passed" "rr_evidence r = Some ev"
          "vouches env (rt_authority rt) (rr_target intent) h ev" by blast
    then show ?thesis
    proof cases
      case 1
      with sound acc h show ?thesis by (simp add: state_ok_def)
    next
      case 2
      with sound acc new show ?thesis by (auto simp: state_ok_def)
    qed
  next
    case False
    have cl: "granted st' = granted st \<and> (rs_phase st' \<in> closing \<or> st' = st \<and> rr_result r = FailedResult \<and> recovery \<noteq> None)"
    proof (cases recovery)
      case None
      with False finish_closing [OF fin [unfolded None]] show ?thesis by simp
    next
      case (Some q)
      with finish_recovery [OF fin [unfolded Some]] act show ?thesis by (auto simp: closing_def)
    qed
    then have acc': "backed env rt F b" if "b \<in> set (rs_accepted st')" for b
      using that old by (simp add: granted_def)
    from cl have ph: "rs_phase st' \<in> closing \<or> st' = st \<and> rr_result r = FailedResult \<and> recovery \<noteq> None" by simp
    from ph show ?thesis
    proof
      assume "rs_phase st' \<in> closing"
      with sound acc' show ?thesis by (simp add: state_ok_def)
    next
      assume "st' = st \<and> rr_result r = FailedResult \<and> recovery \<noteq> None"
      with failed st ext show ?thesis by (auto intro: state_ok_extends)
    qed
  qed
qed

text \<open>An operation that begins, and what it computed.\<close>

definition operation_of ::
  "contract_env \<Rightarrow> 'w runtime \<Rightarrow> json \<Rightarrow> json \<Rightarrow> 'w rehearsal \<Rightarrow> rreceipt \<Rightarrow> rstate \<Rightarrow> rreceipt option \<Rightarrow> rreceipt \<Rightarrow> rstate \<Rightarrow> bool" where
  "operation_of env rt permit request d intent st recovery r st' \<longleftrightarrow>
     begin_operation env permit request (rd_files d) = Inr (Inr (intent, st, recovery)) \<and>
     (\<exists>w. finish_operation env rt permit request intent st recovery (rd_world d) = (r, st', w))"

lemma recovered_receipt:
  assumes ok: "node_ok env rt files" and rec: "recoverable request files = Inr (Some q)"
  shows "map_of files (rr_operation q) = Some (OpFile q)" "rr_operation q \<noteq> state_name" "rr_result q = Running"
proof -
  from recoverable_Some(1) [OF rec] node_okD(1) [OF ok] obtain m where "map_of files m = Some (OpFile q)"
    by (auto simp: in_operations_map_of)
  with node_okD(3) [OF ok] show "map_of files (rr_operation q) = Some (OpFile q)" "rr_operation q \<noteq> state_name" by blast+
qed (rule recoverable_Some(2) [OF rec])

lemma node_ok_operation:
  fixes d :: "'w rehearsal"
  assumes ok: "node_ok env rt (rd_files d)" and op: "operation_of env rt permit request d intent st recovery r st'"
    and name: "request_text request ''operation_id'' \<noteq> state_name" and target: "request_bundle request \<noteq> None"
  shows "node_ok env rt (write_files (take k (operation_writes intent r st' recovery)) (rd_files d))"
proof -
  from op obtain w where b: "begin_operation env permit request (rd_files d) = Inr (Inr (intent, st, recovery))"
    and fin: "finish_operation env rt permit request intent st recovery (rd_world d) = (r, st', w)" by (auto simp: operation_of_def)
  note bD = begin_newD [OF b]
  let ?F0 = "rd_files d" and ?n = "rr_operation intent"
  have n: "?n \<noteq> state_name" using bD(2) name by simp
  have out: "rr_operation r = ?n" "rr_result r \<noteq> Running" using finish_outcome [OF fin] by (simp_all add: outcome_state_def)
  have st: "state_ok env rt ?F0 st"
    using load_stateD [OF bD(9)] node_okD(2) [OF ok]
    by (auto simp: state_ok_def sound_state_def initial_state_def)
  define F1 where "F1 = put_entry ?n (OpFile intent) ?F0"
  define F2 where "F2 = put_entry state_name (StateFile st') F1"
  define F3 where "F3 = put_entry ?n (OpFile r) F2"
  note FD = F1_def F2_def F3_def
  have dist: "distinct (map fst F)" if "F \<in> {F1, F2, F3}" for F
    using that node_okD(1) [OF ok] by (auto simp: FD)
  have keep: "map_of F m = Some (OpFile q)" if "F \<in> {F1, F2, F3}" "map_of ?F0 m = Some (OpFile q)" for F m q
    using that bD(1) node_okD(3) [OF ok, of m q] by (auto simp: FD)
  have ext: "extends ?F0 F" if "F \<in> {F1, F2, F3}" for F using keep [OF that] by (simp add: extends_def)
  have run: "running F" if "F \<in> {F1, F2}" for F
    by (rule runningI [of F ?n intent]) (use that dist n bD(5) in \<open>auto simp: FD\<close>)
  have act: "rr_action intent = ''drain''" if "recovery \<noteq> None"
    using that recoverable_Some(3) [of request ?F0] bD(3,8) by (cases recovery) auto
  note new = new_state_ok [OF st bD(8) act _ fin ext]
  have target': "rr_target intent \<noteq> None" using target bD(4) by simp
  have ok1: "node_ok env rt F1"
    unfolding F1_def
    by (rule node_ok_put_op [OF ok n]) (use node_okD(2) [OF ok, of state_name] ext [of F1] run [of F1] in \<open>auto simp: F1_def intro: state_ok_extends\<close>)
  have ok2: "node_ok env rt F2"
    unfolding F2_def by (rule node_ok_put_state [OF ok1], fold F2_def, rule new) (use target' run [of F2] in auto)
  have q3: "running F3" if "recovery = Some q" for q
    using recovered_receipt [OF ok, of request q] bD(8) that runningI [OF dist keep] by blast
  have b3: "backed env rt F (he_bundle h)"
    if "map_of F ?n = Some (OpFile r)" "rr_result r = Passed" "rr_evidence r = Some ev" "vouches env (rt_authority rt) (rr_target intent) h ev" for F h ev
    using that unfolding backed_def vouches_def by metis
  have st3: "state_ok env rt F3 st'"
    by (rule new) (use target' q3 b3 [of F3] in \<open>auto simp: F3_def\<close>)
  have "node_ok env rt (put_entry (rr_operation r) (OpFile r) F2)"
    by (rule node_ok_put_op [OF ok2]) (use n st3 out(1) in \<open>auto simp: F2_def F3_def\<close>)
  then have ok3: "node_ok env rt F3" by (simp add: F3_def out(1))
  have ok4: "node_ok env rt (put_entry (rr_operation q') (OpFile q') F3)"
    if rec: "recovery = Some q" and pass: "rr_result r = Passed" and q': "rr_operation q' = rr_operation q" for q q'
  proof -
    note q = recovered_receipt [OF ok bD(8) [unfolded rec]]
    then have ne: "rr_operation q \<noteq> ?n" using bD(1) by auto
    let ?F4 = "put_entry (rr_operation q') (OpFile q') F3"
    have e4: "extends ?F0 ?F4"
      using ext [of F3] q q' by (auto simp: extends_def)
    have "state_ok env rt ?F4 st'"
      by (rule new_state_ok [OF st bD(8) act target' fin e4]) (use b3 [of ?F4] pass ne q' in \<open>auto simp: F3_def\<close>)
    then show ?thesis
      by (intro node_ok_put_op [OF ok3]) (use q' q n in \<open>auto simp: F3_def F2_def\<close>)
  qed
  show ?thesis
  proof (cases "recovery \<noteq> None \<and> rr_result r = Passed \<and> 3 < k")
    case True
    then obtain q where q: "recovery = Some q" by auto
    with True ok4 [OF q, of "q\<lparr>rr_result := Recovered, rr_first_failure := Some ''interrupted_operation'', rr_recovered_by := Some (rr_operation r)\<rparr>"]
    show ?thesis by (simp add: operation_writes_def FD out(1) take_Cons')
  next
    case False
    then have "write_files (take k (operation_writes intent r st' recovery)) ?F0 \<in> {?F0, F1, F2, F3}"
      by (cases recovery) (auto simp: operation_writes_def FD out(1) take_Cons')
    with ok ok1 ok2 ok3 show ?thesis by auto
  qed
qed

section \<open>Nodes\<close>

text \<open>A request executed to its end or to one of its writes.  It has a bundle: \<open>fleet/remote_agent.py\<close> executes only what
  \<open>permit.verify\<close> let pass, which refuses a null bundle.  Its operation is not named like the state file; what happens otherwise
  is shown of \<^const>\<open>execute_rehearsal\<close> itself, where the receipt overwrites the state.\<close>

definition node_step :: "contract_env \<Rightarrow> 'w runtime \<Rightarrow> json \<Rightarrow> 'w rehearsal \<Rightarrow> 'w rehearsal \<Rightarrow> bool" where
  "node_step env rt permit d d' \<longleftrightarrow> (\<exists>request. request_text request ''operation_id'' \<noteq> state_name \<and> request_bundle request \<noteq> None \<and>
     (d' = snd (execute_rehearsal env rt permit request d) \<or> (\<exists>k w. d' = interrupt env rt permit request k w d)))"

definition node_init :: "'w rehearsal \<Rightarrow> bool" where
  "node_init d \<longleftrightarrow> rd_files d = []"

lemma interrupt_cases [case_names still new]:
  obtains "interrupt env rt permit request k w d = d"
  | intent st recovery r st' where "operation_of env rt permit request d intent st recovery r st'"
      "interrupt env rt permit request k w d = d\<lparr>rd_files := write_files (take k (operation_writes intent r st' recovery)) (rd_files d), rd_world := w\<rparr>"
proof (cases "begin_operation env permit request (rd_files d)")
  case (Inl e)
  then show ?thesis by (intro that(1)) (simp add: interrupt_def)
next
  case (Inr x)
  show ?thesis
  proof (cases x)
    case (Inl out)
    with Inr show ?thesis by (intro that(1)) (simp add: interrupt_def)
  next
    case (Inr y)
    obtain intent st recovery where y: "y = (intent, st, recovery)" by (cases y)
    obtain r st' w' where f: "finish_operation env rt permit request intent st recovery (rd_world d) = (r, st', w')"
      by (cases "finish_operation env rt permit request intent st recovery (rd_world d)")
    show ?thesis using \<open>begin_operation env permit request (rd_files d) = Inr x\<close> Inr y f
      by (intro that(2)) (auto simp: interrupt_def operation_of_def)
  qed
qed

lemma node_ok_execute:
  assumes ok: "node_ok env rt (rd_files d)" and "request_text request ''operation_id'' \<noteq> state_name" "request_bundle request \<noteq> None"
  shows "node_ok env rt (rd_files (snd (execute_rehearsal env rt permit request d)))"
proof (cases "execute_rehearsal env rt permit request d")
  case (Pair out d')
  then show ?thesis
  proof (cases rule: rehearsal_cases)
    case still
    with ok Pair show ?thesis by simp
  next
    case (new intent st recovery r st' w)
    then have "operation_of env rt permit request d intent st recovery r st'" by (simp add: operation_of_def)
    from node_ok_operation [OF ok this assms(2,3), of "length (operation_writes intent r st' recovery)"] new Pair
    show ?thesis by simp
  qed
qed

lemma node_ok_interrupt:
  assumes ok: "node_ok env rt (rd_files d)" and "request_text request ''operation_id'' \<noteq> state_name" "request_bundle request \<noteq> None"
  shows "node_ok env rt (rd_files (interrupt env rt permit request k w d))"
proof (cases rule: interrupt_cases [of env rt permit request k w d])
  case still
  with ok show ?thesis by simp
next
  case new
  with node_ok_operation [OF ok new(1) assms(2,3), of k] show ?thesis by simp
qed

interpretation node: invariant_system node_init "node_step env rt permit" "\<lambda>d. node_ok env rt (rd_files d)"
  for env :: contract_env and rt :: "'w runtime" and permit
proof unfold_locales
  fix s :: "'w rehearsal" assume "node_init s"
  then show "node_ok env rt (rd_files s)" by (simp add: node_init_def node_ok_def)
next
  fix s t :: "'w rehearsal"
  assume "node_ok env rt (rd_files s)" "node_step env rt permit s t"
  then show "node_ok env rt (rd_files t)"
    unfolding node_step_def by (auto intro: node_ok_execute node_ok_interrupt)
qed

end
