(* ===== verification/Rehearsal_Props.thy ===== *)
theory Rehearsal_Props
  imports Rehearsal_Node
begin

text \<open>
  What a rehearsal node guarantees over all its operations and crashes, and two ways its directory can end where no operation is
  possible.  A small node with a constant clock, a constant digest and services that always answer makes the hypotheses hold.
\<close>

section \<open>A small node\<close>

definition demo_env :: contract_env where
  "demo_env = \<lparr>ce_sha256 = (\<lambda>_. replicate 32 (CHR 0x00)), ce_time = (\<lambda>_. True), ce_ipv6 = (\<lambda>_. True),
     ce_verify = (\<lambda>key raw text. key = ''root'')\<rparr>"

definition demo_runtime :: "unit runtime" where
  "demo_runtime = \<lparr>rt_clock = (\<lambda>w. (0, w)), rt_nonce = (\<lambda>w. (replicate 64 (CHR ''a''), w)), rt_authority = ''root'',
     rt_enroll = (\<lambda>_. act_return None), rt_deliver = (\<lambda>_ _ _. act_return None), rt_identity = act_return ''id'',
     rt_accept = (\<lambda>_. act_return (JObj [])), rt_stage = (\<lambda>_. act_return ()), rt_configure = (\<lambda>_. act_return ()), rt_stop = act_return (),
     rt_switch = (\<lambda>_. act_return ()), rt_start = (\<lambda>_. act_return ()), rt_request_reboot = (\<lambda>_ _. act_return None),
     rt_reboot_check = (\<lambda>_ _. act_return ()), rt_drain = act_return (), rt_retire = act_return ()\<rparr>"

definition demo_bundle :: string where "demo_bundle = ''gw-'' @ replicate 32 (CHR ''b'')"

definition demo_permit :: json where
  "demo_permit = JObj [(''body'', JObj [(''instance_id'', JStr ''fleet-rehearsal-a''), (''bundle_a'', JStr demo_bundle), (''bundle_b'', JNull),
     (''ipv4'', JStr ''8.8.8.8''), (''expires_at'', JInt 9)])]"

definition demo_request :: "string \<Rightarrow> string \<Rightarrow> json \<Rightarrow> json" where
  "demo_request name action parameters = JObj [(''operation_id'', JStr name), (''action'', JStr action), (''bundle_id'', JStr demo_bundle),
     (''parameters'', parameters)]"

definition demo_run :: "json \<Rightarrow> unit rehearsal \<Rightarrow> unit rehearsal" where
  "demo_run request d = snd (execute_rehearsal demo_env demo_runtime demo_permit request d)"

definition demo_receipt :: json where
  "demo_receipt =
     (let zero = bytes_hex (replicate 32 (CHR 0x00)); pass = JStr ''PASS'' in
      JObj [(''body'', JObj [(''schema'', JInt 1), (''scope'', JStr acceptance_scope), (''instance_id'', JStr ''fleet-rehearsal-a''),
        (''bundle_id'', JStr demo_bundle), (''operation_id'', JStr ''v''), (''verification_nonce'', JStr (replicate 64 (CHR ''a''))),
        (''ipv4'', JStr ''8.8.8.8''), (''roles'', JObj (map (\<lambda>(role, steps). (role, JObj (map (\<lambda>s. (s, pass)) steps))) acceptance_steps)),
        (''issued_at'', JInt 0), (''expires_at'', JInt 9), (''local_health_sha256'', JStr zero), (''external_evidence_sha256'', JStr zero),
        (''cleanup'', pass), (''signer'', JStr zero)]),
       (''signature'', JStr ''AAAA'')])"

definition demo_start :: "unit rehearsal" where
  "demo_start = \<lparr>rd_files = [], rd_world = ()\<rparr>"

definition demo_active :: "unit rehearsal" where
  "demo_active = demo_run (demo_request ''a'' ''activate-local'' (JObj []))
     (demo_run (demo_request ''c'' ''complete-verification'' (JObj [(''receipt'', demo_receipt)]))
     (demo_run (demo_request ''v'' ''start-verification'' (JObj []))
     (demo_run (demo_request ''s'' ''stage'' (JObj [])) demo_start)))"

section \<open>Properties\<close>

lemma no_operation:
  assumes "\<And>x. begin_operation env permit request (rd_files d) \<noteq> Inr (Inr x)"
  shows "snd (execute_rehearsal env rt permit request d) = d" "interrupt env rt permit request k w d = d"
proof -
  consider e where "begin_operation env permit request (rd_files d) = Inl e"
    | out where "begin_operation env permit request (rd_files d) = Inr (Inl out)"
    using assms by (metis old.sum.exhaust)
  then have "snd (execute_rehearsal env rt permit request d) = d \<and> interrupt env rt permit request k w d = d"
    by cases (simp_all add: execute_rehearsal_def interrupt_def)
  then show "snd (execute_rehearsal env rt permit request d) = d" "interrupt env rt permit request k w d = d" by auto
qed

text \<open>C18. Whatever operations a node executes and wherever they crash, when its state file says it is active then the journal holds
  a passed receipt with an acceptance of exactly the active bundle: signed by the authority, with every step of every role
  and the cleanup passed.\<close>

theorem active_bundle_was_accepted:
  assumes "reach node_init (node_step env rt permit) d" "load_state permit (rd_files d) = Inr st" "rs_phase st = Active"
  shows "\<exists>n r evidence receipt. map_of (rd_files d) n = Some (OpFile r) \<and> rr_result r = Passed \<and> rr_evidence r = Some evidence \<and>
    receipt = the_field evidence ''external_acceptance'' \<and>
    signature_ok env (rt_authority rt) (the_field receipt ''body'') (the_field receipt ''signature'') \<and>
    acceptance_passed (the_field receipt ''body'') \<and>
    the_field (the_field receipt ''body'') ''bundle_id'' = bundle_json (rs_actual st)"
proof -
  from assms(1) have ok: "node_ok env rt (rd_files d)" by (rule node.reach_inv)
  from load_stateD [OF assms(2)] assms(3) have "map_of (rd_files d) state_name = Some (StateFile st)"
    by (auto simp: initial_state_def)
  with node_okD(2) [OF ok] have "state_ok env rt (rd_files d) st" by blast
  with assms(3) have "backed env rt (rd_files d) (rs_actual st)" by (auto simp: state_ok_def sound_state_def)
  then show ?thesis by (auto simp: backed_def accepts_def Let_def)
qed

text \<open>C19. Asking again is safe: after an operation answered with a receipt, the same request is answered with the same receipt, by any
  runtime, and neither the directory nor the world changes.\<close>

theorem replay_answers_from_journal:
  assumes "reach node_init (node_step env rt permit) d" "request_text request ''operation_id'' \<noteq> state_name"
    and "execute_rehearsal env rt permit request d = (Inr (ReceiptOut r), d')"
  shows "execute_rehearsal env rt' permit request d' = (Inr (ReceiptOut r), d')"
  using assms(3)
proof (cases rule: rehearsal_cases)
  case still
  then show ?thesis by (simp add: execute_rehearsal_def)
next
  case (new intent st recovery r0 st' w)
  let ?F = "rd_files d'"
  note b = begin_newD [OF new(1)]
  from assms(1) have ok: "node_ok env rt (rd_files d)" by (rule node.reach_inv)
  have r: "r0 = r" using new(3) by simp
  have out: "rr_operation r = rr_operation intent" "rr_binding r = rr_binding intent" "rr_result r \<noteq> Running"
    using finish_outcome [OF new(2)] r by (simp_all add: outcome_state_def)
  have "rr_operation q \<noteq> rr_operation intent" if "recovery = Some q" for q
    using recovered_receipt(1) [OF ok b(8) [unfolded that]] b(1) by auto
  then have f: "map_of ?F (request_text request ''operation_id'') = Some (OpFile r)"
    using new(4) r out(1) b(2) assms(2) by (auto simp: operation_writes_def split: option.split)
  have "replay_binding env (Some (rr_binding r)) permit request = Inr (rr_binding r)"
    using b(7) out(2) by (auto simp: replay_binding_def Let_def)
  then have "begin_operation env permit request ?F = Inr (Inl (ReceiptOut r))"
    using b(6,7,12) f out(3) by (simp add: begin_operation_def Let_def)
  then show ?thesis by (simp add: execute_rehearsal_def)
qed

text \<open>C20. A node that is fenced or retired stays as it is: no sequence of requests and crashes changes its directory or its world.\<close>

theorem fenced_node_is_final:
  assumes "load_state permit (rd_files d) = Inr st" "rs_fenced st \<or> rs_phase st = Retired"
    and "steps (node_step env rt permit) d d'"
  shows "d' = d"
proof -
  have none: "begin_operation env permit request (rd_files d) \<noteq> Inr (Inr x)" for request x
    using begin_newD(9,10,11) [of env permit request "rd_files d"] assms(1,2) by (cases x) fastforce
  have "t = d" if "node_step env rt permit d t" for t
    using that no_operation [OF none] unfolding node_step_def by auto
  with assms(3) show ?thesis by (induction rule: steps.induct) auto
qed

text \<open>C21. The recovery of an interrupted operation does not survive an interruption of its own.  When an operation ends after its intent
  was journaled and the drain that recovers it ends there too, no request whatever changes the directory or the world again.\<close>

theorem interrupted_recovery_blocks_node:
  assumes "reach node_init (node_step env rt permit) d"
    and "operation_of env rt permit request d intent st None r st'" "request_text request ''operation_id'' \<noteq> state_name"
      "request_bundle request \<noteq> None" "d1 = interrupt env rt permit request 1 w d"
    and "operation_of env rt permit drain d1 intent1 st1 (Some intent) r1 st1'" "request_text drain ''operation_id'' \<noteq> state_name"
      "request_bundle drain \<noteq> None" "d2 = interrupt env rt permit drain 1 w1 d1"
  shows "snd (execute_rehearsal env rt permit request' d2) = d2"
proof -
  have f1: "rd_files d1 = put_entry (rr_operation intent) (OpFile intent) (rd_files d)"
    using assms(2,5) by (auto simp: operation_of_def interrupt_def operation_writes_def)
  have f2: "rd_files d2 = put_entry (rr_operation intent1) (OpFile intent1) (rd_files d1)"
    using assms(6,9) by (auto simp: operation_of_def interrupt_def operation_writes_def)
  have i: "rr_operation intent \<noteq> state_name" "rr_result intent = Running"
    using assms(2,3) begin_newD(2,5) unfolding operation_of_def by metis+
  have i1: "rr_operation intent1 \<noteq> state_name" "rr_result intent1 = Running" "map_of (rd_files d1) (rr_operation intent1) = None"
    using assms(6,7) begin_newD(1,2,5) unfolding operation_of_def by metis+
  have ne: "rr_operation intent \<noteq> rr_operation intent1" using i1(3) f1 by auto
  have dist: "distinct (map fst (rd_files d2))"
    using node_okD(1) [OF node.reach_inv [OF assms(1)]] by (simp add: f1 f2)
  have m: "map_of (rd_files d2) (rr_operation intent) = Some (OpFile intent)" "map_of (rd_files d2) (rr_operation intent1) = Some (OpFile intent1)"
    using ne by (simp_all add: f1 f2)
  have mem: "intent \<in> set (operations (rd_files d2))" "intent1 \<in> set (operations (rd_files d2))"
    using in_operations_map_of [OF dist] m i(1) i1(1) by blast+
  have "begin_operation env permit request' (rd_files d2) \<noteq> Inr (Inr x)" for x
  proof
    assume "begin_operation env permit request' (rd_files d2) = Inr (Inr x)"
    then obtain rec where rec: "recoverable request' (rd_files d2) = Inr rec" using begin_newD(8) by (metis prod_cases3)
    define run where "run = filter (\<lambda>r. rr_result r = Running) (operations (rd_files d2))"
    have "intent \<in> set run" "intent1 \<in> set run" using mem i(2) i1(2) by (simp_all add: run_def)
    moreover have "run = [] \<or> (\<exists>q. run = [q])"
      using rec by (simp add: run_def recoverable_def Let_def split: list.split_asm if_split_asm)
    ultimately show False using ne by auto
  qed
  then show ?thesis by (rule no_operation)
qed

text \<open>C22. An operation named like the state file destroys it: executed as the first operation of a directory, its receipt overwrites
  the state, and from then on no request changes the directory or the world.\<close>

theorem operation_named_state_blocks_node:
  assumes "request_text request ''operation_id'' = state_name" "execute_rehearsal env rt permit request d = (Inr (ReceiptOut r), d')"
  shows "snd (execute_rehearsal env rt permit request' d') = d'"
proof -
  have f: "\<exists>r. map_of (rd_files d') state_name = Some (OpFile r)"
    using assms(2)
  proof (cases rule: rehearsal_cases)
    case still
    then have "begin_operation env permit request (rd_files d) = Inr (Inl (ReceiptOut r))" by simp
    then have "map_of (rd_files d) state_name = Some (OpFile r)"
      using assms(1) by (auto simp: begin_operation_def Let_def split: if_splits option.split_asm rfile.split_asm)
    with still show ?thesis by simp
  next
    case (new intent st recovery r0 st' w)
    then have "rr_operation r0 = state_name"
      using finish_outcome [OF new(2)] begin_newD(2) [OF new(1)] assms(1) by (simp add: outcome_state_def)
    with new show ?thesis by (auto simp: operation_writes_def split: option.split)
  qed
  then have "load_state permit (rd_files d') \<noteq> Inr x" for x by (auto simp: load_state_def load_status_def)
  then have "begin_operation env permit request' (rd_files d') \<noteq> Inr (Inr x)" for x
    using begin_newD(9) by (metis prod_cases3)
  then show ?thesis by (rule no_operation)
qed

section \<open>The properties at the small node\<close>

lemma demo_names [simp]:
  "request_text (demo_request name action parameters) ''operation_id'' = name" "request_bundle (demo_request name action parameters) = Some demo_bundle"
  by (simp_all add: request_text_def request_bundle_def demo_request_def the_field_def)

abbreviation demo_step :: "unit rehearsal \<Rightarrow> unit rehearsal \<Rightarrow> bool" where
  "demo_step \<equiv> node_step demo_env demo_runtime demo_permit"

lemma demo_run_step: "name \<noteq> state_name \<Longrightarrow> demo_step d (demo_run (demo_request name action parameters) d)"
  unfolding node_step_def demo_run_def by (intro exI [of _ "demo_request name action parameters"]) simp

lemma demo_run_reach:
  "reach node_init demo_step d \<Longrightarrow> name \<noteq> state_name \<Longrightarrow> reach node_init demo_step (demo_run (demo_request name action parameters) d)"
  by (erule reach_step) (rule demo_run_step)

lemma demo_start_reach: "reach node_init demo_step demo_start"
  by (rule reach_init) (simp add: node_init_def demo_start_def)

lemma demo_active_reach: "reach node_init demo_step demo_active"
  unfolding demo_active_def by (intro demo_run_reach demo_start_reach) (simp_all add: state_name_def)

lemma demo_active_state: "case load_state demo_permit (rd_files demo_active) of Inr st \<Rightarrow> rs_phase st = Active | Inl _ \<Rightarrow> False"
  by code_simp

theorem active_bundle_was_accepted_witness:
  "\<exists>st n r. load_state demo_permit (rd_files demo_active) = Inr st \<and> rs_phase st = Active \<and>
     map_of (rd_files demo_active) n = Some (OpFile r) \<and> rr_result r = Passed"
proof -
  obtain st where st: "load_state demo_permit (rd_files demo_active) = Inr st" "rs_phase st = Active"
    using demo_active_state by (cases "load_state demo_permit (rd_files demo_active)") auto
  from active_bundle_was_accepted [OF demo_active_reach this] st show ?thesis by blast
qed

definition demo_stage :: json where "demo_stage = demo_request ''s'' ''stage'' (JObj [])"

lemma demo_stage_out: "case execute_rehearsal demo_env demo_runtime demo_permit demo_stage demo_start of (Inr (ReceiptOut r), d) \<Rightarrow> rr_result r = Passed | _ \<Rightarrow> False"
  by code_simp

theorem replay_answers_from_journal_witness:
  "\<exists>r d. execute_rehearsal demo_env demo_runtime demo_permit demo_stage demo_start = (Inr (ReceiptOut r), d) \<and> rr_result r = Passed \<and>
     execute_rehearsal demo_env demo_runtime demo_permit demo_stage d = (Inr (ReceiptOut r), d)"
proof -
  obtain r d where rd: "execute_rehearsal demo_env demo_runtime demo_permit demo_stage demo_start = (Inr (ReceiptOut r), d)" "rr_result r = Passed"
    using demo_stage_out by (auto split: prod.split_asm sum.split_asm outcome.split_asm)
  have "request_text demo_stage ''operation_id'' \<noteq> state_name" by (simp add: demo_stage_def state_name_def)
  from replay_answers_from_journal [OF demo_start_reach this rd(1), of demo_runtime] rd show ?thesis by blast
qed

definition demo_retired :: "unit rehearsal" where
  "demo_retired = \<lparr>rd_files = [(state_name, StateFile ((initial_state demo_permit)\<lparr>rs_phase := Retired\<rparr>))], rd_world = ()\<rparr>"

theorem fenced_node_is_final_witness:
  "load_state demo_permit (rd_files demo_retired) = Inr ((initial_state demo_permit)\<lparr>rs_phase := Retired\<rparr>) \<and> demo_run demo_stage demo_retired = demo_retired"
proof -
  have l: "load_state demo_permit (rd_files demo_retired) = Inr ((initial_state demo_permit)\<lparr>rs_phase := Retired\<rparr>)"
    by (simp add: load_state_def load_status_def demo_retired_def initial_state_def)
  have "demo_step demo_retired (demo_run demo_stage demo_retired)"
    unfolding demo_stage_def by (rule demo_run_step) (simp add: state_name_def)
  with fenced_node_is_final [OF l _ step_steps] l show ?thesis by simp
qed

definition demo_interrupted :: "unit rehearsal" where
  "demo_interrupted = interrupt demo_env demo_runtime demo_permit demo_stage 1 () demo_start"

definition demo_drain :: json where
  "demo_drain = demo_request ''r'' ''drain'' (JObj [(''recover_operation_id'', JStr ''s''),
     (''recover_binding'', JObj [(''permit_sha256'', JStr (replicate 64 (CHR ''0''))), (''request_sha256'', JStr (replicate 64 (CHR ''0'')))])])"

definition new_operation :: "(outcome + rreceipt \<times> rstate \<times> rreceipt option) rres \<Rightarrow> (rreceipt \<times> rreceipt option) option" where
  "new_operation b = (case b of Inr (Inr (i, st, rec)) \<Rightarrow> Some (i, rec) | _ \<Rightarrow> None)"

lemma new_operationD: "new_operation b = Some (i, rec) \<Longrightarrow> \<exists>st. b = Inr (Inr (i, st, rec))"
  by (auto simp: new_operation_def split: sum.split_asm prod.split_asm)

lemma demo_begin:
  "case new_operation (begin_operation demo_env demo_permit demo_stage (rd_files demo_start)) of
     Some (i, rec) \<Rightarrow> rec = None \<and>
       map_option snd (new_operation (begin_operation demo_env demo_permit demo_drain (rd_files demo_interrupted))) = Some (Some i)
   | None \<Rightarrow> False"
  by code_simp

lemma demo_operation:
  assumes "begin_operation demo_env demo_permit request (rd_files d) = Inr (Inr (i, st, rec))"
  obtains r st' where "operation_of demo_env demo_runtime demo_permit request d i st rec r st'"
  using assms unfolding operation_of_def by (metis prod_cases3)

theorem interrupted_recovery_blocks_node_witness:
  "\<exists>d. d = interrupt demo_env demo_runtime demo_permit demo_drain 1 () demo_interrupted \<and> rd_files d \<noteq> rd_files demo_interrupted \<and>
     demo_run (demo_request ''x'' ''drain'' (JObj [])) d = d"
proof -
  obtain i st i1 st1 where b: "begin_operation demo_env demo_permit demo_stage (rd_files demo_start) = Inr (Inr (i, st, None))"
    and b1: "begin_operation demo_env demo_permit demo_drain (rd_files demo_interrupted) = Inr (Inr (i1, st1, Some i))"
    using demo_begin by (auto split: option.split_asm dest!: new_operationD)
  obtain r st' where op: "operation_of demo_env demo_runtime demo_permit demo_stage demo_start i st None r st'" by (rule demo_operation [OF b])
  obtain r1 st1' where op1: "operation_of demo_env demo_runtime demo_permit demo_drain demo_interrupted i1 st1 (Some i) r1 st1'"
    by (rule demo_operation [OF b1])
  let ?d = "interrupt demo_env demo_runtime demo_permit demo_drain 1 () demo_interrupted"
  have n: "request_text demo_stage ''operation_id'' \<noteq> state_name" "request_bundle demo_stage \<noteq> None"
    "request_text demo_drain ''operation_id'' \<noteq> state_name" "request_bundle demo_drain \<noteq> None"
    by (simp_all add: demo_stage_def demo_drain_def state_name_def)
  have "map_of (rd_files ?d) (rr_operation i1) \<noteq> None" "map_of (rd_files demo_interrupted) (rr_operation i1) = None"
    using b1 begin_newD(1) [OF b1] by (auto simp: interrupt_def operation_writes_def split: prod.split)
  then have "rd_files ?d \<noteq> rd_files demo_interrupted" by auto
  with interrupted_recovery_blocks_node [OF demo_start_reach op n(1,2) demo_interrupted_def op1 n(3,4) refl] show ?thesis
    unfolding demo_run_def by blast
qed

definition demo_named_state :: json where "demo_named_state = demo_request ''state'' ''stage'' (JObj [])"

lemma demo_named_state_out:
  "case execute_rehearsal demo_env demo_runtime demo_permit demo_named_state demo_start of (Inr (ReceiptOut r), d) \<Rightarrow> rr_result r = Passed | _ \<Rightarrow> False"
  by code_simp

theorem operation_named_state_blocks_node_witness:
  "\<exists>d. d = demo_run demo_named_state demo_start \<and> rd_files d \<noteq> [] \<and> demo_run demo_stage d = d"
proof -
  obtain r d where rd: "execute_rehearsal demo_env demo_runtime demo_permit demo_named_state demo_start = (Inr (ReceiptOut r), d)"
    using demo_named_state_out by (auto split: prod.split_asm sum.split_asm outcome.split_asm)
  have n: "request_text demo_named_state ''operation_id'' = state_name" by (simp add: demo_named_state_def state_name_def)
  have "rd_files d \<noteq> []"
    using rd
  proof (cases rule: rehearsal_cases)
    case still
    then show ?thesis by (auto simp: demo_start_def begin_operation_def Let_def split: if_split_asm)
  next
    case (new intent st recovery r0 st' w)
    then have "map_of (rd_files d) state_name \<noteq> None" by (auto simp: operation_writes_def split: option.split)
    then show ?thesis by auto
  qed
  with operation_named_state_blocks_node [OF n rd] rd show ?thesis by (simp add: demo_run_def)
qed

end
