(* ===== verification/Chat_Codec.thy ===== *)
theory Chat_Codec
  imports Wire "HOL-Library.Word"
begin

text \<open>
  The signed text subset of the messenger, \<open>messenger/codec.py\<close>, and the service notices it carries,
  \<open>messenger/notices.py\<close>.  A Python text is represented by its UTF-8 encoding.  The message format's constants, addresses,
  signatures, SHA-256 and MessagePack are libraries outside the sources and parameters here.
\<close>

unbundle bit_operations_syntax

section \<open>Values\<close>

text \<open>What MessagePack decodes to; \<open>MOther\<close> stands for extension values and floats that are not finite.\<close>

datatype mval = MNil | MBool bool | MInt int | MFloat real | MStr string | MBin string | MList "mval list"
  | MMap "(mval \<times> mval) list" | MOther

definition mget :: "(mval \<times> mval) list \<Rightarrow> string \<Rightarrow> mval" where
  "mget kvs k = (case map_of kvs (MStr k) of None \<Rightarrow> MNil | Some v \<Rightarrow> v)"

definition mkeys :: "(mval \<times> mval) list \<Rightarrow> mval set" where
  "mkeys kvs = fst ` set kvs"

text \<open>A dict key equal to the integer \<open>n\<close>.\<close>

fun num_key :: "int \<Rightarrow> mval \<Rightarrow> bool" where
  "num_key n (MInt i) \<longleftrightarrow> i = n"
| "num_key n (MBool b) \<longleftrightarrow> of_bool b = n"
| "num_key n (MFloat x) \<longleftrightarrow> x = of_int n"
| "num_key n _ \<longleftrightarrow> False"

fun mint_in :: "int \<Rightarrow> int \<Rightarrow> mval \<Rightarrow> bool" where
  "mint_in lo hi (MInt i) \<longleftrightarrow> lo \<le> i \<and> i \<le> hi"
| "mint_in lo hi _ \<longleftrightarrow> False"

fun the_int :: "mval \<Rightarrow> int" where
  "the_int (MInt i) = i"
| "the_int _ = 0"

fun the_str :: "mval \<Rightarrow> string" where
  "the_str (MStr s) = s"
| "the_str _ = []"

fun the_list :: "mval \<Rightarrow> mval list" where
  "the_list (MList vs) = vs"
| "the_list _ = []"

fun mstr_sat :: "(string \<Rightarrow> bool) \<Rightarrow> mval \<Rightarrow> bool" where
  "mstr_sat p (MStr s) \<longleftrightarrow> p s"
| "mstr_sat p _ \<longleftrightarrow> False"

section \<open>UTF-8\<close>

definition is_cont :: "char \<Rightarrow> bool" where
  "is_cont c \<longleftrightarrow> 128 \<le> byte_of c \<and> byte_of c < 192"

definition low6 :: "char \<Rightarrow> nat" where
  "low6 c = byte_of c - 128"

text \<open>\<open>bytes.decode('utf-8')\<close>; \<open>None\<close> is the UnicodeDecodeError.\<close>

fun utf8_decode :: "string \<Rightarrow> nat list option" where
  "utf8_decode [] = Some []"
| "utf8_decode (a # r) =
     (let x = byte_of a in
      if x < 128 then map_option (Cons x) (utf8_decode r)
      else if 194 \<le> x \<and> x < 224 then (case r of
          b # r' \<Rightarrow> if is_cont b then map_option (Cons ((x - 192) * 64 + low6 b)) (utf8_decode r') else None
        | _ \<Rightarrow> None)
      else if 224 \<le> x \<and> x < 240 then (case r of
          b # c # r' \<Rightarrow>
            let p = ((x - 224) * 64 + low6 b) * 64 + low6 c in
            if is_cont b \<and> is_cont c \<and> 2048 \<le> p \<and> \<not> (55296 \<le> p \<and> p < 57344)
            then map_option (Cons p) (utf8_decode r') else None
        | _ \<Rightarrow> None)
      else if 240 \<le> x \<and> x < 245 then (case r of
          b # c # d # r' \<Rightarrow>
            let p = (((x - 240) * 64 + low6 b) * 64 + low6 c) * 64 + low6 d in
            if is_cont b \<and> is_cont c \<and> is_cont d \<and> 65536 \<le> p \<and> p < 1114112
            then map_option (Cons p) (utf8_decode r') else None
        | _ \<Rightarrow> None)
      else None)"

definition is_white :: "nat \<Rightarrow> bool" where
  "is_white p \<longleftrightarrow> (9 \<le> p \<and> p \<le> 13) \<or> (28 \<le> p \<and> p \<le> 32) \<or> p \<in> {133, 160, 5760, 8232, 8233, 8239, 8287, 12288} \<or> (8192 \<le> p \<and> p \<le> 8202)"

text \<open>\<open>not value.strip()\<close>\<close>

definition blank :: "string \<Rightarrow> bool" where
  "blank s = (case utf8_decode s of None \<Rightarrow> False | Some ps \<Rightarrow> list_all is_white ps)"

section \<open>Notices\<close>

record notice =
  no_id :: string
  no_revision :: int
  no_kind :: string
  no_title :: string
  no_body :: string
  no_created :: int
  no_expires :: int
  no_platforms :: "string list"
  no_min :: int
  no_max :: int

definition notice_kinds :: "string list" where
  "notice_kinds = [''update'', ''maintenance'', ''server_change'', ''information'']"

definition platforms :: "string list" where
  "platforms = [''android'', ''windows'', ''linux'']"

definition notice_names :: "string list" where
  "notice_names = [''event_id'', ''revision'', ''kind'', ''title'', ''body'', ''created'', ''expires'', ''platforms'', ''min_version'', ''max_version'']"

definition service_text :: "nat \<Rightarrow> string \<Rightarrow> bool" where
  "service_text limit s \<longleftrightarrow> \<not> blank s \<and> length s \<le> limit \<and> list_all (\<lambda>c. 32 \<le> byte_of c \<or> byte_of c \<in> {9, 10}) s"

type_synonym 'a cres = "(string, 'a) res"

definition validate_notice :: "mval \<Rightarrow> notice cres" where
  "validate_notice event = (case event of
     MMap e \<Rightarrow>
       bind_res (check (mkeys e = MStr ` set notice_names) ''Invalid service fields'') (\<lambda>_.
       bind_res (check (mstr_sat (fullmatch is_hex 32 32) (mget e ''event_id'')) ''Invalid service ID'') (\<lambda>_.
       bind_res (check (mint_in 1 1000000 (mget e ''revision'')) ''Invalid service revision'') (\<lambda>_.
       bind_res (check (mstr_sat (\<lambda>s. s \<in> set notice_kinds) (mget e ''kind'')) ''Invalid service kind'') (\<lambda>_.
       bind_res (check (mstr_sat (service_text 160) (mget e ''title'') \<and> mstr_sat (service_text 4000) (mget e ''body'')) ''Invalid service text'') (\<lambda>_.
       bind_res (check (case (mget e ''created'', mget e ''expires'') of
           (MInt c, MInt x) \<Rightarrow> 0 < c \<and> c < x \<and> x \<le> c + 30 * 86400 | _ \<Rightarrow> False) ''Invalid service lifetime'') (\<lambda>_.
       bind_res (check (case mget e ''platforms'' of
           MList ps \<Rightarrow> ps \<noteq> [] \<and> length ps \<le> 3 \<and> list_all (mstr_sat (\<lambda>s. s \<in> set platforms)) ps \<and> distinct ps
         | _ \<Rightarrow> False) ''Invalid service platforms'') (\<lambda>_.
       bind_res (check (mint_in 0 2147483647 (mget e ''min_version'') \<and> mint_in 0 2147483647 (mget e ''max_version'')) ''Invalid service version'') (\<lambda>_.
       bind_res (check (the_int (mget e ''min_version'') \<le> the_int (mget e ''max_version'')) ''Invalid service version range'') (\<lambda>_.
       Inr \<lparr>no_id = the_str (mget e ''event_id''), no_revision = the_int (mget e ''revision''), no_kind = the_str (mget e ''kind''),
         no_title = the_str (mget e ''title''), no_body = the_str (mget e ''body''), no_created = the_int (mget e ''created''),
         no_expires = the_int (mget e ''expires''), no_platforms = map the_str (the_list (mget e ''platforms'')),
         no_min = the_int (mget e ''min_version''), no_max = the_int (mget e ''max_version'')\<rparr>)))))))))
   | _ \<Rightarrow> Inl ''Invalid service fields'')"

definition applicable :: "notice \<Rightarrow> string \<Rightarrow> int \<Rightarrow> real \<Rightarrow> bool" where
  "applicable e platform version now \<longleftrightarrow> of_int (no_created e) \<le> now + 300 \<and> now < of_int (no_expires e) \<and>
     platform \<in> set (no_platforms e) \<and> no_min e \<le> version \<and> version \<le> no_max e"

text \<open>The notice as the dict it is sent as.\<close>

definition notice_value :: "notice \<Rightarrow> mval" where
  "notice_value n = MMap [(MStr ''event_id'', MStr (no_id n)), (MStr ''revision'', MInt (no_revision n)), (MStr ''kind'', MStr (no_kind n)),
     (MStr ''title'', MStr (no_title n)), (MStr ''body'', MStr (no_body n)), (MStr ''created'', MInt (no_created n)),
     (MStr ''expires'', MInt (no_expires n)), (MStr ''platforms'', MList (map MStr (no_platforms n))),
     (MStr ''min_version'', MInt (no_min n)), (MStr ''max_version'', MInt (no_max n))]"

section \<open>Voice\<close>

text \<open>\<open>raw[a:b]\<close>\<close>

definition slice :: "nat \<Rightarrow> nat \<Rightarrow> 'a list \<Rightarrow> 'a list" where
  "slice a b xs = take (b - a) (drop a xs)"

definition max_audio :: nat where "max_audio = 131072"

definition crc_bit :: "32 word \<Rightarrow> 32 word" where
  "crc_bit c = (if bit c 31 then push_bit 1 c XOR 0x04c11db7 else push_bit 1 c)"

definition ogg_crc :: "string \<Rightarrow> 32 word" where
  "ogg_crc page = fold (\<lambda>b c. (crc_bit ^^ 8) (c XOR push_bit 24 (of_nat (byte_of b)))) page 0"

definition ogg_magic :: string where "ogg_magic = ''OggS'' @ [CHR 0x00]"

definition last_flag :: "char \<Rightarrow> bool" where
  "last_flag c = bit (byte_of c) 2"

text \<open>The header and the end of the page at an offset, as both parsers read them.\<close>

definition page_bounds :: "string \<Rightarrow> nat \<Rightarrow> bool \<Rightarrow> (nat \<times> nat) cres" where
  "page_bounds raw offset segments =
     bind_res (check (offset + 27 \<le> length raw \<and> slice offset (offset + 5) raw = ogg_magic) ''Invalid Ogg page'') (\<lambda>_.
     let count = byte_of (raw ! (offset + 26)); header = offset + 27 + count in
     bind_res (check ((segments \<longrightarrow> count \<noteq> 0) \<and> header \<le> length raw) ''Invalid Ogg segments'') (\<lambda>_.
     let end' = header + sum_list (map byte_of (slice (offset + 27) header raw)) in
     bind_res (check (end' \<le> length raw) ''Truncated audio'') (\<lambda>_. Inr (header, end'))))"

definition clear_crc :: "string \<Rightarrow> string" where
  "clear_crc page = take 22 page @ replicate 4 (CHR 0x00) @ drop 26 page"

definition checked_page :: "string \<Rightarrow> nat \<Rightarrow> (nat \<times> nat) cres" where
  "checked_page raw offset =
     bind_res (page_bounds raw offset True) (\<lambda>(header, end').
     let page = slice offset end' raw in
     bind_res (check (unat (ogg_crc (clear_crc page)) = le_int (slice 22 26 page)) ''Invalid Ogg checksum'') (\<lambda>_.
     bind_res (check (\<not> (last_flag (raw ! (offset + 5)) \<and> end' \<noteq> length raw)) ''Chained audio not supported'') (\<lambda>_.
     Inr (header, end'))))"

lemma bind_res_cong [fundef_cong]:
  "m = m' \<Longrightarrow> (\<And>x. m' = Inr x \<Longrightarrow> f x = f' x) \<Longrightarrow> bind_res m f = bind_res m' f'"
  by (cases m') simp_all

lemma page_bounds_Inr: "page_bounds raw offset seg = Inr (h, e) \<Longrightarrow> offset + 27 \<le> h \<and> h \<le> e \<and> e \<le> length raw"
  by (auto simp: page_bounds_def Let_def)

lemma checked_page_bounds: "checked_page raw offset = Inr (h, e) \<Longrightarrow> page_bounds raw offset True = Inr (h, e)"
  by (auto simp: checked_page_def Let_def)

text \<open>The pages of a recording: the offset and the header's end of the last one.\<close>

function scan_pages :: "string \<Rightarrow> nat \<Rightarrow> (nat \<times> nat) option \<Rightarrow> (nat \<times> nat) option cres" where
  "scan_pages raw offset found =
     (if length raw \<le> offset then Inr found
      else bind_res (checked_page raw offset) (\<lambda>(header, end'). scan_pages raw end' (Some (offset, header))))"
  by pat_completeness auto
termination
  by (relation "measure (\<lambda>(raw, offset, found). length raw - offset)") (auto dest!: checked_page_bounds page_bounds_Inr)

declare scan_pages.simps [simp del]

record opus_state =
  os_sequence :: nat
  os_serial :: "nat option"
  os_last :: nat
  os_skip :: "nat option"
  os_eos :: bool

text \<open>The first packet: mono Opus, and the samples to skip.\<close>

definition opus_head :: "string \<Rightarrow> nat cres" where
  "opus_head packet =
     bind_res (check (take 8 packet = ''OpusHead'' \<and> length packet = 19 \<and> byte_of (packet ! 8) = 1 \<and> byte_of (packet ! 9) = 1 \<and>
       byte_of (packet ! 18) = 0) ''Mono Opus required'') (\<lambda>_. Inr (le_int (slice 10 12 packet)))"

definition opus_page :: "string \<Rightarrow> nat \<Rightarrow> opus_state \<Rightarrow> (nat \<times> opus_state) cres" where
  "opus_page raw offset s =
     bind_res (page_bounds raw offset False) (\<lambda>(header, end').
     let page_serial = le_int (slice (offset + 14) (offset + 18) raw); number = le_int (slice (offset + 18) (offset + 22) raw) in
     bind_res (check ((os_serial s = None \<or> os_serial s = Some page_serial) \<and> number = os_sequence s) ''Invalid Ogg sequence'') (\<lambda>_.
     bind_res (if os_sequence s = 0 then bind_res (opus_head (slice header end' raw)) (\<lambda>k. Inr (Some k)) else Inr (os_skip s)) (\<lambda>skip.
     let granule = le_int (slice (offset + 6) (offset + 14) raw) in
     bind_res (check (\<not> (granule \<noteq> 2 ^ 64 - 1 \<and> granule < os_last s)) ''Invalid audio duration'') (\<lambda>_.
     let eos = last_flag (raw ! (offset + 5)) in
     bind_res (check (\<not> (eos \<and> end' \<noteq> length raw)) ''Chained audio not supported'') (\<lambda>_.
     Inr (end', \<lparr>os_sequence = os_sequence s + 1, os_serial = Some page_serial,
       os_last = (if granule \<noteq> 2 ^ 64 - 1 then granule else os_last s), os_skip = skip, os_eos = eos\<rparr>))))))"

lemma opus_page_Inr: "opus_page raw offset s = Inr (e, s') \<Longrightarrow> offset < e \<and> e \<le> length raw"
  by (auto simp: opus_page_def Let_def dest!: page_bounds_Inr)

function opus_pages :: "string \<Rightarrow> nat \<Rightarrow> opus_state \<Rightarrow> opus_state cres" where
  "opus_pages raw offset s =
     (if length raw \<le> offset then Inr s
      else bind_res (opus_page raw offset s) (\<lambda>(end', s'). opus_pages raw end' s'))"
  by pat_completeness auto
termination
  by (relation "measure (\<lambda>(raw, offset, s). length raw - offset)") (auto dest!: opus_page_Inr)

declare opus_pages.simps [simp del]

text \<open>Python's \<open>round\<close>, and the double nearest to a real of a magnitude between
  \<open>2\<close> to the \<open>-76\<close> and \<open>2\<close> to the \<open>180\<close>, which the durations have: the unit in the last place is found by at most 128 halvings or doublings.\<close>

definition round_even :: "real \<Rightarrow> int" where
  "round_even x =
     (let f = \<lfloor>x\<rfloor>; d = x - of_int f in
      if d < 1 / 2 then f else if 1 / 2 < d then f + 1 else if even f then f else f + 1)"

fun last_place :: "nat \<Rightarrow> real \<Rightarrow> real \<Rightarrow> real" where
  "last_place 0 x u = u"
| "last_place (Suc k) x u = (if 2 ^ 53 \<le> x / u then last_place k x (2 * u) else if x / u < 2 ^ 52 then last_place k x (u / 2) else u)"

definition double :: "real \<Rightarrow> real" where
  "double x = (if x = 0 then 0 else let u = last_place 128 \<bar>x\<bar> 1 in of_int (round_even (x / u)) * u)"

definition opus_start :: opus_state where
  "opus_start = \<lparr>os_sequence = 0, os_serial = None, os_last = 0, os_skip = None, os_eos = False\<rparr>"

definition opus_duration :: "string \<Rightarrow> int cres" where
  "opus_duration raw =
     bind_res (check (64 \<le> length raw \<and> length raw \<le> max_audio) ''Invalid audio size'') (\<lambda>_.
     bind_res (opus_pages raw 0 opus_start) (\<lambda>s.
     let duration = double ((of_nat (os_last s) - of_nat (case os_skip s of None \<Rightarrow> 0 | Some k \<Rightarrow> k)) / 48000) in
     bind_res (check (os_eos s \<and> 0 < duration \<and> duration \<le> 61) ''Voice limit is 60 seconds'') (\<lambda>_.
     Inr (round_even (double (duration * 1000))))))"

text \<open>Set the flag of the last page and seal it again.\<close>

definition close_page :: "string \<Rightarrow> string" where
  "close_page page =
     (let flagged = page[5 := byte_char (byte_of (page ! 5) OR 4)]; cleared = clear_crc flagged in
      take 22 cleared @ le_bytes 4 (unat (ogg_crc cleared)) @ drop 26 cleared)"

definition finalize_recorded_opus :: "string \<Rightarrow> string cres" where
  "finalize_recorded_opus raw =
     bind_res (check (64 \<le> length raw \<and> length raw \<le> max_audio) ''Invalid audio size'') (\<lambda>_.
     bind_res (scan_pages raw 0 None) (\<lambda>found. case found of
       None \<Rightarrow> Inl ''unbound header''
     | Some (last_offset, header) \<Rightarrow>
         bind_res (check (byte_of (raw ! (header - 1)) \<noteq> 255) ''Incomplete Opus packet'') (\<lambda>_.
         let raw' = (if last_flag (raw ! (last_offset + 5)) then raw else take last_offset raw @ close_page (drop last_offset raw)) in
         bind_res (opus_duration raw') (\<lambda>_. Inr raw'))))"

section \<open>Messages\<close>

text \<open>The kinds of a message with the fields each kind has.\<close>

datatype body = Text | Edit string int | Stored string | Service notice | Audio string int "int option"

record message =
  m_id :: string
  m_peer :: string
  m_text :: string
  m_time :: real
  m_body :: body

record codec_env =
  cx_custom :: int
  cx_audio :: int
  cx_opus :: int
  cx_codec2_1600 :: int
  cx_codec2_2400 :: int
  cx_codec2_3200 :: int
  cx_sha256 :: "string \<Rightarrow> string"
  cx_address :: "string \<Rightarrow> string"
  cx_validate :: "string \<Rightarrow> string \<Rightarrow> string \<Rightarrow> bool"
  cx_unpackb :: "string \<Rightarrow> mval option"
  cx_pack :: "string \<Rightarrow> string \<Rightarrow> string \<Rightarrow> (mval \<times> mval) list \<Rightarrow> string"

text \<open>The Codec2 frames of a mode: bytes and milliseconds of a frame.\<close>

definition radio_frames :: "codec_env \<Rightarrow> (int \<times> nat \<times> int) list" where
  "radio_frames env = [(cx_codec2_1600 env, 8, 40), (cx_codec2_2400 env, 6, 20), (cx_codec2_3200 env, 8, 20)]"

definition radio_duration :: "codec_env \<Rightarrow> mval \<Rightarrow> int \<Rightarrow> int cres" where
  "radio_duration env raw mode = (case (map_of (radio_frames env) mode, raw) of
     (Some (size', millis), MBin bs) \<Rightarrow>
       bind_res (check (bs \<noteq> [] \<and> length bs mod size' = 0 \<and> int (length bs div size') * millis \<le> 60000) ''Invalid Codec2 frames'') (\<lambda>_.
       Inr (int (length bs div size') * millis))
   | _ \<Rightarrow> Inl ''Unsupported audio mode'')"

definition voice_duration :: "codec_env \<Rightarrow> int \<Rightarrow> mval \<Rightarrow> int cres" where
  "voice_duration env mode raw =
     (if mode = cx_opus env then (case raw of MBin bs \<Rightarrow> opus_duration bs | _ \<Rightarrow> Inl ''Invalid audio size'')
      else radio_duration env raw mode)"

definition message_ref :: "string \<Rightarrow> bool" where
  "message_ref s \<longleftrightarrow> length s = 64 \<and> canonical_hex s"

definition parse_custom :: "mval \<Rightarrow> string \<Rightarrow> body cres" where
  "parse_custom edit text = (case edit of
     MMap e \<Rightarrow>
       if mget e ''type'' \<in> {MStr ''service'', MStr ''stored''}
       then bind_res (check (mget e ''fc'' = MInt 1 \<and> text = []) ''Invalid delivery fields'') (\<lambda>_.
            if mget e ''type'' = MStr ''service''
            then bind_res (check (mkeys e = {MStr ''fc'', MStr ''type'', MStr ''event''}) ''Invalid service fields'') (\<lambda>_.
                 bind_res (validate_notice (mget e ''event'')) (\<lambda>n. Inr (Service n)))
            else bind_res (check (mkeys e = {MStr ''fc'', MStr ''type'', MStr ''target''} \<and> mstr_sat message_ref (mget e ''target''))
                   ''Invalid stored receipt'') (\<lambda>_.
                 Inr (Stored (the_str (mget e ''target'')))))
       else bind_res (check (mkeys e = {MStr ''fc'', MStr ''type'', MStr ''target'', MStr ''revision''} \<and> mget e ''fc'' = MInt 1 \<and>
              mget e ''type'' = MStr ''edit'') ''Unsupported operation'') (\<lambda>_.
            bind_res (check (mstr_sat message_ref (mget e ''target'') \<and> mint_in 1 1000000 (mget e ''revision'') \<and> text \<noteq> []) ''Invalid edit'') (\<lambda>_.
            Inr (Edit (the_str (mget e ''target'')) (the_int (mget e ''revision'')))))
   | _ \<Rightarrow> Inl ''Unsupported operation'')"

definition parse_audio :: "codec_env \<Rightarrow> mval \<Rightarrow> string \<Rightarrow> body cres" where
  "parse_audio env audio text = (case audio of
     MList [MInt mode, raw] \<Rightarrow>
       bind_res (check (text = []) ''Unsupported audio'') (\<lambda>_.
       bind_res (voice_duration env mode raw) (\<lambda>duration.
       case raw of
         MBin bs \<Rightarrow> Inr (Audio (b64encode bs) duration (if mode = cx_opus env then None else Some mode))
       | _ \<Rightarrow> Inl ''Invalid audio size''))
   | _ \<Rightarrow> Inl ''Unsupported audio'')"

definition parse_fields :: "codec_env \<Rightarrow> (mval \<times> mval) list \<Rightarrow> string \<Rightarrow> body cres" where
  "parse_fields env fs text = (case fs of
     [] \<Rightarrow> Inr Text
   | [(k, v)] \<Rightarrow>
       if num_key (cx_custom env) k then parse_custom v text
       else if num_key (cx_audio env) k then parse_audio env v text
       else Inl ''Unsupported fields''
   | _ \<Rightarrow> Inl ''Unsupported fields'')"

definition fields_for :: "codec_env \<Rightarrow> body \<Rightarrow> (mval \<times> mval) list cres" where
  "fields_for env b = (case b of
     Text \<Rightarrow> Inr []
   | Service n \<Rightarrow> Inr [(MInt (cx_custom env), MMap [(MStr ''fc'', MInt 1), (MStr ''type'', MStr ''service''), (MStr ''event'', notice_value n)])]
   | Stored target \<Rightarrow> Inr [(MInt (cx_custom env), MMap [(MStr ''fc'', MInt 1), (MStr ''type'', MStr ''stored''), (MStr ''target'', MStr target)])]
   | Edit target revision \<Rightarrow>
       Inr [(MInt (cx_custom env), MMap [(MStr ''fc'', MInt 1), (MStr ''type'', MStr ''edit''), (MStr ''target'', MStr target), (MStr ''revision'', MInt revision)])]
   | Audio b64 duration mode \<Rightarrow>
       (case b64decode b64 of
          None \<Rightarrow> Inl ''binascii.Error''
        | Some bs \<Rightarrow> Inr [(MInt (cx_audio env), MList [MInt (case mode of None \<Rightarrow> cx_opus env | Some m \<Rightarrow> m), MBin bs])]))"

section \<open>Packing\<close>

definition max_text :: nat where "max_text = 4096"
definition max_packed :: nat where "max_packed = 131584"

definition pack :: "codec_env \<Rightarrow> string \<Rightarrow> string \<Rightarrow> string \<Rightarrow> (mval \<times> mval) list \<Rightarrow> string cres" where
  "pack env sender recipient text fs =
     bind_res (check (length text \<le> max_text \<and> \<not> (text = [] \<and> fs = [])) ''Text must contain 1..4096 UTF-8 bytes'') (\<lambda>_.
     bind_res (check (length recipient = 64) ''Invalid contact public key'') (\<lambda>_.
     Inr (cx_pack env sender recipient text fs)))"

text \<open>The payload: timestamp, empty title, text and fields.\<close>

definition parse_payload :: "codec_env \<Rightarrow> string \<Rightarrow> (string \<times> real \<times> body) cres" where
  "parse_payload env payload = (case cx_unpackb env payload of
     Some (MList [timestamp, MBin [], MBin content, MMap fs]) \<Rightarrow>
       bind_res (case timestamp of MInt i \<Rightarrow> Inr (of_int i) | MFloat x \<Rightarrow> Inr x | _ \<Rightarrow> Inl []) (\<lambda>t.
       bind_res (check (0 \<le> t \<and> length content \<le> max_text \<and> \<not> (content = [] \<and> fs = []) \<and> utf8_decode content \<noteq> None) []) (\<lambda>_.
       bind_res (parse_fields env fs content) (\<lambda>b. Inr (content, t, b))))
   | _ \<Rightarrow> Inl [])"

definition unpack :: "codec_env \<Rightarrow> string \<Rightarrow> string \<Rightarrow> (string \<times> string) list \<Rightarrow> message cres" where
  "unpack env raw recipient contacts =
     bind_res (check (96 < length raw \<and> length raw \<le> max_packed) ''Invalid message size'') (\<lambda>_.
     let target = slice 0 16 raw; source = slice 16 32 raw; signature = slice 32 96 raw; payload = drop 96 raw in
     bind_res (check (length recipient = 64) ''Invalid contact public key'') (\<lambda>_.
     case map_of contacts source of
       None \<Rightarrow> Inl ''Wrong recipient or unknown contact''
     | Some public \<Rightarrow>
         bind_res (check (target = cx_address env recipient) ''Wrong recipient or unknown contact'') (\<lambda>_.
         bind_res (check (length public = 64) ''Invalid contact public key'') (\<lambda>_.
         bind_res (check (cx_address env public = source) ''Contact address mismatch'') (\<lambda>_.
         let hashed = target @ source @ payload; message_id = cx_sha256 env hashed in
         bind_res (check (cx_validate env public signature (hashed @ message_id)) ''Invalid message signature'') (\<lambda>_.
         bind_res (map_err (\<lambda>_. ''Unsupported LXMF text payload'') (parse_payload env payload)) (\<lambda>(text, t, b).
         Inr \<lparr>m_id = bytes_hex message_id, m_peer = bytes_hex source, m_text = text, m_time = t, m_body = b\<rparr>)))))))"

end
