(* ===== verification/Chat_Codec_Props.thy ===== *)
theory Chat_Codec_Props
  imports Chat_Codec
begin

text \<open>
  What the codec guarantees: the fields of a message survive being sent again, voice is bounded, and finalising a recording
  is idempotent.
\<close>

section \<open>Fields\<close>

lemma mstr_satE: "mstr_sat p v \<Longrightarrow> \<exists>s. v = MStr s \<and> p s"
  by (cases v) simp_all

lemma mint_inE: "mint_in lo hi v \<Longrightarrow> \<exists>i. v = MInt i \<and> lo \<le> i \<and> i \<le> hi"
  by (cases v) simp_all

lemma strings_of_list: "list_all (mstr_sat p) ps \<Longrightarrow> map MStr (map the_str ps) = ps"
  by (induction ps) (auto dest: mstr_satE)

lemma mget_notice:
  "mget [(MStr ''event_id'', a), (MStr ''revision'', b), (MStr ''kind'', c), (MStr ''title'', d), (MStr ''body'', e), (MStr ''created'', f),
     (MStr ''expires'', g), (MStr ''platforms'', h), (MStr ''min_version'', i), (MStr ''max_version'', j)] n =
   (if n = ''event_id'' then a else if n = ''revision'' then b else if n = ''kind'' then c else if n = ''title'' then d
    else if n = ''body'' then e else if n = ''created'' then f else if n = ''expires'' then g else if n = ''platforms'' then h
    else if n = ''min_version'' then i else if n = ''max_version'' then j else MNil)"
  by (simp add: mget_def)

definition notice_ok :: "notice \<Rightarrow> bool" where
  "notice_ok n \<longleftrightarrow> fullmatch is_hex 32 32 (no_id n) \<and> 1 \<le> no_revision n \<and> no_revision n \<le> 1000000 \<and> no_kind n \<in> set notice_kinds \<and>
     service_text 160 (no_title n) \<and> service_text 4000 (no_body n) \<and> 0 < no_created n \<and> no_created n < no_expires n \<and>
     no_expires n \<le> no_created n + 30 * 86400 \<and> no_platforms n \<noteq> [] \<and> length (no_platforms n) \<le> 3 \<and>
     set (no_platforms n) \<subseteq> set platforms \<and> distinct (no_platforms n) \<and> 0 \<le> no_min n \<and> no_min n \<le> 2147483647 \<and>
     0 \<le> no_max n \<and> no_max n \<le> 2147483647 \<and> no_min n \<le> no_max n"

lemma validate_notice_value: "notice_ok n \<Longrightarrow> validate_notice (notice_value n) = Inr n"
proof -
  assume ok: "notice_ok n"
  have "distinct (map MStr (no_platforms n))" using ok by (simp add: notice_ok_def distinct_map inj_on_def)
  moreover have "list_all (mstr_sat (\<lambda>s. s \<in> set platforms)) (map MStr (no_platforms n))"
    using ok by (auto simp: notice_ok_def list_all_iff)
  moreover have "map (the_str \<circ> MStr) (no_platforms n) = no_platforms n" by (induction "no_platforms n") simp_all
  ultimately show ?thesis
    using ok unfolding notice_ok_def validate_notice_def notice_value_def by (simp add: mget_notice mkeys_def notice_names_def)
qed

lemma validate_notice_ok:
  assumes "validate_notice e = Inr n"
  shows "notice_ok n"
proof (cases e)
  case (MMap kvs)
  let ?g = "mget kvs"
  from assms MMap have v: "mstr_sat (fullmatch is_hex 32 32) (?g ''event_id'')" "mint_in 1 1000000 (?g ''revision'')"
    "mstr_sat (\<lambda>s. s \<in> set notice_kinds) (?g ''kind'')" "mstr_sat (service_text 160) (?g ''title'')" "mstr_sat (service_text 4000) (?g ''body'')"
    "case (?g ''created'', ?g ''expires'') of (MInt c, MInt x) \<Rightarrow> 0 < c \<and> c < x \<and> x \<le> c + 30 * 86400 | _ \<Rightarrow> False"
    "case ?g ''platforms'' of MList ps \<Rightarrow> ps \<noteq> [] \<and> length ps \<le> 3 \<and> list_all (mstr_sat (\<lambda>s. s \<in> set platforms)) ps \<and> distinct ps | _ \<Rightarrow> False"
    "mint_in 0 2147483647 (?g ''min_version'')" "mint_in 0 2147483647 (?g ''max_version'')"
    "the_int (?g ''min_version'') \<le> the_int (?g ''max_version'')"
    and n: "n = \<lparr>no_id = the_str (?g ''event_id''), no_revision = the_int (?g ''revision''), no_kind = the_str (?g ''kind''),
         no_title = the_str (?g ''title''), no_body = the_str (?g ''body''), no_created = the_int (?g ''created''),
         no_expires = the_int (?g ''expires''), no_platforms = map the_str (the_list (?g ''platforms'')),
         no_min = the_int (?g ''min_version''), no_max = the_int (?g ''max_version'')\<rparr>"
    by (simp_all add: validate_notice_def)
  obtain c x where cx: "?g ''created'' = MInt c" "?g ''expires'' = MInt x" "0 < c \<and> c < x \<and> x \<le> c + 30 * 86400"
    using v(6) by (simp split: mval.split_asm)
  obtain ps where ps: "?g ''platforms'' = MList ps" "ps \<noteq> []" "length ps \<le> 3" "list_all (mstr_sat (\<lambda>s. s \<in> set platforms)) ps" "distinct ps"
    using v(7) by (simp split: mval.split_asm)
  have d: "distinct (map the_str ps)" using strings_of_list [OF ps(4)] ps(5) by (metis distinct_map)
  have s: "set (map the_str ps) \<subseteq> set platforms" using ps(4) by (auto simp: list_all_iff dest!: bspec mstr_satE)
  obtain i r k t b lo hi where g: "?g ''event_id'' = MStr i" "fullmatch is_hex 32 32 i" "?g ''revision'' = MInt r" "1 \<le> r \<and> r \<le> 1000000"
    "?g ''kind'' = MStr k" "k \<in> set notice_kinds" "?g ''title'' = MStr t" "service_text 160 t" "?g ''body'' = MStr b" "service_text 4000 b"
    "?g ''min_version'' = MInt lo" "0 \<le> lo \<and> lo \<le> 2147483647" "?g ''max_version'' = MInt hi" "0 \<le> hi \<and> hi \<le> 2147483647"
    using mint_inE [OF v(2)] mint_inE [OF v(8)] mint_inE [OF v(9)] mstr_satE [OF v(1)] mstr_satE [OF v(3)] mstr_satE [OF v(4)] mstr_satE [OF v(5)]
    by metis
  show ?thesis
    unfolding notice_ok_def n using g cx ps(1-3) d s v(10) by simp
qed (use assms in \<open>simp_all add: validate_notice_def\<close>)

definition body_ok :: "codec_env \<Rightarrow> string \<Rightarrow> body \<Rightarrow> bool" where
  "body_ok env text b = (case b of
     Text \<Rightarrow> True
   | Edit target revision \<Rightarrow> message_ref target \<and> 1 \<le> revision \<and> revision \<le> 1000000 \<and> text \<noteq> []
   | Stored target \<Rightarrow> message_ref target \<and> text = []
   | Service n \<Rightarrow> notice_ok n \<and> text = []
   | Audio b64 duration mode \<Rightarrow> text = [] \<and> (\<exists>bs. b64 = b64encode bs \<and> mode \<noteq> Some (cx_opus env) \<and>
       voice_duration env (case mode of None \<Rightarrow> cx_opus env | Some m \<Rightarrow> m) (MBin bs) = Inr duration))"

lemma parse_custom_ok:
  assumes p: "parse_custom v text = Inr b"
  shows "body_ok env text b"
proof (cases v)
  case (MMap e)
  consider (service) "mget e ''type'' = MStr ''service''" | (stored) "mget e ''type'' = MStr ''stored''"
    | (edit) "mget e ''type'' \<notin> {MStr ''service'', MStr ''stored''}" by blast
  then show ?thesis
  proof cases
    case service
    with p MMap obtain n where "validate_notice (mget e ''event'') = Inr n" "b = Service n" "text = []"
      by (simp add: parse_custom_def) blast
    then show ?thesis by (simp add: body_ok_def validate_notice_ok)
  next
    case stored
    with p MMap have "mstr_sat message_ref (mget e ''target'')" "b = Stored (the_str (mget e ''target''))" "text = []"
      by (simp_all add: parse_custom_def)
    with mstr_satE [OF this(1)] show ?thesis by (auto simp: body_ok_def)
  next
    case edit
    with p MMap have "mstr_sat message_ref (mget e ''target'')" "mint_in 1 1000000 (mget e ''revision'')" "text \<noteq> []"
      "b = Edit (the_str (mget e ''target'')) (the_int (mget e ''revision''))"
      by (simp_all add: parse_custom_def)
    with mstr_satE [OF this(1)] mint_inE [OF this(2)] show ?thesis by (auto simp: body_ok_def)
  qed
qed (use p in \<open>simp_all add: parse_custom_def\<close>)

lemma parse_audio_ok:
  assumes "parse_audio env v text = Inr b"
  shows "body_ok env text b"
proof -
  obtain mode raw where v: "v = MList [MInt mode, raw]"
    using assms unfolding parse_audio_def by (simp split: mval.split_asm list.split_asm)
  with assms obtain bs where "raw = MBin bs" by (cases raw) (auto simp: parse_audio_def)
  with assms v show ?thesis by (auto simp: parse_audio_def body_ok_def split: if_split_asm)
qed

lemma parse_fields_ok: "parse_fields env fs text = Inr b \<Longrightarrow> body_ok env text b"
  unfolding parse_fields_def
  by (auto split: list.split_asm if_split_asm dest: parse_custom_ok parse_audio_ok) (simp add: body_ok_def)

lemma mget_custom [simp]:
  "mget [(MStr ''fc'', a), (MStr ''type'', b), (MStr k, c)] n = (if n = ''fc'' then a else if n = ''type'' then b else if n = k then c else MNil)"
  "mget [(MStr ''fc'', a), (MStr ''type'', b), (MStr k, c), (MStr l, d)] n =
     (if n = ''fc'' then a else if n = ''type'' then b else if n = k then c else if n = l then d else MNil)"
  by (simp_all add: mget_def)

lemma parse_fields_for:
  assumes ok: "body_ok env text b" and apart: "cx_custom env \<noteq> cx_audio env"
  shows "\<exists>fs. fields_for env b = Inr fs \<and> parse_fields env fs text = Inr b"
proof (cases b)
  case Text
  then show ?thesis by (simp add: fields_for_def parse_fields_def)
next
  case (Edit target revision)
  with ok show ?thesis by (simp add: fields_for_def parse_fields_def parse_custom_def body_ok_def mkeys_def)
next
  case (Stored target)
  with ok show ?thesis by (simp add: fields_for_def parse_fields_def parse_custom_def body_ok_def mkeys_def)
next
  case (Service n)
  with ok show ?thesis by (simp add: fields_for_def parse_fields_def parse_custom_def body_ok_def mkeys_def validate_notice_value)
next
  case (Audio b64 duration mode)
  with ok apart show ?thesis
    by (cases mode) (auto simp: fields_for_def parse_fields_def parse_audio_def body_ok_def b64decode_encode)
qed

text \<open>C23. The fields of a received message can be sent again: \<open>fields_for\<close> rebuilds fields that parse to the same message, for
  every kind of message and every text that \<open>parse_fields\<close> accepted.\<close>

theorem fields_round_trip:
  assumes "parse_fields env fs text = Inr b" "cx_custom env \<noteq> cx_audio env"
  shows "\<exists>fs'. fields_for env b = Inr fs' \<and> parse_fields env fs' text = Inr b"
  using parse_fields_ok [OF assms(1)] assms(2) by (rule parse_fields_for)

section \<open>Durations\<close>

lemma round_even_close: "\<bar>of_int (round_even x) - x\<bar> \<le> 1 / 2"
  unfolding round_even_def Let_def by (smt (verit) floor_correct of_int_1 of_int_add field_sum_of_halves)

lemma last_place_pos: "0 < u \<Longrightarrow> 0 < last_place k x u"
  by (induction k x u rule: last_place.induct) auto

lemma last_place_fine:
  "0 < u \<Longrightarrow> 2 ^ 52 \<le> x / u \<or> x / u < 2 ^ 53 \<and> 2 ^ 52 \<le> x / u * 2 ^ k \<Longrightarrow> 2 ^ 52 \<le> x / last_place k x u"
proof (induction k x u rule: last_place.induct)
  case (2 k x u)
  consider "2 ^ 53 \<le> x / u" | "x / u < 2 ^ 52" | "\<not> 2 ^ 53 \<le> x / u" "\<not> x / u < 2 ^ 52" by blast
  then show ?case
  proof cases
    case 1
    then have "2 ^ 52 \<le> x / (2 * u)" by (simp add: field_simps)
    with "2.IH"(1) [OF 1] "2.prems"(1) 1 show ?thesis by simp
  next
    case 2
    have half: "x / (u / 2) = 2 * (x / u)" by simp
    have "2 * (x / u) < 2 * 2 ^ 52" by (rule mult_strict_left_mono [OF 2]) simp
    then have "x / (u / 2) < 2 ^ 53" unfolding half by simp
    moreover have "2 ^ 52 \<le> x / (u / 2) * 2 ^ k" using "2.prems"(2) 2 unfolding half by (auto simp: algebra_simps)
    ultimately have "x / (u / 2) < 2 ^ 53" "2 ^ 52 \<le> x / (u / 2) * 2 ^ k" by blast+
    with "2.IH"(2) [OF _ 2] "2.prems"(1) 2 show ?thesis by simp
  qed simp
qed auto

lemma double_close:
  assumes "1 / 2 ^ 76 \<le> \<bar>x\<bar>"
  shows "\<bar>double x - x\<bar> \<le> \<bar>x\<bar> / 2 ^ 53"
proof -
  define u where "u = last_place 128 \<bar>x\<bar> 1"
  have u: "0 < u" unfolding u_def by (rule last_place_pos) simp
  have "2 ^ 52 \<le> \<bar>x\<bar> / 1 \<or> \<bar>x\<bar> / 1 < 2 ^ 53 \<and> 2 ^ 52 \<le> \<bar>x\<bar> / 1 * 2 ^ 128"
    using assms by (simp add: field_simps) linarith
  then have "2 ^ 52 \<le> \<bar>x\<bar> / u" unfolding u_def by (rule last_place_fine [OF zero_less_one])
  then have ux: "u * 2 ^ 52 \<le> \<bar>x\<bar>" using u by (simp add: field_simps)
  have x: "x \<noteq> 0" using assms by auto
  then have "double x - x = (of_int (round_even (x / u)) - x / u) * u"
    using u by (simp add: double_def Let_def u_def [symmetric] left_diff_distrib)
  then have "\<bar>double x - x\<bar> = \<bar>of_int (round_even (x / u)) - x / u\<bar> * u" using u by (simp add: abs_mult)
  also have "\<dots> \<le> 1 / 2 * u" using round_even_close u by (intro mult_right_mono) auto
  also have "\<dots> \<le> \<bar>x\<bar> / 2 ^ 53" using ux by simp
  finally show ?thesis .
qed

lemma double_nonpos: "x \<le> 0 \<Longrightarrow> double x \<le> 0"
proof -
  assume x: "x \<le> 0"
  define u where "u = last_place 128 \<bar>x\<bar> 1"
  have u: "0 < u" unfolding u_def by (rule last_place_pos) simp
  have "x / u \<le> 0" using x u by (simp add: divide_nonpos_pos)
  with round_even_close [of "x / u"] have "round_even (x / u) \<le> 0" by linarith
  with u show ?thesis by (simp add: double_def Let_def u_def [symmetric] mult_nonpos_nonneg)
qed

lemma opus_duration_bounds:
  assumes "opus_duration raw = Inr d"
  shows "0 \<le> d \<and> d \<le> 61000"
proof -
  obtain a b :: nat where t: "0 < double ((real a - real b) / 48000)" "double ((real a - real b) / 48000) \<le> 61"
    "d = round_even (double (double ((real a - real b) / 48000) * 1000))"
    using assms by (auto simp: opus_duration_def Let_def)
  define y where "y = (real a - real b) / 48000"
  have "0 < y" using t(1) double_nonpos [of y] by (fold y_def) linarith
  then have "1 \<le> real a - real b" by (simp add: y_def)
  then have y: "1 / 48000 \<le> y" by (simp add: y_def)
  have "\<bar>double y - y\<bar> \<le> y / 2 ^ 53" using double_close [of y] y by simp
  moreover have "y / 2 ^ 53 \<le> y / 2" using y by (intro divide_left_mono) simp_all
  ultimately have "y / 2 \<le> double y" by linarith
  with y t(2) have z: "1 / 96 \<le> double y * 1000" "double y * 1000 \<le> 61000" by (fold y_def) simp_all
  define z where "z = double y * 1000"
  have "\<bar>double z - z\<bar> \<le> z / 2 ^ 53" using double_close [of z] z by (simp add: z_def)
  moreover have "z / 2 ^ 53 \<le> 61000 / 2 ^ 53" using z(2) unfolding z_def by (intro divide_right_mono) simp_all
  moreover have "(61000 :: real) / 2 ^ 53 < 1 / 4" by simp
  ultimately have "\<bar>double z - z\<bar> < 1 / 4" by linarith
  then have "- (1 / 4) < double z" "double z < 61000 + 1 / 4" using z unfolding z_def by linarith+
  moreover have "d = round_even (double z)" using t(3) by (simp add: y_def z_def)
  ultimately have "- 1 < real_of_int d" "real_of_int d < 61001" using round_even_close [of "double z"] by linarith+
  then show ?thesis by linarith
qed

lemma radio_duration_bounds:
  "radio_duration env raw mode = Inr d \<Longrightarrow> 0 < d \<and> d \<le> 60000"
proof -
  assume r: "radio_duration env raw mode = Inr d"
  then obtain size' millis bs where m: "map_of (radio_frames env) mode = Some (size', millis)" and raw: "raw = MBin bs"
    by (cases raw; cases "map_of (radio_frames env) mode") (auto simp: radio_duration_def)
  have f: "0 < size'" "0 < millis" using m by (auto simp: radio_frames_def split: if_split_asm)
  have b: "bs \<noteq> []" "length bs mod size' = 0" "d = int (length bs div size') * millis" "d \<le> 60000"
    using r m raw by (auto simp: radio_duration_def)
  have "length bs div size' \<noteq> 0" using b(1,2) f(1) by (auto simp: div_eq_0_iff mod_less)
  with b f show ?thesis by simp
qed

text \<open>C24. Accepted voice is short: at most 61 seconds of Opus or 60 seconds of Codec2, whatever lengths, page headers and granule
  positions the sender wrote, and it carries no text.\<close>

theorem voice_is_bounded:
  assumes "parse_fields env fs text = Inr (Audio b64 duration mode)"
  shows "0 \<le> duration \<and> duration \<le> (if mode = None then 61000 else 60000) \<and> text = [] \<and> (\<exists>bs. b64decode b64 = Some bs)"
proof -
  obtain bs where t: "text = []" and bs: "b64 = b64encode bs" "mode \<noteq> Some (cx_opus env)"
    "voice_duration env (case mode of None \<Rightarrow> cx_opus env | Some m \<Rightarrow> m) (MBin bs) = Inr duration"
    using parse_fields_ok [OF assms] by (auto simp: body_ok_def)
  have "0 \<le> duration \<and> duration \<le> (if mode = None then 61000 else 60000)"
  proof (cases mode)
    case None
    with bs(3) opus_duration_bounds show ?thesis by (simp add: voice_duration_def)
  next
    case (Some m)
    with bs(2,3) have "radio_duration env (MBin bs) m = Inr duration" by (simp add: voice_duration_def)
    with radio_duration_bounds [OF this] Some show ?thesis by simp
  qed
  with t bs(1) show ?thesis by (simp add: b64decode_encode)
qed

section \<open>Finalised recordings\<close>

lemma slice_prefix:
  assumes "take e r = take e raw" "b \<le> e"
  shows "slice a b r = slice a b raw"
proof (cases "a \<le> b")
  case True
  have "take b r = take b raw" using assms by (metis min.absorb1 take_take)
  with True show ?thesis by (simp add: slice_def take_drop)
qed (simp add: slice_def)

lemma nth_prefix: "take e r = take e raw \<Longrightarrow> i < e \<Longrightarrow> r ! i = raw ! i"
  by (metis nth_take)

lemma checked_page_prefix:
  assumes "checked_page raw offset = Inr (h, e)" "take e r = take e raw" "length r = length raw"
  shows "checked_page r offset = Inr (h, e)"
proof -
  have b: "offset + 27 \<le> h" "h \<le> e" using page_bounds_Inr [OF checked_page_bounds [OF assms(1)]] by auto
  have "r ! (offset + 26) = raw ! (offset + 26)" "r ! (offset + 5) = raw ! (offset + 5)"
    using b by (auto intro!: nth_prefix [OF assms(2)])
  moreover have "slice offset (offset + 5) r = slice offset (offset + 5) raw" "slice (offset + 27) h r = slice (offset + 27) h raw"
    "slice offset e r = slice offset e raw"
    using b by (auto intro!: slice_prefix [OF assms(2)])
  ultimately show ?thesis using assms(1,3) unfolding checked_page_def page_bounds_def by (auto simp: Let_def)
qed

lemma scan_last:
  "scan_pages raw offset found = Inr (Some (lo, h)) \<Longrightarrow> offset < length raw \<Longrightarrow>
     offset \<le> lo \<and> lo < length raw \<and> checked_page raw lo = Inr (h, length raw)"
proof (induction raw offset found rule: scan_pages.induct)
  case (1 raw offset found)
  from "1.prems" obtain h' e where p: "checked_page raw offset = Inr (h', e)"
    and rest: "scan_pages raw e (Some (offset, h')) = Inr (Some (lo, h))"
    by (auto simp: scan_pages.simps [of raw offset])
  have e: "offset < e" "e \<le> length raw" using page_bounds_Inr [OF checked_page_bounds [OF p]] by auto
  show ?case
  proof (cases "e = length raw")
    case True
    with rest have "lo = offset \<and> h = h'" by (simp add: scan_pages.simps)
    with p True "1.prems"(2) show ?thesis by simp
  next
    case False
    with "1.IH" [OF _ p refl rest] "1.prems"(2) e show ?thesis by simp
  qed
qed

lemma scan_change:
  "scan_pages raw offset found = Inr (Some (lo, h)) \<Longrightarrow> offset < length raw \<Longrightarrow> length r = length raw \<Longrightarrow> take lo r = take lo raw \<Longrightarrow>
     checked_page r lo = Inr (h, length raw) \<Longrightarrow> scan_pages r offset found = Inr (Some (lo, h))"
proof (induction raw offset found rule: scan_pages.induct)
  case (1 raw offset found)
  from "1.prems"(1,2) obtain h' e where p: "checked_page raw offset = Inr (h', e)"
    and rest: "scan_pages raw e (Some (offset, h')) = Inr (Some (lo, h))"
    by (auto simp: scan_pages.simps [of raw offset])
  have e: "e \<le> length raw" using page_bounds_Inr [OF checked_page_bounds [OF p]] by auto
  show ?case
  proof (cases "e = length raw")
    case True
    with rest have "lo = offset" "h = h'" by (simp_all add: scan_pages.simps)
    with "1.prems"(2-5) True show ?thesis by (simp add: scan_pages.simps [of r offset] scan_pages.simps [of r "length raw"])
  next
    case False
    with e have "e < length raw" by simp
    with scan_last [OF rest] have "e \<le> lo" by simp
    then have "take e r = take e raw" using "1.prems"(4) by (metis min.absorb1 take_take)
    with checked_page_prefix [OF p] "1.prems"(3) have "checked_page r offset = Inr (h', e)" by simp
    with "1.IH" [OF _ p refl rest \<open>e < length raw\<close> "1.prems"(3-5)] "1.prems"(2,3) show ?thesis
      by (simp add: scan_pages.simps [of r offset])
  qed
qed

lemma length_clear_crc: "27 \<le> length p \<Longrightarrow> length (clear_crc p) = length p"
  by (simp add: clear_crc_def)

text \<open>What closing a page changes: byte 5 and the four bytes of the checksum.\<close>

lemma close_page_facts:
  assumes "27 \<le> length p"
  defines "q \<equiv> close_page p"
  shows "length q = length p" "take 5 q = take 5 p" "drop 26 q = drop 26 p" "last_flag (q ! 5)"
    "unat (ogg_crc (clear_crc q)) = le_int (slice 22 26 q)"
proof -
  define f where "f = p[5 := byte_char (byte_of (p ! 5) OR 4)]"
  let ?crc = "le_bytes 4 (unat (ogg_crc (clear_crc f)))"
  have lf: "length f = length p" by (simp add: f_def)
  have c: "take 22 (clear_crc f) = take 22 f" "drop 26 (clear_crc f) = drop 26 f" using assms(1) lf by (simp_all add: clear_crc_def)
  have q: "q = take 22 f @ ?crc @ drop 26 f" unfolding q_def close_page_def Let_def f_def [symmetric] c ..
  show "length q = length p" using assms(1) lf by (simp add: q)
  show "take 5 q = take 5 p" using assms(1) by (simp add: q f_def)
  show "drop 26 q = drop 26 p" using assms(1) lf by (simp add: q f_def)
  have "q ! 5 = byte_char (byte_of (p ! 5) OR 4)" using assms(1) lf by (simp add: q nth_append f_def)
  moreover have "byte_of (byte_char m) = take_bit 8 m" for m by (simp add: take_bit_eq_mod)
  ultimately show "last_flag (q ! 5)" by (simp add: last_flag_def bit_take_bit_iff bit_or_iff bit_0)
  have "clear_crc q = clear_crc f" using assms(1) lf by (simp add: q clear_crc_def)
  moreover have "slice 22 26 q = ?crc" using assms(1) lf by (simp add: q slice_def)
  moreover have "unat (ogg_crc (clear_crc f)) < 256 ^ 4" using unsigned_less [of "ogg_crc (clear_crc f)"] by simp
  ultimately show "unat (ogg_crc (clear_crc q)) = le_int (slice 22 26 q)" by (simp add: le_int_bytes)
qed

lemma closed_page_checked:
  assumes p: "checked_page raw lo = Inr (h, length raw)"
  defines "r \<equiv> take lo raw @ close_page (drop lo raw)"
  shows "checked_page r lo = Inr (h, length raw)" "length r = length raw" "last_flag (r ! (lo + 5))" "r ! (h - 1) = raw ! (h - 1)"
proof -
  have pb: "page_bounds raw lo True = Inr (h, length raw)" by (rule checked_page_bounds [OF p])
  have b: "lo + 27 \<le> h" "h \<le> length raw" using page_bounds_Inr [OF pb] by auto
  have h: "h = lo + 27 + byte_of (raw ! (lo + 26))" "byte_of (raw ! (lo + 26)) \<noteq> 0" using pb by (auto simp: page_bounds_def Let_def)
  let ?P = "drop lo raw" and ?Q = "close_page (drop lo raw)"
  have P: "27 \<le> length ?P" using b by simp
  note Q = close_page_facts [OF P]
  have lo: "lo \<le> length raw" using b by simp
  show len: "length r = length raw" using Q(1) lo by (simp add: r_def)
  have at: "r ! (lo + i) = ?Q ! i" for i using lo by (simp add: r_def nth_append)
  have dr: "drop lo r = ?Q" using lo by (simp add: r_def)
  have sl: "slice (lo + a) (lo + b) r = slice a b ?Q" for a b
  proof -
    have "drop (lo + a) r = drop a ?Q" using dr by (metis add.commute drop_drop)
    then show ?thesis by (simp add: slice_def)
  qed
  have late: "?Q ! i = raw ! (lo + i)" if "26 \<le> i" "lo + i < length raw" for i
  proof -
    have "?Q ! i = drop 26 ?Q ! (i - 26)" using that Q(1) by simp
    also have "\<dots> = drop 26 ?P ! (i - 26)" by (simp only: Q(3))
    also have "\<dots> = raw ! (lo + i)" using that by (simp add: add.commute)
    finally show ?thesis .
  qed
  show "last_flag (r ! (lo + 5))" unfolding at by (rule Q(4))
  define i where "i = h - 1 - lo"
  then have i: "h - 1 = lo + i" "26 \<le> i" "lo + i < length raw" using b by linarith+
  show "r ! (h - 1) = raw ! (h - 1)" unfolding i(1) at using late [OF i(2,3)] .
  have s5: "slice lo (lo + 5) r = slice lo (lo + 5) raw"
    using sl [of 0 5] Q(2) by (simp add: slice_def)
  have s27: "slice (lo + 27) h r = slice (lo + 27) h raw"
  proof -
    have "drop (lo + 27) r = drop 27 ?Q" using dr by (metis add.commute drop_drop)
    also have "\<dots> = drop 1 (drop 26 ?Q)" by simp
    also have "\<dots> = drop (lo + 27) raw" unfolding Q(3) by (simp add: add.commute)
    finally show ?thesis by (simp add: slice_def)
  qed
  have c26: "r ! (lo + 26) = raw ! (lo + 26)" using at [of 26] late [of 26] b by simp
  have pb': "page_bounds r lo True = Inr (h, length raw)"
    using pb unfolding page_bounds_def len s5 c26 Let_def by (auto simp: s27 [unfolded h(1)])
  have "slice lo (length raw) r = ?Q" using len dr by (simp add: slice_def Q(1))
  then show "checked_page r lo = Inr (h, length raw)"
    unfolding checked_page_def pb' using Q(5) len by (simp add: Let_def)
qed

text \<open>C25. Finalising is idempotent: a recording that was finalised, its last page flagged and its checksum written, is accepted
  again and left as it is.\<close>

theorem finalize_idempotent:
  "bind_res (finalize_recorded_opus raw) finalize_recorded_opus = finalize_recorded_opus raw"
proof (cases "finalize_recorded_opus raw")
  case (Inr r)
  then obtain lo h d where size': "64 \<le> length raw" "length raw \<le> max_audio" and scan: "scan_pages raw 0 None = Inr (Some (lo, h))"
    and full: "byte_of (raw ! (h - 1)) \<noteq> 255" and d: "opus_duration r = Inr d"
    and r: "r = (if last_flag (raw ! (lo + 5)) then raw else take lo raw @ close_page (drop lo raw))"
    by (auto simp: finalize_recorded_opus_def Let_def split: option.split_asm)
  show ?thesis
  proof (cases "last_flag (raw ! (lo + 5))")
    case True
    with r Inr show ?thesis by simp
  next
    case False
    with r have r: "r = take lo raw @ close_page (drop lo raw)" by simp
    have "0 < length raw" using size' by linarith
    note last = scan_last [OF scan this]
    then have "checked_page raw lo = Inr (h, length raw)" by simp
    note c = closed_page_checked [OF this, folded r]
    have "take lo r = take lo raw" using last by (simp add: r)
    with scan_change [OF scan \<open>0 < length raw\<close> c(2) _ c(1)] have "scan_pages r 0 None = Inr (Some (lo, h))" by simp
    with size' full c d have "finalize_recorded_opus r = Inr r" by (simp add: finalize_recorded_opus_def Let_def)
    with Inr show ?thesis by simp
  qed
qed simp

section \<open>A voice message\<close>

definition demo_codec :: codec_env where
  "demo_codec = \<lparr>cx_custom = 1, cx_audio = 2, cx_opus = 9, cx_codec2_1600 = 3, cx_codec2_2400 = 4, cx_codec2_3200 = 5,
     cx_sha256 = (\<lambda>s. take 32 (drop 96 s @ s)), cx_address = take 16, cx_validate = (\<lambda>public signature text. True), cx_unpackb = (\<lambda>_. None),
     cx_pack = (\<lambda>sender recipient text fs. [])\<rparr>"

definition demo_voice :: "(mval \<times> mval) list" where
  "demo_voice = [(MInt 2, MList [MInt 3, MBin ''12345678''])]"

lemma demo_voice_parses: "parse_fields demo_codec demo_voice [] = Inr (Audio ''MTIzNDU2Nzg='' 40 (Some 3))"
  by code_simp

theorem fields_round_trip_witness:
  "\<exists>fs. fields_for demo_codec (Audio ''MTIzNDU2Nzg='' 40 (Some 3)) = Inr fs \<and> parse_fields demo_codec fs [] = Inr (Audio ''MTIzNDU2Nzg='' 40 (Some 3))"
  by (rule fields_round_trip [OF demo_voice_parses]) (simp add: demo_codec_def)

theorem voice_is_bounded_witness:
  "parse_fields demo_codec demo_voice [] = Inr (Audio ''MTIzNDU2Nzg='' 40 (Some 3)) \<and> (\<exists>bs. b64decode ''MTIzNDU2Nzg='' = Some bs)"
  using voice_is_bounded [OF demo_voice_parses] demo_voice_parses by simp

end
