(* ===== verification/Chat_Subscription.thy ===== *)
theory Chat_Subscription
  imports Wire Transition_Systems
begin

text \<open>
  The display-only view of a subscription, \<open>messenger/subscription_view.py\<close>: strict decoding of a confirmed response, and the
  reducer that accepts it against the view stored before.  A response is the value \<open>json.loads\<close> returned; its numbers are integers.
\<close>

section \<open>Records\<close>

record snap =
  sp_device :: string
  sp_version :: int
  sp_event_id :: string
  sp_state :: string
  sp_start :: int
  sp_until :: int
  sp_updated :: int
  sp_grace :: "int option"
  sp_effective :: string
  sp_entitlement :: "int option"

record sub_event =
  se_id :: string
  se_type :: string
  se_occurred :: int
  se_previous :: "string option"

record sub_notice =
  su_id :: string
  su_event :: string
  su_created :: int
  su_read :: bool
  su_notified :: bool

text \<open>A view without a snapshot is that of a device outside the paid cohort.\<close>

record sub_view =
  sv_device :: string
  sv_snapshot :: "snap option"
  sv_confirmed :: int
  sv_event :: "sub_event option"
  sv_notice :: "sub_notice option"

section \<open>Decoding\<close>

type_synonym 'a sres = "(unit, 'a) res"

abbreviation demand :: "bool \<Rightarrow> unit sres" where
  "demand c \<equiv> check c ()"

definition max_instant :: int where "max_instant = 253402300799"

fun instant :: "json \<Rightarrow> int sres" where
  "instant (JInt i) = bind_res (demand (0 \<le> i \<and> i \<le> max_instant)) (\<lambda>_. Inr i)"
| "instant _ = Inl ()"

definition recipient_ok :: "string \<Rightarrow> bool" where
  "recipient_ok device \<longleftrightarrow> fullmatch is_hex 32 32 device"

definition sub_states :: "string list" where
  "sub_states = [''trial'', ''active'', ''grace'', ''expired'', ''revoked'']"

definition opt_json :: "int option \<Rightarrow> json" where
  "opt_json x = (case x of None \<Rightarrow> JNull | Some i \<Rightarrow> JInt i)"

definition jtext :: "json \<Rightarrow> string" where
  "jtext v = (case jstr v of None \<Rightarrow> [] | Some s \<Rightarrow> s)"

fun jnum :: "json \<Rightarrow> int" where
  "jnum (JInt i) = i"
| "jnum _ = 0"

text \<open>\<open>None\<close>, or an instant not before \<open>until\<close>\<close>

definition grace_of :: "json \<Rightarrow> int \<Rightarrow> int option sres" where
  "grace_of v until = (case v of
     JNull \<Rightarrow> Inr None
   | _ \<Rightarrow> bind_res (instant v) (\<lambda>g. bind_res (demand (until \<le> g)) (\<lambda>_. Inr (Some g))))"

definition boundary :: "string \<Rightarrow> int \<Rightarrow> int option \<Rightarrow> int option" where
  "boundary state until grace = (if state = ''grace'' then grace else Some until)"

text \<open>What the rights of a status say: until when it allows, or nothing.\<close>

definition entitlement_of :: "bool \<Rightarrow> string \<Rightarrow> string \<Rightarrow> int option \<Rightarrow> json \<Rightarrow> int option sres" where
  "entitlement_of allow effective state bound v =
     (if allow
      then bind_res (demand (effective \<in> {''trial'', ''active'', ''grace''})) (\<lambda>_.
           bind_res (demand (effective = state)) (\<lambda>_.
           bind_res (instant v) (\<lambda>e. bind_res (demand (Some e = bound)) (\<lambda>_. Inr (Some e)))))
      else bind_res (demand (effective \<in> {''expired'', ''revoked''} \<and> v = JNull)) (\<lambda>_. Inr None))"

definition sub_snapshot :: "json \<Rightarrow> string \<Rightarrow> snap sres" where
  "sub_snapshot status device =
     (let sub = the_field status ''subscription''; effective = the_field status ''effective_state''; state = the_field sub ''state'' in
      bind_res (demand (recipient_ok device)) (\<lambda>_.
      bind_res (demand (is_obj status \<and> the_field status ''schema'' = JInt 1)) (\<lambda>_.
      bind_res (demand (the_field status ''device'' = JStr device \<and> the_field status ''cohort'' = JBool True)) (\<lambda>_.
      bind_res (demand (is_obj sub \<and> the_field sub ''device'' = JStr device)) (\<lambda>_.
      bind_res (demand (jint_in 1 2147483647 (the_field sub ''version''))) (\<lambda>_.
      bind_res (demand (str_sat (fullmatch is_word_dash 8 128) (the_field sub ''last_event_id''))) (\<lambda>_.
      bind_res (demand (jstr_in (set sub_states) state \<and> jstr_in (set sub_states) effective)) (\<lambda>_.
      bind_res (demand (is_jbool (the_field status ''paid_allow''))) (\<lambda>_.
      bind_res (instant (the_field sub ''period_start'')) (\<lambda>start.
      bind_res (instant (the_field sub ''paid_until'')) (\<lambda>until.
      bind_res (instant (the_field sub ''updated_at'')) (\<lambda>updated.
      bind_res (demand (start < until)) (\<lambda>_.
      bind_res (grace_of (the_field sub ''grace_until'') until) (\<lambda>grace.
      bind_res (entitlement_of (the_field status ''paid_allow'' = JBool True) (jtext effective) (jtext state)
          (boundary (jtext state) until grace) (the_field status ''entitlement_until'')) (\<lambda>entitlement.
      Inr \<lparr>sp_device = device, sp_version = jnum (the_field sub ''version''), sp_event_id = jtext (the_field sub ''last_event_id''),
        sp_state = jtext state, sp_start = start, sp_until = until, sp_updated = updated, sp_grace = grace,
        sp_effective = jtext effective, sp_entitlement = entitlement\<rparr>)))))))))))))))"

definition event_state :: "string \<Rightarrow> string option" where
  "event_state kind = map_of [(''payment'', ''active''), (''grace'', ''grace''), (''expire'', ''expired''), (''revoke'', ''revoked'')] kind"

definition event_projection :: "json \<Rightarrow> snap \<Rightarrow> sub_event sres" where
  "event_projection event current =
     (let g = the_field event in
      bind_res (demand (is_obj event \<and> g ''result'' = JStr ''APPLIED'')) (\<lambda>_.
      bind_res (demand (g ''event_id'' = JStr (sp_event_id current) \<and> g ''device'' = JStr (sp_device current) \<and>
        g ''new_state'' = JStr (sp_state current) \<and> py_eq (g ''period_start'') (JInt (sp_start current)) \<and>
        py_eq (g ''paid_until'') (JInt (sp_until current)) \<and> py_eq (g ''grace_until'') (opt_json (sp_grace current)) \<and>
        py_eq (g ''applied_at'') (JInt (sp_updated current)))) (\<lambda>_.
      bind_res (instant (g ''occurred_at'')) (\<lambda>occurred.
      bind_res (demand (occurred = sp_updated current)) (\<lambda>_.
      case jstr (g ''event_type'') of
        None \<Rightarrow> Inl ()
      | Some kind \<Rightarrow>
          bind_res (demand (event_state kind = Some (sp_state current))) (\<lambda>_.
          bind_res (demand (jget event ''previous_state'' \<noteq> None \<and> (g ''previous_state'' = JNull \<or> jstr_in (set sub_states) (g ''previous_state'')))) (\<lambda>_.
          Inr \<lparr>se_id = sp_event_id current, se_type = kind, se_occurred = occurred, se_previous = jstr (g ''previous_state'')\<rparr>)))))))"

definition sub_fields :: "string list" where
  "sub_fields = [''state'', ''effective_state'', ''paid_allow'', ''period_start'', ''paid_until'', ''grace_until'', ''entitlement_until'', ''version'',
     ''last_event_id'', ''updated_at'']"

definition exact_fields :: "json \<Rightarrow> string list \<Rightarrow> bool" where
  "exact_fields v names \<longleftrightarrow> is_obj v \<and> jkeys v = set names"

text \<open>The status the reducer reads, rebuilt from the row of the response.\<close>

definition status_of :: "string \<Rightarrow> json \<Rightarrow> json" where
  "status_of device sub = JObj [(''schema'', JInt 1), (''device'', JStr device), (''cohort'', JBool True),
     (''effective_state'', the_field sub ''effective_state''), (''paid_allow'', the_field sub ''paid_allow''),
     (''entitlement_until'', the_field sub ''entitlement_until''),
     (''subscription'', JObj (map (\<lambda>n. (n, the_field sub n)) (filter (\<lambda>n. n \<notin> {''effective_state'', ''paid_allow'', ''entitlement_until''}) sub_fields)
        @ [(''device'', JStr device)]))]"

definition decode_event :: "string \<Rightarrow> snap \<Rightarrow> json \<Rightarrow> json sres" where
  "decode_event device current event =
     bind_res (demand (exact_fields event [''event_id'', ''event_type'', ''occurred_at'', ''previous_state'', ''new_state'', ''result''])) (\<lambda>_.
     let g = the_field event in
     bind_res (demand (jstr (g ''event_id'') \<noteq> None \<and> jstr (g ''event_type'') \<noteq> None \<and> jstr (g ''new_state'') \<noteq> None \<and> jstr (g ''result'') \<noteq> None \<and>
       (g ''previous_state'' = JNull \<or> jstr (g ''previous_state'') \<noteq> None))) (\<lambda>_.
     bind_res (instant (g ''occurred_at'')) (\<lambda>occurred.
     let full = JObj (map (\<lambda>n. (n, g n)) [''event_id'', ''event_type'', ''occurred_at'', ''previous_state'', ''new_state'', ''result''] @
       [(''device'', JStr device), (''period_start'', JInt (sp_start current)), (''paid_until'', JInt (sp_until current)),
        (''grace_until'', opt_json (sp_grace current)), (''applied_at'', JInt occurred)]) in
     bind_res (event_projection full current) (\<lambda>_. Inr full))))"

definition expected_state :: "snap \<Rightarrow> int \<Rightarrow> string" where
  "expected_state c observed =
     (case boundary (sp_state c) (sp_until c) (sp_grace c) of
        Some b \<Rightarrow> if sp_state c \<in> {''active'', ''trial'', ''grace''} \<and> b \<le> observed then ''expired'' else sp_state c
      | None \<Rightarrow> sp_state c)"

definition decode_response :: "json \<Rightarrow> string \<Rightarrow> (json \<times> int \<times> json option) sres" where
  "decode_response wire device =
     bind_res (demand (unique_keys wire)) (\<lambda>_.
     bind_res (demand (exact_fields wire [''schema'', ''device'', ''observed_at'', ''cohort'', ''subscription'', ''event''])) (\<lambda>_.
     bind_res (demand (the_field wire ''schema'' = JInt 1)) (\<lambda>_.
     bind_res (demand (recipient_ok device \<and> the_field wire ''device'' = JStr device \<and> is_jbool (the_field wire ''cohort''))) (\<lambda>_.
     bind_res (instant (the_field wire ''observed_at'')) (\<lambda>observed.
     if the_field wire ''cohort'' = JBool False
     then bind_res (demand (the_field wire ''subscription'' = JNull \<and> the_field wire ''event'' = JNull)) (\<lambda>_.
          Inr (JObj [(''schema'', JInt 1), (''device'', JStr device), (''cohort'', JBool False)], observed, None))
     else
       let sub = the_field wire ''subscription''; status = status_of device sub in
       bind_res (demand (exact_fields sub sub_fields)) (\<lambda>_.
       bind_res (sub_snapshot status device) (\<lambda>current.
       bind_res (demand (sp_start current \<le> sp_updated current \<and> sp_updated current \<le> observed)) (\<lambda>_.
       bind_res (demand (sp_state current = ''grace'' \<longrightarrow> sp_grace current \<noteq> None)) (\<lambda>_.
       bind_res (demand (sp_effective current = expected_state current observed)) (\<lambda>_.
       if the_field wire ''event'' = JNull then Inr (status, observed, None)
       else bind_res (decode_event device current (the_field wire ''event'')) (\<lambda>event. Inr (status, observed, Some event))))))))))))"

section \<open>Accepting\<close>

text \<open>The view, and whether it replaces the one before.\<close>

definition accept_outside :: "sub_view option \<Rightarrow> json \<Rightarrow> string \<Rightarrow> int \<Rightarrow> json option \<Rightarrow> (sub_view \<times> bool) sres" where
  "accept_outside previous status device confirmed event =
     (let fresh = \<lparr>sv_device = device, sv_snapshot = None, sv_confirmed = confirmed, sv_event = None, sv_notice = None\<rparr> in
      bind_res (demand (recipient_ok device)) (\<lambda>_.
      bind_res (demand (py_eq status (JObj [(''schema'', JInt 1), (''device'', JStr device), (''cohort'', JBool False)]) \<and> event = None)) (\<lambda>_.
      case previous of
        None \<Rightarrow> Inr (fresh, True)
      | Some p \<Rightarrow>
          bind_res (demand (sv_device p = device \<and> sv_snapshot p = None)) (\<lambda>_.
          Inr (if confirmed < sv_confirmed p then (p, False) else (fresh, True))))))"

text \<open>Whether a snapshot is stale against the one before, and the conflicts that are refused.\<close>

definition stale :: "sub_view option \<Rightarrow> snap \<Rightarrow> string \<Rightarrow> int \<Rightarrow> bool sres" where
  "stale previous current device confirmed = (case previous of
     None \<Rightarrow> Inr False
   | Some p \<Rightarrow> (case sv_snapshot p of
       None \<Rightarrow> bind_res (demand (sv_device p = device)) (\<lambda>_. Inr (confirmed < sv_confirmed p))
     | Some old \<Rightarrow>
         bind_res (demand (sp_device old = device)) (\<lambda>_.
         if sp_version current < sp_version old then Inr True
         else if sp_version current = sp_version old
         then bind_res (demand (current\<lparr>sp_effective := [], sp_entitlement := None\<rparr> = old\<lparr>sp_effective := [], sp_entitlement := None\<rparr>)) (\<lambda>_.
              if confirmed < sv_confirmed p then Inr True
              else bind_res (demand (confirmed = sv_confirmed p \<longrightarrow> current = old)) (\<lambda>_.
                   bind_res (demand (sp_effective old \<in> {''expired'', ''revoked''} \<longrightarrow> sp_effective current = sp_effective old)) (\<lambda>_. Inr False)))
         else bind_res (demand (sv_confirmed p \<le> confirmed \<and> sp_event_id current \<noteq> sp_event_id old)) (\<lambda>_. Inr False))))"

definition notice_kind :: "snap option \<Rightarrow> bool \<Rightarrow> snap \<Rightarrow> sub_event \<Rightarrow> string" where
  "notice_kind old same current incoming =
     (if se_type incoming = ''payment''
      then (case old of
              Some o' \<Rightarrow> if \<not> same \<and> max (sp_until o') (case sp_grace o' of None \<Rightarrow> 0 | Some g \<Rightarrow> g) < sp_until current then ''renewed''
                else if se_previous incoming = None then ''activated'' else ''confirmed''
            | None \<Rightarrow> if se_previous incoming = None then ''activated'' else ''confirmed'')
      else se_type incoming)"

definition merge_view :: "sub_view option \<Rightarrow> snap \<Rightarrow> string \<Rightarrow> int \<Rightarrow> sub_event option \<Rightarrow> (sub_view \<times> bool) sres" where
  "merge_view previous current device confirmed incoming =
     (let old = Option.bind previous sv_snapshot;
          same = (case old of None \<Rightarrow> False | Some o' \<Rightarrow> sp_version o' = sp_version current);
          saved_event = (if same then Option.bind previous sv_event else None);
          saved_notice = (if same then Option.bind previous sv_notice else None) in
      bind_res (demand (case (saved_event, incoming) of (Some s, Some i) \<Rightarrow> s = i | _ \<Rightarrow> True)) (\<lambda>_.
      let notice = (case (incoming, saved_event) of
            (Some i, None) \<Rightarrow> Some \<lparr>su_id = ''subscription:'' @ str_int (sp_version current) @ '':'' @ sp_event_id current,
              su_event = notice_kind old same current i, su_created = se_occurred i, su_read = False, su_notified = False\<rparr>
          | _ \<Rightarrow> saved_notice) in
      Inr (\<lparr>sv_device = device, sv_snapshot = Some current, sv_confirmed = confirmed,
        sv_event = (case incoming of None \<Rightarrow> saved_event | Some i \<Rightarrow> Some i), sv_notice = notice\<rparr>, True)))"

definition accept :: "sub_view option \<Rightarrow> json \<Rightarrow> string \<Rightarrow> int \<Rightarrow> json option \<Rightarrow> (sub_view \<times> bool) sres" where
  "accept previous status device confirmed event =
     bind_res (demand (0 \<le> confirmed \<and> confirmed \<le> max_instant)) (\<lambda>_.
     bind_res (demand (is_obj status)) (\<lambda>_.
     if jget status ''cohort'' = Some (JBool False) then accept_outside previous status device confirmed event
     else
       bind_res (sub_snapshot status device) (\<lambda>current.
       bind_res (demand (sp_updated current \<le> confirmed)) (\<lambda>_.
       bind_res (case event of None \<Rightarrow> Inr None | Some e \<Rightarrow> bind_res (event_projection e current) (\<lambda>i. Inr (Some i))) (\<lambda>incoming.
       bind_res (stale previous current device confirmed) (\<lambda>is_stale.
       if is_stale then Inr (the previous, False) else merge_view previous current device confirmed incoming))))))"

section \<open>Showing\<close>

record shown =
  sh_cohort :: "bool option"
  sh_snapshot :: "snap option"
  sh_confirmed :: "int option"
  sh_notice :: "(sub_notice \<times> bool) option"

text \<open>What is displayed; the flag beside a notice says that its notification is suppressed.\<close>

definition view :: "sub_view option \<Rightarrow> string \<Rightarrow> real \<Rightarrow> shown sres" where
  "view stored device now =
     bind_res (demand (recipient_ok device)) (\<lambda>_.
     let nothing = \<lparr>sh_cohort = None, sh_snapshot = None, sh_confirmed = None, sh_notice = None\<rparr> in
     case stored of
       None \<Rightarrow> Inr nothing
     | Some r \<Rightarrow>
         if sv_device r \<noteq> device then Inr nothing
         else (case sv_snapshot r of
           None \<Rightarrow> Inr \<lparr>sh_cohort = Some False, sh_snapshot = None, sh_confirmed = Some (sv_confirmed r), sh_notice = None\<rparr>
         | Some s \<Rightarrow> Inr \<lparr>sh_cohort = Some True, sh_snapshot = Some s, sh_confirmed = Some (sv_confirmed r),
             sh_notice = map_option (\<lambda>n. (n, 86400 < now - of_int (su_created n) \<or>
               su_event n \<in> {''activated'', ''renewed'', ''confirmed'', ''grace''} \<and>
               (case sp_entitlement s of None \<Rightarrow> True | Some b \<Rightarrow> of_int b \<le> now))) (sv_notice r)\<rparr>))"

section \<open>Views only move forward\<close>

text \<open>What a later view keeps of an earlier one.\<close>

definition view_le :: "sub_view \<Rightarrow> sub_view \<Rightarrow> bool" where
  "view_le v v' \<longleftrightarrow> sv_device v' = sv_device v \<and> sv_confirmed v \<le> sv_confirmed v' \<and>
     (\<forall>s. sv_snapshot v = Some s \<longrightarrow> (\<exists>s'. sv_snapshot v' = Some s' \<and> sp_version s \<le> sp_version s' \<and>
        (sp_version s' = sp_version s \<longrightarrow> sp_until s' = sp_until s \<and> sp_state s' = sp_state s \<and> sp_event_id s' = sp_event_id s \<and>
           (sp_effective s \<in> {''expired'', ''revoked''} \<longrightarrow> sp_effective s' = sp_effective s) \<and>
           (sv_event v \<noteq> None \<longrightarrow> sv_event v' = sv_event v))))"

definition view_ok :: "sub_view \<Rightarrow> bool" where
  "view_ok v \<longleftrightarrow> (\<forall>s. sv_snapshot v = Some s \<longrightarrow> sp_device s = sv_device v \<and>
     (case sp_entitlement s of
        None \<Rightarrow> sp_effective s \<in> {''expired'', ''revoked''}
      | Some e \<Rightarrow> sp_effective s = sp_state s \<and> Some e = boundary (sp_state s) (sp_until s) (sp_grace s)))"

definition view_step :: "sub_view \<Rightarrow> sub_view \<Rightarrow> bool" where
  "view_step v v' \<longleftrightarrow> (\<exists>status device confirmed event changed. accept (Some v) status device confirmed event = Inr (v', changed))"

definition view_init :: "sub_view \<Rightarrow> bool" where
  "view_init v \<longleftrightarrow> (\<exists>status device confirmed event changed. accept None status device confirmed event = Inr (v, changed))"

lemma snapshot_Inr:
  assumes "sub_snapshot status device = Inr s"
  shows "sp_device s = device" "case sp_entitlement s of
        None \<Rightarrow> sp_effective s \<in> {''expired'', ''revoked''}
      | Some e \<Rightarrow> sp_effective s = sp_state s \<and> Some e = boundary (sp_state s) (sp_until s) (sp_grace s)"
proof -
  obtain effective state until grace start updated entitlement allow v where
    e: "entitlement_of allow effective state (boundary state until grace) v = Inr entitlement" and
    s: "sp_device s = device" "sp_state s = state" "sp_until s = until" "sp_grace s = grace" "sp_effective s = effective" "sp_entitlement s = entitlement"
    using assms unfolding sub_snapshot_def Let_def by fastforce
  show "sp_device s = device" by (rule s(1))
  from e show "case sp_entitlement s of
        None \<Rightarrow> sp_effective s \<in> {''expired'', ''revoked''}
      | Some e \<Rightarrow> sp_effective s = sp_state s \<and> Some e = boundary (sp_state s) (sp_until s) (sp_grace s)"
    unfolding s(2-6) by (auto simp: entitlement_of_def split: if_split_asm option.split)
qed

text \<open>An accepted view is the one before, one outside the cohort, or one merged from a snapshot that is not stale.\<close>

lemma accept_cases [consumes 1, case_names outside kept merged]:
  assumes "accept previous status device confirmed event = Inr (v, changed)"
  obtains "v = \<lparr>sv_device = device, sv_snapshot = None, sv_confirmed = confirmed, sv_event = None, sv_notice = None\<rparr>"
      "\<And>p. previous = Some p \<Longrightarrow> sv_device p = device \<and> sv_snapshot p = None \<and> sv_confirmed p \<le> confirmed"
  | "previous = Some v"
  | current incoming where "sub_snapshot status device = Inr current" "stale previous current device confirmed = Inr False"
      "merge_view previous current device confirmed incoming = Inr (v, changed)"
      "(case event of None \<Rightarrow> Inr None | Some e \<Rightarrow> bind_res (event_projection e current) (\<lambda>i. Inr (Some i))) = Inr incoming"
proof (cases "jget status ''cohort'' = Some (JBool False)")
  case True
  with assms have a: "accept_outside previous status device confirmed event = Inr (v, changed)" by (simp add: accept_def)
  show ?thesis
  proof (cases previous)
    case None
    with a show ?thesis by (intro that(1)) (auto simp: accept_outside_def Let_def)
  next
    case (Some p)
    with a have p: "sv_device p = device" "sv_snapshot p = None"
      and v: "v = (if confirmed < sv_confirmed p then p else \<lparr>sv_device = device, sv_snapshot = None, sv_confirmed = confirmed, sv_event = None, sv_notice = None\<rparr>)"
      by (auto simp: accept_outside_def Let_def split: if_split_asm)
    show ?thesis
    proof (cases "confirmed < sv_confirmed p")
      case True
      with v Some show ?thesis by (intro that(2)) simp
    next
      case False
      with v p Some show ?thesis by (intro that(1)) auto
    qed
  qed
next
  case False
  with assms obtain current incoming st where c: "sub_snapshot status device = Inr current"
    "(case event of None \<Rightarrow> Inr None | Some e \<Rightarrow> bind_res (event_projection e current) (\<lambda>i. Inr (Some i))) = Inr incoming"
    "stale previous current device confirmed = Inr st"
    "(if st then Inr (the previous, False) else merge_view previous current device confirmed incoming) = Inr (v, changed)"
    unfolding accept_def by auto
  show ?thesis
  proof (cases st)
    case True
    with c(3) obtain p where "previous = Some p" by (cases previous) (auto simp: stale_def)
    with c(4) True show ?thesis by (intro that(2)) simp
  next
    case False
    with c show ?thesis by (intro that(3)) auto
  qed
qed

lemma merge_view_Inr:
  assumes "merge_view previous current device confirmed incoming = Inr (v, changed)"
  shows "sv_device v = device" "sv_snapshot v = Some current" "sv_confirmed v = confirmed"
    "\<And>p old e. previous = Some p \<Longrightarrow> sv_snapshot p = Some old \<Longrightarrow> sp_version old = sp_version current \<Longrightarrow> sv_event p = Some e \<Longrightarrow> sv_event v = Some e"
  using assms by (auto simp: merge_view_def Let_def split: option.split_asm)

lemma stale_False:
  assumes "stale (Some p) current device confirmed = Inr False"
  shows "sv_snapshot p = None \<Longrightarrow> sv_device p = device \<and> sv_confirmed p \<le> confirmed"
    and "sv_snapshot p = Some old \<Longrightarrow> sp_device old = device \<and> sp_version old \<le> sp_version current \<and> sv_confirmed p \<le> confirmed \<and>
      (sp_version current = sp_version old \<longrightarrow> current\<lparr>sp_effective := [], sp_entitlement := None\<rparr> = old\<lparr>sp_effective := [], sp_entitlement := None\<rparr> \<and>
        (sp_effective old \<in> {''expired'', ''revoked''} \<longrightarrow> sp_effective current = sp_effective old))"
  using assms by (auto simp: stale_def split: if_split_asm)

lemma same_parts:
  "current\<lparr>sp_effective := [], sp_entitlement := None\<rparr> = old\<lparr>sp_effective := [], sp_entitlement := None\<rparr> \<Longrightarrow>
     sp_until current = sp_until old \<and> sp_state current = sp_state old \<and> sp_event_id current = sp_event_id old"
  by (cases current; cases old) simp

lemma accept_ok:
  assumes "\<And>p. previous = Some p \<Longrightarrow> view_ok p" "accept previous status device confirmed event = Inr (v, changed)"
  shows "view_ok v"
  using assms(2)
proof (cases rule: accept_cases)
  case outside
  then show ?thesis by (simp add: view_ok_def)
next
  case kept
  then show ?thesis by (rule assms(1))
next
  case (merged current incoming)
  with merge_view_Inr(1,2) [OF merged(3)] snapshot_Inr [OF merged(1)] show ?thesis by (simp add: view_ok_def)
qed

lemma view_le_refl: "view_le v v"
  by (simp add: view_le_def)

lemma view_le_trans:
  assumes "view_le u v" "view_le v w"
  shows "view_le u w"
  unfolding view_le_def
proof (intro conjI allI impI)
  show "sv_device w = sv_device u" "sv_confirmed u \<le> sv_confirmed w" using assms by (auto simp: view_le_def)
next
  fix s assume s: "sv_snapshot u = Some s"
  with assms(1) obtain s' where s': "sv_snapshot v = Some s'" "sp_version s \<le> sp_version s'"
    "sp_version s' = sp_version s \<longrightarrow> sp_until s' = sp_until s \<and> sp_state s' = sp_state s \<and> sp_event_id s' = sp_event_id s \<and>
       (sp_effective s \<in> {''expired'', ''revoked''} \<longrightarrow> sp_effective s' = sp_effective s) \<and> (sv_event u \<noteq> None \<longrightarrow> sv_event v = sv_event u)"
    unfolding view_le_def by blast
  with assms(2) obtain s'' where s'': "sv_snapshot w = Some s''" "sp_version s' \<le> sp_version s''"
    "sp_version s'' = sp_version s' \<longrightarrow> sp_until s'' = sp_until s' \<and> sp_state s'' = sp_state s' \<and> sp_event_id s'' = sp_event_id s' \<and>
       (sp_effective s' \<in> {''expired'', ''revoked''} \<longrightarrow> sp_effective s'' = sp_effective s') \<and> (sv_event v \<noteq> None \<longrightarrow> sv_event w = sv_event v)"
    unfolding view_le_def by blast
  show "\<exists>x. sv_snapshot w = Some x \<and> sp_version s \<le> sp_version x \<and>
        (sp_version x = sp_version s \<longrightarrow> sp_until x = sp_until s \<and> sp_state x = sp_state s \<and> sp_event_id x = sp_event_id s \<and>
           (sp_effective s \<in> {''expired'', ''revoked''} \<longrightarrow> sp_effective x = sp_effective s) \<and> (sv_event u \<noteq> None \<longrightarrow> sv_event w = sv_event u))"
  proof (intro exI [of _ s''] conjI impI)
    assume "sp_version s'' = sp_version s"
    then have "sp_version s'' = sp_version s'" "sp_version s' = sp_version s" using s'(2) s''(2) by auto
    with s'(3) s''(3) show "sp_until s'' = sp_until s" "sp_state s'' = sp_state s" "sp_event_id s'' = sp_event_id s"
      "sp_effective s \<in> {''expired'', ''revoked''} \<Longrightarrow> sp_effective s'' = sp_effective s" "sv_event u \<noteq> None \<Longrightarrow> sv_event w = sv_event u" by auto
  qed (use s'(2) s''(1,2) in auto)
qed

lemma view_accept_le:
  assumes ok: "view_ok p" and acc: "accept (Some p) status device confirmed event = Inr (v, changed)"
  shows "view_le p v"
  using acc
proof (cases rule: accept_cases)
  case outside
  then show ?thesis by (auto simp: view_le_def)
next
  case kept
  then show ?thesis by (simp add: view_le_refl)
next
  case (merged current incoming)
  note m = merge_view_Inr [OF merged(3)]
  show ?thesis
  proof (cases "sv_snapshot p")
    case None
    with stale_False(1) [OF merged(2)] m show ?thesis by (simp add: view_le_def)
  next
    case (Some old)
    note s = stale_False(2) [OF merged(2) Some]
    have "sv_device p = device" using ok Some s by (auto simp: view_ok_def)
    with s m(1-3) m(4) [OF refl Some] Some same_parts [of current old] show ?thesis by (auto simp: view_le_def)
  qed
qed

interpretation sv: progress_system view_init view_step view_ok view_le
proof unfold_locales
  show "view_init s \<Longrightarrow> view_ok s" for s unfolding view_init_def using accept_ok [of None] by blast
  show "view_ok s \<Longrightarrow> view_step s t \<Longrightarrow> view_ok t" for s t unfolding view_step_def using accept_ok [of "Some s"] by blast
  show "view_le s s" for s by (rule view_le_refl)
  show "view_le s t \<Longrightarrow> view_le t u \<Longrightarrow> view_le s u" for s t u by (rule view_le_trans)
  show "view_ok s \<Longrightarrow> view_step s t \<Longrightarrow> view_le s t" for s t unfolding view_step_def using view_accept_le by blast
qed

section \<open>Properties\<close>

text \<open>C26. Whatever responses arrive in whatever order, the stored view only moves forward: it stays with its device, its
  confirmation time and version never decrease, a device in the paid cohort stays in it, and within a version the period, the state and the
  accepted event never change and an expired or revoked right never comes back.\<close>

theorem subscription_only_moves_forward:
  assumes "reach view_init view_step v" "steps view_step v v'" "sv_snapshot v = Some s"
  shows "\<exists>s'. sv_snapshot v' = Some s' \<and> sv_device v' = sv_device v \<and> sv_confirmed v \<le> sv_confirmed v' \<and> sp_version s \<le> sp_version s' \<and>
    (sp_version s' = sp_version s \<longrightarrow> sp_until s' = sp_until s \<and> sp_state s' = sp_state s \<and>
      (sp_effective s \<in> {''expired'', ''revoked''} \<longrightarrow> sp_effective s' = sp_effective s) \<and> (sv_event v \<noteq> None \<longrightarrow> sv_event v' = sv_event v))"
  using sv.steps_le [OF assms(2) sv.reach_inv [OF assms(1)]] assms(3) unfolding view_le_def by blast

lemma accept_outside_again:
  assumes "accept_outside previous status device confirmed event = Inr (v, changed)"
  shows "\<exists>c. accept_outside (Some v) status device confirmed event = Inr (v, c)"
  using assms by (auto simp: accept_outside_def Let_def split: option.split_asm if_split_asm)

lemma stale_again:
  assumes "stale previous current device confirmed = Inr False" "sv_snapshot v = Some current" "sv_confirmed v = confirmed" "sp_device current = device"
  shows "stale (Some v) current device confirmed = Inr False"
  using assms by (auto simp: stale_def)

lemma merge_again:
  assumes "merge_view previous current device confirmed incoming = Inr (v, changed)"
  shows "merge_view (Some v) current device confirmed incoming = Inr (v, True)"
  using assms by (auto simp: merge_view_def Let_def split: option.split_asm option.split)

text \<open>C27. Accepting a response twice is the same as accepting it once, whether it was applied or ignored as stale.\<close>

theorem subscription_replay:
  assumes "accept previous status device confirmed event = Inr (v, changed)"
  shows "\<exists>c. accept (Some v) status device confirmed event = Inr (v, c)"
proof (cases "jget status ''cohort'' = Some (JBool False)")
  case True
  with assms accept_outside_again show ?thesis by (simp add: accept_def) blast
next
  case False
  with assms obtain current incoming st where c: "0 \<le> confirmed \<and> confirmed \<le> max_instant" "is_obj status" "sub_snapshot status device = Inr current"
    "sp_updated current \<le> confirmed"
    "(case event of None \<Rightarrow> Inr None | Some e \<Rightarrow> bind_res (event_projection e current) (\<lambda>i. Inr (Some i))) = Inr incoming"
    "stale previous current device confirmed = Inr st"
    "(if st then Inr (the previous, False) else merge_view previous current device confirmed incoming) = Inr (v, changed)"
    unfolding accept_def by auto
  note red = accept_def [of "Some v" status device confirmed event] False c(1-5)
  show ?thesis
  proof (cases st)
    case True
    with c(6) obtain p where "previous = Some p" by (cases previous) (auto simp: stale_def)
    with c(7) True assms show ?thesis by auto
  next
    case False
    with c(7) have m: "merge_view previous current device confirmed incoming = Inr (v, changed)" by simp
    with False c(6) stale_again [of previous current device confirmed v] merge_view_Inr(2,3) [OF m] snapshot_Inr(1) [OF c(3)]
    have "stale (Some v) current device confirmed = Inr False" by simp
    with red merge_again [OF m] have "accept (Some v) status device confirmed event = Inr (v, True)" by simp
    then show ?thesis by blast
  qed
qed

section \<open>A device of the cohort\<close>

definition demo_device :: string where "demo_device = replicate 32 (CHR ''a'')"

definition demo_row :: "int \<Rightarrow> string \<Rightarrow> int \<Rightarrow> json" where
  "demo_row version ident until = JObj [(''state'', JStr ''active''), (''effective_state'', JStr ''active''), (''paid_allow'', JBool True), (''period_start'', JInt 1),
     (''paid_until'', JInt until), (''grace_until'', JNull), (''entitlement_until'', JInt until), (''version'', JInt version), (''last_event_id'', JStr ident),
     (''updated_at'', JInt 2)]"

definition demo_status :: "int \<Rightarrow> string \<Rightarrow> int \<Rightarrow> json" where
  "demo_status version ident until = status_of demo_device (demo_row version ident until)"

definition demo_view :: "sub_view option" where
  "demo_view = (case accept None (demo_status 1 ''event001'' 9) demo_device 3 None of Inr (v, _) \<Rightarrow> Some v | Inl _ \<Rightarrow> None)"

definition demo_view2 :: "sub_view option" where
  "demo_view2 = (case accept demo_view (demo_status 2 ''event002'' 20) demo_device 4 None of Inr (v, _) \<Rightarrow> Some v | Inl _ \<Rightarrow> None)"

lemma demo_views: "map_option sp_version (Option.bind demo_view sv_snapshot) = Some 1" "map_option sp_version (Option.bind demo_view2 sv_snapshot) = Some 2"
  by code_simp+

lemma demo_viewE:
  obtains v v' s c c' where "demo_view = Some v" "demo_view2 = Some v'" "sv_snapshot v = Some s" "sp_version s = 1"
    "accept None (demo_status 1 ''event001'' 9) demo_device 3 None = Inr (v, c)"
    "accept (Some v) (demo_status 2 ''event002'' 20) demo_device 4 None = Inr (v', c')"
proof -
  obtain v s where v: "demo_view = Some v" "sv_snapshot v = Some s" "sp_version s = 1" using demo_views(1) by (auto simp: bind_eq_Some_conv)
  obtain v' where v': "demo_view2 = Some v'" using demo_views(2) by (auto simp: bind_eq_Some_conv)
  obtain c where "accept None (demo_status 1 ''event001'' 9) demo_device 3 None = Inr (v, c)"
    using v(1) by (auto simp: demo_view_def split: sum.split_asm)
  moreover obtain c' where "accept (Some v) (demo_status 2 ''event002'' 20) demo_device 4 None = Inr (v', c')"
    using v' v(1) unfolding demo_view2_def v(1) by (auto split: sum.split_asm)
  ultimately show ?thesis using that v v' by blast
qed

theorem subscription_only_moves_forward_witness:
  "\<exists>v v' s'. demo_view = Some v \<and> demo_view2 = Some v' \<and> sv_snapshot v' = Some s' \<and> 1 \<le> sp_version s'"
proof -
  obtain v v' s c c' where v: "demo_view = Some v" "demo_view2 = Some v'" "sv_snapshot v = Some s" "sp_version s = 1"
    "accept None (demo_status 1 ''event001'' 9) demo_device 3 None = Inr (v, c)"
    "accept (Some v) (demo_status 2 ''event002'' 20) demo_device 4 None = Inr (v', c')" by (rule demo_viewE)
  have "reach view_init view_step v" by (rule reach_init) (use v(5) in \<open>unfold view_init_def, blast\<close>)
  moreover have "steps view_step v v'" by (rule step_steps) (use v(6) in \<open>unfold view_step_def, blast\<close>)
  ultimately show ?thesis using subscription_only_moves_forward [of v v' s] v by auto
qed

theorem subscription_replay_witness:
  "\<exists>v c. demo_view = Some v \<and> accept (Some v) (demo_status 1 ''event001'' 9) demo_device 3 None = Inr (v, c)"
proof -
  obtain v v' s c c' where v: "demo_view = Some v" "accept None (demo_status 1 ''event001'' 9) demo_device 3 None = Inr (v, c)" by (rule demo_viewE)
  from subscription_replay [OF v(2)] v(1) show ?thesis by blast
qed

end
