(* ===== verification/Chat_Store.thy ===== *)
theory Chat_Store
  imports Chat_Codec Chat_Subscription Assoc_Table
begin

text \<open>
  The history and outbox of a chat owner, \<open>messenger/store.py\<close>.  The encrypted records are kept by kind: the messages, the
  notices, and one record each for contacts, names, publishers, read flags, feed events and the subscription; a record is modelled by
  the value it decrypts to.  Every operation is one transaction: where it raises, the store is as before.

  Clock readings and fresh tokens are arguments.
\<close>

section \<open>Records\<close>

datatype status = Queued | Sending | Relayed | Delivered | RecipientStored | Expired | Received

record smsg =
  sm_msg :: message
  sm_packed :: string
  sm_outgoing :: bool
  sm_status :: status
  sm_attempt :: "string option"
  sm_receipt :: "string option"
  sm_expires :: "real option"
  sm_retry_at :: real
  sm_relays :: nat
  sm_blob :: "string option"

text \<open>\<open>sm_expires\<close> is the \<open>expires_at\<close> of a message with \<open>require_stored\<close>.\<close>

record flags =
  fl_read :: bool
  fl_notified :: bool

record snotice =
  sn_event :: notice
  sn_id :: string
  sn_publisher :: string
  sn_lxmf :: string
  sn_read :: bool
  sn_notified :: bool
  sn_suppressed :: bool

text \<open>A feed event; version 2 of the feed adds revision, update time and editor.\<close>

record sevent =
  ev_id :: string
  ev_kind :: string
  ev_title :: string
  ev_body :: string
  ev_author :: string
  ev_created :: int
  ev_expires :: int
  ev_platforms :: "string list"
  ev_revision :: "(int \<times> int \<times> string) option"

record chat_store =
  cs_messages :: "(string \<times> smsg) list"
  cs_notices :: "(string \<times> snotice) list"
  cs_contacts :: "(string \<times> string) list"
  cs_names :: "(string \<times> string) list"
  cs_publishers :: "(string \<times> string) list"
  cs_inbox :: "(string \<times> flags) list option"
  cs_events :: "(sevent \<times> flags) list"
  cs_subscription :: "sub_view option"
  cs_epoch :: string

datatype chat_error = ChatValue string | ChatPy string

type_synonym 'a chres = "(chat_error, 'a) res"

abbreviation msg_id :: "smsg \<Rightarrow> string" where "msg_id m \<equiv> m_id (sm_msg m)"
abbreviation msg_peer :: "smsg \<Rightarrow> string" where "msg_peer m \<equiv> m_peer (sm_msg m)"
abbreviation msg_body :: "smsg \<Rightarrow> body" where "msg_body m \<equiv> m_body (sm_msg m)"

definition put_message :: "smsg \<Rightarrow> chat_store \<Rightarrow> chat_store" where
  "put_message m st = st\<lparr>cs_messages := put_entry (msg_id m) m (cs_messages st)\<rparr>"

definition get_message :: "string \<Rightarrow> chat_store \<Rightarrow> smsg option" where
  "get_message ident st = map_of (cs_messages st) ident"

definition messages :: "chat_store \<Rightarrow> smsg list" where
  "messages st = map snd (cs_messages st)"

section \<open>Visible messages\<close>

record visible =
  vi_msg :: smsg
  vi_revision :: int
  vi_edited :: bool

definition hidden :: "body \<Rightarrow> bool" where
  "hidden b = (case b of Edit _ _ \<Rightarrow> True | Stored _ \<Rightarrow> True | Service _ \<Rightarrow> True | _ \<Rightarrow> False)"

definition is_audio :: "body \<Rightarrow> bool" where
  "is_audio b = (case b of Audio _ _ _ \<Rightarrow> True | _ \<Rightarrow> False)"

text \<open>An edit applies to a message of the same peer and direction, and to a newer revision only.\<close>

definition edit_applies :: "smsg \<Rightarrow> visible \<Rightarrow> bool" where
  "edit_applies e v = (case msg_body e of
     Edit target revision \<Rightarrow> target = msg_id (vi_msg v) \<and> \<not> is_audio (msg_body (vi_msg v)) \<and> msg_peer (vi_msg v) = msg_peer e \<and>
       sm_outgoing (vi_msg v) = sm_outgoing e \<and> vi_revision v < revision
   | _ \<Rightarrow> False)"

definition edit_revision :: "smsg \<Rightarrow> int" where
  "edit_revision e = (case msg_body e of Edit _ revision \<Rightarrow> revision | _ \<Rightarrow> 0)"

definition apply_edit :: "smsg \<Rightarrow> visible \<Rightarrow> visible" where
  "apply_edit e v =
     (if edit_applies e v
      then \<lparr>vi_msg = (let m = (vi_msg v)\<lparr>sm_msg := (sm_msg (vi_msg v))\<lparr>m_text := m_text (sm_msg e)\<rparr>\<rparr> in
              if sm_outgoing m then m\<lparr>sm_status := sm_status e, sm_attempt := sm_attempt e\<rparr> else m),
            vi_revision = edit_revision e, vi_edited = True\<rparr>
      else v)"

definition shown_message :: "smsg \<Rightarrow> visible" where
  "shown_message m = \<lparr>vi_msg = m, vi_revision = 0, vi_edited = False\<rparr>"

definition visible_messages :: "chat_store \<Rightarrow> visible list" where
  "visible_messages st =
     fold (\<lambda>e vs. map (apply_edit e) vs) (messages st) (map shown_message (filter (\<lambda>m. \<not> hidden (msg_body m)) (messages st)))"

section \<open>Adding messages\<close>

definition unread :: flags where "unread = \<lparr>fl_read = False, fl_notified = False\<rparr>"

text \<open>An incoming edit of a visible message marks it unread again.\<close>

definition edit_marks :: "message \<Rightarrow> chat_store \<Rightarrow> chat_store" where
  "edit_marks m st = (case m_body m of
     Edit target revision \<Rightarrow>
       (case find (\<lambda>v. msg_id (vi_msg v) = target) (visible_messages st) of
          None \<Rightarrow> st
        | Some v \<Rightarrow>
            if \<not> sm_outgoing (vi_msg v) \<and> msg_peer (vi_msg v) = m_peer m \<and> vi_revision v < revision
            then st\<lparr>cs_inbox := Some (put_entry target unread (case cs_inbox st of None \<Rightarrow> [] | Some i \<Rightarrow> i))\<rparr> else st)
   | _ \<Rightarrow> st)"

definition new_message :: "message \<Rightarrow> string \<Rightarrow> bool \<Rightarrow> real option \<Rightarrow> smsg" where
  "new_message m raw outgoing expires = \<lparr>sm_msg = m, sm_packed = raw, sm_outgoing = outgoing,
     sm_status = (if outgoing then Queued else Received), sm_attempt = None, sm_receipt = None, sm_expires = expires, sm_retry_at = 0,
     sm_relays = 0, sm_blob = None\<rparr>"

definition add_inner :: "message \<Rightarrow> string \<Rightarrow> bool \<Rightarrow> real option \<Rightarrow> chat_store \<Rightarrow> (bool \<times> chat_store) chres" where
  "add_inner m raw outgoing expires st =
     (if get_message (m_id m) st \<noteq> None then Inr (False, st)
      else bind_res (check (length (cs_messages st) < 1000) (ChatValue ''Pilot history quota reached'')) (\<lambda>_.
           let st' = (if outgoing then st else edit_marks m st) in
           Inr (True, put_message (new_message m raw outgoing expires) st')))"

definition packed_ok :: "string \<Rightarrow> bool" where
  "packed_ok raw \<longleftrightarrow> 96 < length raw \<and> length raw \<le> 131584"

definition add_message :: "message \<Rightarrow> string \<Rightarrow> bool \<Rightarrow> real option \<Rightarrow> chat_store \<Rightarrow> (bool \<times> chat_store) chres" where
  "add_message m raw outgoing expires st =
     bind_res (check (packed_ok raw) (ChatValue ''Invalid packed message'')) (\<lambda>_. add_inner m raw outgoing expires st)"

section \<open>Receiving\<close>

definition notice_key :: "string \<Rightarrow> notice \<Rightarrow> string" where
  "notice_key peer e = peer @ '':'' @ no_id e"

definition store_notice :: "message \<Rightarrow> notice \<Rightarrow> real \<Rightarrow> chat_store \<Rightarrow> chat_store chres" where
  "store_notice m e now st =
     (let key = notice_key (m_peer m) e; previous = map_of (cs_notices st) key in
      bind_res (case previous of
          Some p \<Rightarrow>
            bind_res (check (\<not> no_revision e < no_revision (sn_event p)) (ChatValue ''Stale service revision'')) (\<lambda>_.
            check (\<not> (no_revision e = no_revision (sn_event p) \<and> e \<noteq> sn_event p)) (ChatValue ''Conflicting service revision''))
        | None \<Rightarrow> check (length (cs_notices st) < 1000) (ChatValue ''Service history quota reached'')) (\<lambda>_.
      Inr (if previous = None \<or> no_revision (sn_event (the previous)) < no_revision e
           then st\<lparr>cs_notices := put_entry key \<lparr>sn_event = e, sn_id = ''lxmf:'' @ key, sn_publisher = m_peer m, sn_lxmf = m_id m,
                  sn_read = False, sn_notified = False, sn_suppressed = 86400 < now - of_int (no_created e)\<rparr> (cs_notices st)\<rparr>
           else st)))"

text \<open>Queue the storage receipt: the one sent before again, or a new one.\<close>

definition queue_receipt :: "string \<Rightarrow> smsg option \<Rightarrow> (message \<times> string) chres \<Rightarrow> chat_store \<Rightarrow> chat_store chres" where
  "queue_receipt ident existing receipt st =
     (case Option.bind existing sm_receipt of
        Some rid \<Rightarrow>
          (case get_message rid st of
             None \<Rightarrow> Inl (ChatPy ''TypeError'')
           | Some r \<Rightarrow> Inr (if sm_status r = Sending then st else put_message (r\<lparr>sm_status := Queued, sm_attempt := None\<rparr>) st))
      | None \<Rightarrow>
          bind_res receipt (\<lambda>(r, packed).
          bind_res (add_inner r packed True None st) (\<lambda>(_, st').
          case get_message ident st' of
            None \<Rightarrow> Inl (ChatPy ''TypeError'')
          | Some saved \<Rightarrow> Inr (put_message (saved\<lparr>sm_receipt := Some (m_id r)\<rparr>) st'))))"

definition commit_received :: "message \<Rightarrow> string \<Rightarrow> (message \<times> string) chres option \<Rightarrow> real \<Rightarrow> chat_store \<Rightarrow> (bool \<times> chat_store) chres" where
  "commit_received m raw receipt now st =
     (let existing = get_message (m_id m) st in
      bind_res (case m_body m of Service e \<Rightarrow> store_notice m e now st | _ \<Rightarrow> Inr st) (\<lambda>st1.
      bind_res (add_inner m raw False None st1) (\<lambda>(added, st2).
      case receipt of
        None \<Rightarrow> Inr (added, st2)
      | Some factory \<Rightarrow> bind_res (queue_receipt (m_id m) existing factory st2) (\<lambda>st3. Inr (added, st3)))))"

definition is_stored :: "body \<Rightarrow> bool" where
  "is_stored b = (case b of Stored _ \<Rightarrow> True | _ \<Rightarrow> False)"

definition accept_stored_receipt :: "message \<Rightarrow> string \<Rightarrow> chat_store \<Rightarrow> (bool \<times> chat_store) chres" where
  "accept_stored_receipt receipt target st =
     (case get_message target st of
        None \<Rightarrow> Inl (ChatValue ''Unrelated storage receipt'')
      | Some m \<Rightarrow>
          bind_res (check (sm_outgoing m \<and> msg_peer m = m_peer receipt \<and> \<not> is_stored (msg_body m)) (ChatValue ''Unrelated storage receipt'')) (\<lambda>_.
          Inr (sm_status m \<noteq> RecipientStored, put_message (m\<lparr>sm_status := RecipientStored, sm_attempt := None\<rparr>) st)))"

section \<open>Contacts\<close>

definition save_contact :: "string \<Rightarrow> string \<Rightarrow> chat_store \<Rightarrow> chat_store chres" where
  "save_contact address public st =
     bind_res (check (map_of (cs_contacts st) address \<noteq> None \<or> length (cs_contacts st) < 100) (ChatValue ''Pilot contact quota reached'')) (\<lambda>_.
     Inr (st\<lparr>cs_contacts := put_entry address public (cs_contacts st)\<rparr>))"

definition rename_contact :: "string \<Rightarrow> string \<Rightarrow> chat_store \<Rightarrow> chat_store chres" where
  "rename_contact address name st =
     bind_res (check (map_of (cs_contacts st) address \<noteq> None) (ChatValue ''Unknown contact'')) (\<lambda>_.
     Inr (st\<lparr>cs_names := (if name \<noteq> [] then put_entry address name (cs_names st) else filter (\<lambda>(a, _). a \<noteq> address) (cs_names st))\<rparr>))"

definition pin_service_publisher :: "string \<Rightarrow> string \<Rightarrow> chat_store \<Rightarrow> chat_store chres" where
  "pin_service_publisher address public st =
     bind_res (check (map_of (cs_publishers st) address \<noteq> None \<or> length (cs_publishers st) < 4) (ChatValue ''Publisher quota reached'')) (\<lambda>_.
     Inr (st\<lparr>cs_publishers := put_entry address public (cs_publishers st)\<rparr>))"

section \<open>Read flags\<close>

definition flags_of :: "(string \<times> flags) list \<Rightarrow> string \<Rightarrow> flags" where
  "flags_of state ident = (case map_of state ident of None \<Rightarrow> unread | Some f \<Rightarrow> f)"

definition incoming_messages :: "chat_store \<Rightarrow> visible list" where
  "incoming_messages st = filter (\<lambda>v. \<not> sm_outgoing (vi_msg v)) (visible_messages st)"

definition inbox_state :: "chat_store \<Rightarrow> (string \<times> flags) list" where
  "inbox_state st = (case cs_inbox st of
     Some i \<Rightarrow> i
   | None \<Rightarrow> fold (\<lambda>v t. put_entry (msg_id (vi_msg v)) \<lparr>fl_read = True, fl_notified = True\<rparr> t) (incoming_messages st) [])"

definition inbox :: "chat_store \<Rightarrow> (visible \<times> flags) list \<times> chat_store" where
  "inbox st = (map (\<lambda>v. (v, flags_of (inbox_state st) (msg_id (vi_msg v)))) (incoming_messages st), st\<lparr>cs_inbox := Some (inbox_state st)\<rparr>)"

text \<open>Reading a message also settles its notification.\<close>

definition set_flag :: "bool \<Rightarrow> flags \<Rightarrow> flags" where
  "set_flag read f = (if read then f\<lparr>fl_read := True, fl_notified := True\<rparr> else f\<lparr>fl_notified := True\<rparr>)"

definition flag_of :: "string \<Rightarrow> string \<Rightarrow> string list \<Rightarrow> bool chres" where
  "flag_of code flag ids =
     bind_res (check (flag \<in> {''read'', ''notified''} \<and> length ids \<le> 1000) (ChatValue code)) (\<lambda>_. Inr (flag = ''read''))"

definition inbox_mark :: "string list \<Rightarrow> string \<Rightarrow> chat_store \<Rightarrow> chat_store chres" where
  "inbox_mark ids flag st =
     bind_res (flag_of ''Invalid inbox update'' flag ids) (\<lambda>read.
     Inr (st\<lparr>cs_inbox := Some (fold (\<lambda>v t. if msg_id (vi_msg v) \<in> set ids
         then put_entry (msg_id (vi_msg v)) (set_flag read (flags_of t (msg_id (vi_msg v)))) t else t) (incoming_messages st) (inbox_state st))\<rparr>))"

definition mark_notice :: "bool \<Rightarrow> snotice \<Rightarrow> snotice" where
  "mark_notice read n = (if read then n\<lparr>sn_read := True, sn_notified := True\<rparr> else n\<lparr>sn_notified := True\<rparr>)"

definition mark_subscription :: "bool \<Rightarrow> string list \<Rightarrow> sub_view \<Rightarrow> sub_view" where
  "mark_subscription read ids v = v\<lparr>sv_notice := map_option (\<lambda>n. if su_id n \<in> set ids
     then (if read then n\<lparr>su_read := True, su_notified := True\<rparr> else n\<lparr>su_notified := True\<rparr>) else n) (sv_notice v)\<rparr>"

definition service_mark :: "string list \<Rightarrow> string \<Rightarrow> chat_store \<Rightarrow> chat_store chres" where
  "service_mark ids flag st =
     bind_res (flag_of ''Invalid service update'' flag ids) (\<lambda>read.
     Inr (st\<lparr>cs_events := map (\<lambda>(e, f). (e, if ev_id e \<in> set ids then set_flag read f else f)) (cs_events st),
            cs_subscription := map_option (mark_subscription read ids) (cs_subscription st),
            cs_notices := map (\<lambda>(k, n). (k, if sn_id n \<in> set ids then mark_notice read n else n)) (cs_notices st)\<rparr>))"

section \<open>Feed events\<close>

definition revision_of :: "sevent \<Rightarrow> int" where
  "revision_of e = (case ev_revision e of None \<Rightarrow> 1 | Some (r, _, _) \<Rightarrow> r)"

definition same_identity :: "sevent \<Rightarrow> sevent \<Rightarrow> bool" where
  "same_identity a b \<longleftrightarrow> ev_created a = ev_created b \<and> ev_expires a = ev_expires b \<and> ev_author a = ev_author b \<and> ev_kind a = ev_kind b \<and>
     ev_platforms a = ev_platforms b"

text \<open>What an event of the feed does to the stored event of its id.\<close>

definition update_event :: "sevent \<Rightarrow> sevent \<times> flags \<Rightarrow> (sevent \<times> flags) chres" where
  "update_event e = (\<lambda>(old, f).
     if revision_of e < revision_of old then Inr (old, f)
     else if revision_of old < revision_of e
     then bind_res (check (same_identity e old) (ChatValue ''Changed service identity'')) (\<lambda>_. Inr (e, unread))
     else bind_res (check (e\<lparr>ev_revision := None\<rparr> = old\<lparr>ev_revision := None\<rparr>) (ChatValue ''Changed service event'')) (\<lambda>_.
          bind_res (check (\<not> (ev_revision old \<noteq> None \<and> ev_revision e \<noteq> None \<and> old \<noteq> e)) (ChatValue ''Changed service revision'')) (\<lambda>_.
          Inr (if ev_revision e \<noteq> None then e else old, f))))"

fun merge_event :: "sevent \<Rightarrow> (sevent \<times> flags) list \<Rightarrow> (sevent \<times> flags) list chres" where
  "merge_event e [] = Inr [(e, unread)]"
| "merge_event e (x # xs) =
     (if ev_id (fst x) = ev_id e then bind_res (update_event e x) (\<lambda>y. Inr (y # xs))
      else bind_res (merge_event e xs) (\<lambda>ys. Inr (x # ys)))"

fun merge_events :: "sevent list \<Rightarrow> (sevent \<times> flags) list \<Rightarrow> (sevent \<times> flags) list chres" where
  "merge_events [] t = Inr t"
| "merge_events (e # es) t = bind_res (merge_event e t) (merge_events es)"

definition import_events :: "sevent list \<Rightarrow> chat_store \<Rightarrow> chat_store chres" where
  "import_events incoming st =
     bind_res (merge_events incoming (cs_events st)) (\<lambda>t.
     bind_res (check (length t \<le> 1000) (ChatValue ''Service history quota reached'')) (\<lambda>_. Inr (st\<lparr>cs_events := t\<rparr>)))"

definition service_events :: "real \<Rightarrow> chat_store \<Rightarrow> (sevent \<times> flags) list \<times> snotice list" where
  "service_events now st = (filter (\<lambda>(e, _). now < of_int (ev_expires e)) (cs_events st),
     filter (\<lambda>n. now < of_int (no_expires (sn_event n))) (map snd (cs_notices st)))"

section \<open>Subscription\<close>

definition accept_confirmed_subscription :: "json \<Rightarrow> string \<Rightarrow> int \<Rightarrow> json option \<Rightarrow> chat_store \<Rightarrow> (bool \<times> chat_store) chres" where
  "accept_confirmed_subscription status device confirmed event st =
     bind_res (map_err (\<lambda>_. ChatValue ''Invalid confirmed subscription'') (accept (cs_subscription st) status device confirmed event)) (\<lambda>(v, changed).
     Inr (changed, st\<lparr>cs_subscription := Some v\<rparr>))"

section \<open>Outbox\<close>

definition starts_with :: "string \<Rightarrow> string \<Rightarrow> bool" where
  "starts_with p s \<longleftrightarrow> take (length p) s = p"

definition own_attempt :: "chat_store \<Rightarrow> smsg \<Rightarrow> bool" where
  "own_attempt st m \<longleftrightarrow> starts_with (cs_epoch st @ '':'') (case sm_attempt m of None \<Rightarrow> [] | Some t \<Rightarrow> t)"

definition expire_message :: "real \<Rightarrow> smsg \<Rightarrow> smsg" where
  "expire_message now m =
     (if (case sm_expires m of None \<Rightarrow> False | Some e \<Rightarrow> e \<le> now) \<and> sm_status m \<notin> {RecipientStored, Delivered, Expired}
      then m\<lparr>sm_status := Expired, sm_attempt := None\<rparr> else m)"

definition is_pending :: "real \<Rightarrow> chat_store \<Rightarrow> smsg \<Rightarrow> bool" where
  "is_pending now st m \<longleftrightarrow> sm_outgoing m \<and>
     (sm_status m = Queued \<or> sm_status m = Relayed \<and> sm_expires m \<noteq> None \<and> sm_retry_at m \<le> now \<or> sm_status m = Sending \<and> \<not> own_attempt st m)"

definition pending_outbox :: "real \<Rightarrow> chat_store \<Rightarrow> string list \<times> chat_store" where
  "pending_outbox now st =
     (let table = map (\<lambda>(k, m). (k, expire_message now m)) (cs_messages st) in
      (map msg_id (filter (is_pending now st) (map snd table)), st\<lparr>cs_messages := table\<rparr>))"

definition begin_attempt :: "string \<Rightarrow> string \<Rightarrow> chat_store \<Rightarrow> ((string \<times> string) \<times> chat_store) chres" where
  "begin_attempt ident fresh st =
     (case get_message ident st of
        None \<Rightarrow> Inl (ChatValue ''Message is not pending'')
      | Some m \<Rightarrow>
          bind_res (check (sm_outgoing m \<and> sm_status m \<notin> {Delivered, RecipientStored, Expired}) (ChatValue ''Message is not pending'')) (\<lambda>_.
          bind_res (check (sm_status m \<noteq> Sending \<or> sm_attempt m \<noteq> None) (ChatPy ''AttributeError'')) (\<lambda>_.
          bind_res (check (\<not> (sm_status m = Sending \<and> own_attempt st m)) (ChatValue ''Message is already in flight'')) (\<lambda>_.
          let token = cs_epoch st @ '':'' @ fresh in
          Inr ((token, sm_packed m), put_message (m\<lparr>sm_status := Sending, sm_attempt := Some token\<rparr>) st)))))"

definition relay_blob :: "string \<Rightarrow> string chres \<Rightarrow> chat_store \<Rightarrow> (string \<times> chat_store) chres" where
  "relay_blob ident create st =
     (case get_message ident st of
        None \<Rightarrow> Inl (ChatValue ''Outgoing message required'')
      | Some m \<Rightarrow>
          bind_res (check (sm_outgoing m) (ChatValue ''Outgoing message required'')) (\<lambda>_.
          case sm_blob m of
            Some blob \<Rightarrow> Inr (blob, st)
          | None \<Rightarrow>
              bind_res create (\<lambda>blob.
              bind_res (check (112 \<le> length blob \<and> length blob \<le> 131840) (ChatValue ''Invalid relay ciphertext'')) (\<lambda>_.
              Inr (blob, put_message (m\<lparr>sm_blob := Some blob\<rparr>) st)))))"

text \<open>Seconds until a relayed message is sent again, after the given number of relays.\<close>

definition retry_delay :: "nat \<Rightarrow> real" where
  "retry_delay n = min 3600 (60 * 2 ^ (n - 1))"

definition finish_attempt :: "string \<Rightarrow> string \<Rightarrow> bool \<Rightarrow> bool \<Rightarrow> real \<Rightarrow> chat_store \<Rightarrow> (bool \<times> chat_store) chres" where
  "finish_attempt ident token delivered relayed now st =
     bind_res (check (\<not> (delivered \<and> relayed)) (ChatValue ''Relay acceptance is not recipient delivery'')) (\<lambda>_.
     case get_message ident st of
       None \<Rightarrow> Inr (False, st)
     | Some m \<Rightarrow>
         if sm_status m \<noteq> Sending \<or> sm_attempt m \<noteq> Some token \<or> \<not> starts_with (cs_epoch st @ '':'') token then Inr (False, st)
         else
           let m' = m\<lparr>sm_status := (if delivered then Delivered else if relayed then Relayed else Queued), sm_attempt := None\<rparr>;
               n = min (sm_relays m + 1) 7 in
           Inr (True, put_message (if relayed \<and> sm_expires m \<noteq> None then m'\<lparr>sm_relays := n, sm_retry_at := now + retry_delay n\<rparr> else m') st))"

text \<open>Closing and opening the store again starts a new epoch.\<close>

definition reopen :: "string \<Rightarrow> chat_store \<Rightarrow> chat_store" where
  "reopen epoch st = st\<lparr>cs_epoch := epoch\<rparr>"

definition empty_store :: "string \<Rightarrow> chat_store" where
  "empty_store epoch = \<lparr>cs_messages = [], cs_notices = [], cs_contacts = [], cs_names = [], cs_publishers = [], cs_inbox = None, cs_events = [],
     cs_subscription = None, cs_epoch = epoch\<rparr>"

end
