(* ===== verification/Chat_Relay.thy ===== *)
theory Chat_Relay
  imports Chat_Codec Assoc_Table Transition_Systems "HOL-Library.Product_Lexorder" "HOL-Library.List_Lexorder" "HOL-Library.Char_ord"
begin

text \<open>
  The closed relay, \<open>messenger/relay.py\<close>: a bounded table of ciphertexts and the handler of its two requests.  The identity hash and
  the address of a public key and the digest of a ciphertext are parameters; clock readings and failures of the database are arguments.
  A transaction that fails leaves the table as it was.
\<close>

section \<open>Spool\<close>

record spool_row =
  sr_id :: string
  sr_sender :: string
  sr_recipient :: string
  sr_received :: real
  sr_body :: string

record spool_limits =
  sl_bytes :: int
  sl_messages :: int
  sl_sender_bytes :: int
  sl_sender_messages :: int
  sl_retention :: int

datatype spool_error = SpoolValue string | SpoolFull | SpoolDb

text \<open>A failing statement; \<open>DbFull\<close> is \<open>SQLITE_FULL\<close>.\<close>

datatype db_fault = DbFull | DbOther

type_synonym 'a spres = "(spool_error, 'a) res"

definition max_blob :: nat where "max_blob = max_packed + 256"

definition limits_ok :: "spool_limits \<Rightarrow> unit spres" where
  "limits_ok lims =
     bind_res (check (0 < sl_bytes lims \<and> 0 < sl_messages lims \<and> 0 < sl_sender_bytes lims \<and> 0 < sl_sender_messages lims \<and> 0 < sl_retention lims)
       (SpoolValue ''Positive integer limits required'')) (\<lambda>_.
     check (\<not> (1048576 < sl_bytes lims \<or> 1000 < sl_messages lims \<or> 30 * 86400 < sl_retention lims)) (SpoolValue ''Pilot limits exceeded''))"

definition expire_rows :: "spool_limits \<Rightarrow> real \<Rightarrow> spool_row list \<Rightarrow> spool_row list" where
  "expire_rows lims now rows = filter (\<lambda>r. \<not> sr_received r \<le> now - of_int (sl_retention lims)) rows"

definition row_bytes :: "spool_row list \<Rightarrow> int" where
  "row_bytes rows = sum_list (map (\<lambda>r. int (length (sr_body r))) rows)"

text \<open>Opening a spool that exists.\<close>

definition open_spool :: "spool_limits \<Rightarrow> real \<Rightarrow> spool_row list \<Rightarrow> spool_row list spres" where
  "open_spool lims now rows =
     bind_res (limits_ok lims) (\<lambda>_.
     let kept = expire_rows lims now rows in
     bind_res (check (\<not> (sl_bytes lims < row_bytes kept \<or> sl_messages lims < int (length kept))) (SpoolValue ''Existing spool exceeds configured limits'')) (\<lambda>_.
     Inr kept))"

definition sender_rows :: "string \<Rightarrow> spool_row list \<Rightarrow> spool_row list" where
  "sender_rows sender rows = filter (\<lambda>r. sr_sender r = sender) rows"

definition spool_room :: "spool_limits \<Rightarrow> string \<Rightarrow> string \<Rightarrow> spool_row list \<Rightarrow> bool" where
  "spool_room lims sender blob rows \<longleftrightarrow> \<not> (sl_messages lims \<le> int (length rows) \<or> sl_bytes lims < row_bytes rows + int (length blob) \<or>
     sl_sender_messages lims \<le> int (length (sender_rows sender rows)) \<or> sl_sender_bytes lims < row_bytes (sender_rows sender rows) + int (length blob))"

definition spool_put :: "(string \<Rightarrow> string) \<Rightarrow> spool_limits \<Rightarrow> string \<Rightarrow> string \<Rightarrow> real \<Rightarrow> real \<Rightarrow> db_fault option \<Rightarrow> db_fault option \<Rightarrow>
    spool_row list \<Rightarrow> (string \<times> spool_row list) spres" where
  "spool_put digest lims sender blob now received reading writing rows =
     bind_res (check (length sender = 16 \<and> 112 \<le> length blob \<and> length blob \<le> max_blob) (SpoolValue ''Invalid ciphertext envelope'')) (\<lambda>_.
     bind_res (check (reading = None) SpoolDb) (\<lambda>_.
     let ident = digest blob; kept = expire_rows lims now rows in
     case find (\<lambda>r. sr_id r = ident) kept of
       Some r \<Rightarrow> bind_res (check (sr_sender r = sender) (SpoolValue ''Ciphertext owned by another sender'')) (\<lambda>_. Inr (ident, kept))
     | None \<Rightarrow>
         bind_res (check (spool_room lims sender blob kept) SpoolFull) (\<lambda>_.
         case writing of
           Some DbFull \<Rightarrow> Inl SpoolFull
         | Some DbOther \<Rightarrow> Inl SpoolDb
         | None \<Rightarrow> Inr (ident, kept @ [\<lparr>sr_id = ident, sr_sender = sender, sr_recipient = take 16 blob, sr_received = received, sr_body = blob\<rparr>]))))"

text \<open>A list of message ids, or nothing.\<close>

fun message_ids :: "mval \<Rightarrow> string list option spres" where
  "message_ids MNil = Inr None"
| "message_ids (MList vs) =
     (if length vs \<le> 10 \<and> list_all (\<lambda>v. case v of MBin s \<Rightarrow> length s = 32 | _ \<Rightarrow> False) vs
      then Inr (Some (map (\<lambda>v. case v of MBin s \<Rightarrow> s | _ \<Rightarrow> []) vs)) else Inl (SpoolValue ''Invalid message IDs''))"
| "message_ids _ = Inl (SpoolValue ''Invalid message IDs'')"

text \<open>The product of a float is rounded to a double before it is cut to an integer.\<close>

definition transfer_budget :: "mval \<Rightarrow> nat spres" where
  "transfer_budget v =
     (case v of
        MInt i \<Rightarrow>
          bind_res (check (0 < i \<and> i \<le> 192) (SpoolValue ''Invalid transfer budget'')) (\<lambda>_. Inr (min (nat (i * 1000)) 192000))
      | MFloat x \<Rightarrow>
          bind_res (check (0 < x \<and> x \<le> 192) (SpoolValue ''Invalid transfer budget'')) (\<lambda>_. Inr (min (nat \<lfloor>double (x * 1000)\<rfloor>) 192000))
      | _ \<Rightarrow> Inl (SpoolValue ''Invalid transfer budget''))"

text \<open>The bodies asked for that fit, in the order asked.\<close>

fun fetch :: "spool_row list \<Rightarrow> string \<Rightarrow> nat \<Rightarrow> nat \<Rightarrow> string list \<Rightarrow> string list" where
  "fetch rows recipient budget size' [] = []"
| "fetch rows recipient budget size' (i # js) = (case find (\<lambda>r. sr_id r = i \<and> sr_recipient r = recipient) rows of
     Some r \<Rightarrow> if size' + length (sr_body r) \<le> budget then sr_body r # fetch rows recipient budget (size' + length (sr_body r)) js
       else fetch rows recipient budget size' js
   | None \<Rightarrow> fetch rows recipient budget size' js)"

text \<open>\<open>dict.fromkeys\<close>: the first of equal elements stays.\<close>

definition unique :: "'a list \<Rightarrow> 'a list" where
  "unique xs = rev (remdups (rev xs))"

definition listing :: "string \<Rightarrow> spool_row list \<Rightarrow> string list" where
  "listing recipient rows = map sr_id (sort_key (\<lambda>r. (sr_received r, sr_id r)) (filter (\<lambda>r. sr_recipient r = recipient) rows))"

definition purge :: "string \<Rightarrow> string list \<Rightarrow> spool_row list \<Rightarrow> spool_row list" where
  "purge recipient haves rows = filter (\<lambda>r. \<not> (sr_id r \<in> set haves \<and> sr_recipient r = recipient)) rows"

definition spool_get :: "spool_limits \<Rightarrow> string \<Rightarrow> mval \<Rightarrow> real \<Rightarrow> db_fault option \<Rightarrow> spool_row list \<Rightarrow> (string list \<times> spool_row list) spres" where
  "spool_get lims recipient data now fault rows =
     bind_res (case data of
         MList [w, h] \<Rightarrow> Inr (w, h, MInt 48)
       | MList [w, h, b] \<Rightarrow> Inr (w, h, b)
       | _ \<Rightarrow> Inl (SpoolValue ''Invalid mailbox request'')) (\<lambda>(w, h, b).
     bind_res (transfer_budget b) (\<lambda>budget.
     bind_res (message_ids w) (\<lambda>wants.
     bind_res (message_ids h) (\<lambda>haves.
     bind_res (check (fault = None) SpoolDb) (\<lambda>_.
     let kept = expire_rows lims now rows in
     if wants = None \<and> haves = None then Inr (listing recipient kept, kept)
     else
       let left = purge recipient (case haves of None \<Rightarrow> [] | Some js \<Rightarrow> js) kept in
       Inr (fetch left recipient budget 0 (unique (case wants of None \<Rightarrow> [] | Some js \<Rightarrow> js)), left))))))"

section \<open>Relay\<close>

record relay_env =
  rl_hash :: "string \<Rightarrow> string"
  rl_address :: "string \<Rightarrow> string"
  rl_digest :: "string \<Rightarrow> string"
  rl_get_path :: string

record relay =
  rl_rows :: "spool_row list"
  rl_rate :: "(string \<times> (real \<times> real)) list"

datatype reply = NoAccess | Rejected | RateLimited | RStored string | RFull | Unavailable | Items "string list"

definition put_path :: string where "put_path = ''/family_connect/chat/v1/put''"

text \<open>Identity hash and delivery address of the given public keys.\<close>

definition member_table :: "relay_env \<Rightarrow> string list \<Rightarrow> (string \<times> string) list" where
  "member_table env publics = fold (\<lambda>p. put_entry (rl_hash env p) (rl_address env p)) publics []"

text \<open>The members of the relay: its own table and, where it has one, the current membership.\<close>

definition relay_init :: "relay_env \<Rightarrow> string list \<Rightarrow> (string \<times> string) list spres" where
  "relay_init env publics =
     bind_res (check (1 \<le> length publics \<and> length publics \<le> 100) (SpoolValue ''Closed pilot requires 1..100 identities'')) (\<lambda>_.
     Inr (member_table env publics))"

definition members :: "relay_env \<Rightarrow> (string \<times> string) list \<Rightarrow> string list option \<Rightarrow> (string \<times> string) list" where
  "members env allowed membership = (case membership of
     None \<Rightarrow> allowed
   | Some publics \<Rightarrow> fold (\<lambda>(k, v). put_entry k v) (member_table env publics) allowed)"

text \<open>The token bucket of a sender: four requests at once, one more per second.  Readings of the monotonic clock and counts of tokens
  are exact reals here; the doubles of the code differ from them by roundings in the last place.\<close>

definition take_token :: "string \<Rightarrow> real \<Rightarrow> (string \<times> (real \<times> real)) list \<Rightarrow> bool \<times> (string \<times> (real \<times> real)) list" where
  "take_token who now rate =
     (let (seen, tokens) = (case map_of rate who of None \<Rightarrow> (now, 4) | Some v \<Rightarrow> v);
          tokens' = min 4 (tokens + max 0 (now - seen)) in
      if tokens' < 1 then (False, put_entry who (now, tokens') rate) else (True, put_entry who (now, tokens' - 1) rate))"

record request =
  rq_path :: string
  rq_data :: mval
  rq_who :: "string option"
  rq_monotonic :: real
  rq_now :: real
  rq_received :: real
  rq_reading :: "db_fault option"
  rq_writing :: "db_fault option"

definition put_reply :: "(string \<times> spool_row list) spres \<Rightarrow> relay \<Rightarrow> reply \<times> relay" where
  "put_reply r st = (case r of
     Inr (ident, rows) \<Rightarrow> (RStored ident, st\<lparr>rl_rows := rows\<rparr>)
   | Inl SpoolFull \<Rightarrow> (RFull, st)
   | Inl (SpoolValue _) \<Rightarrow> (Rejected, st)
   | Inl SpoolDb \<Rightarrow> (Unavailable, st))"

definition respond :: "relay_env \<Rightarrow> spool_limits \<Rightarrow> (string \<times> string) list \<Rightarrow> request \<Rightarrow> relay \<Rightarrow> reply \<times> relay" where
  "respond env lims allowed q st = (case rq_who q of
     None \<Rightarrow> (NoAccess, st)
   | Some who \<Rightarrow>
       (case map_of allowed who of
          None \<Rightarrow> (NoAccess, st)
        | Some own \<Rightarrow>
            if rq_path q = put_path
            then (case rq_data q of
                MBin blob \<Rightarrow>
                  if \<not> (112 \<le> length blob \<and> length blob \<le> max_blob) \<or> take 16 blob \<notin> snd ` set allowed then (Rejected, st)
                  else
                    let (granted, rate) = take_token who (rq_monotonic q) (filter (\<lambda>(k, _). map_of allowed k \<noteq> None) (rl_rate st));
                        st' = st\<lparr>rl_rate := rate\<rparr> in
                    if \<not> granted then (RateLimited, st')
                    else put_reply (spool_put (rl_digest env) lims who blob (rq_now q) (rq_received q) (rq_reading q) (rq_writing q) (rl_rows st')) st'
              | _ \<Rightarrow> (Rejected, st))
            else if rq_path q = rl_get_path env
            then (case spool_get lims own (rq_data q) (rq_now q) (rq_reading q) (rl_rows st) of
                Inr (items, rows) \<Rightarrow> (Items items, st\<lparr>rl_rows := rows\<rparr>)
              | Inl _ \<Rightarrow> (NoAccess, st))
            else (NoAccess, st)))"

end
