(* ===== verification/Chat_Mailbox.thy ===== *)
theory Chat_Mailbox
  imports Chat_Store Chat_Relay
begin

text \<open>
  The chat owner and its mailbox, \<open>messenger/chat.py\<close> and \<open>messenger/mailbox.py\<close>: queueing and receiving messages, the bounded pull that
  purges only after the store committed, and publishing.  The link to the node is a parameter that may answer anything; encryption, the
  digest of a ciphertext and the constants of the pinned request API are parameters.  A connection's setup and its waiting are outside the
  model: where waiting ends an operation, \<open>mr_halt\<close> gives the code.
\<close>

section \<open>Chat\<close>

record mail_env =
  me_codec :: codec_env
  me_identity :: string
  me_public :: string
  me_address :: string
  me_durable :: bool
  me_platform :: string
  me_version :: int
  me_digest :: "string \<Rightarrow> string"
  me_decrypt :: "string \<Rightarrow> string option"
  me_encrypt :: "string \<Rightarrow> string \<Rightarrow> string"
  me_get_path :: string
  me_no_access :: int

text \<open>A table of hexadecimal texts as bytes.\<close>

fun hex_table :: "(string \<times> string) list \<Rightarrow> (string \<times> string) list chres" where
  "hex_table [] = Inr []"
| "hex_table ((k, v) # t) =
     (case (fromhex k, fromhex v) of
        (Some k', Some v') \<Rightarrow> bind_res (hex_table t) (\<lambda>t'. Inr ((k', v') # t'))
      | _ \<Rightarrow> Inl (ChatValue ''non-hexadecimal number''))"

definition chat_contacts :: "chat_store \<Rightarrow> (string \<times> string) list chres" where
  "chat_contacts st = hex_table (cs_contacts st)"

definition delivery_contacts :: "chat_store \<Rightarrow> (string \<times> string) list chres" where
  "delivery_contacts st =
     bind_res (chat_contacts st) (\<lambda>contacts.
     bind_res (hex_table (cs_publishers st)) (\<lambda>publishers. Inr (fold (\<lambda>(k, v). put_entry k v) publishers contacts)))"

definition trust_contact :: "mail_env \<Rightarrow> string \<Rightarrow> chat_store \<Rightarrow> (string \<times> chat_store) chres" where
  "trust_contact env public st =
     bind_res (check (length public = 64) (ChatValue ''Invalid contact public key'')) (\<lambda>_.
     let address = cx_address (me_codec env) public in
     bind_res (save_contact (bytes_hex address) (bytes_hex public) st) (\<lambda>st'. Inr (address, st')))"

definition pin_publisher :: "mail_env \<Rightarrow> string \<Rightarrow> chat_store \<Rightarrow> chat_store chres" where
  "pin_publisher env public st =
     bind_res (check (length public = 64) (ChatValue ''Invalid contact public key'')) (\<lambda>_.
     pin_service_publisher (bytes_hex (cx_address (me_codec env) public)) (bytes_hex public) st)"

text \<open>A packed message of ours, as its own signature proves it.\<close>

definition own_message :: "mail_env \<Rightarrow> string \<Rightarrow> string \<Rightarrow> (mval \<times> mval) list \<Rightarrow> (message \<times> string) chres" where
  "own_message env public text fs = map_err ChatValue
     (bind_res (pack (me_codec env) (me_identity env) public text fs) (\<lambda>raw.
      bind_res (unpack (me_codec env) raw public [(me_address env, me_public env)]) (\<lambda>m. Inr (m, raw))))"

definition expiry :: "mail_env \<Rightarrow> message \<Rightarrow> real \<Rightarrow> real option" where
  "expiry env m now =
     (if me_durable env \<and> \<not> is_stored (m_body m)
      then Some (case m_body m of Service e \<Rightarrow> min (now + 7 * 86400) (of_int (no_expires e)) | _ \<Rightarrow> now + 7 * 86400) else None)"

definition queue :: "mail_env \<Rightarrow> string \<Rightarrow> string \<Rightarrow> (mval \<times> mval) list \<Rightarrow> real \<Rightarrow> chat_store \<Rightarrow> (string \<times> chat_store) chres" where
  "queue env recipient text fs now st =
     bind_res (chat_contacts st) (\<lambda>contacts.
     case map_of contacts recipient of
       None \<Rightarrow> Inl (ChatValue ''Contact verification required'')
     | Some public \<Rightarrow>
         bind_res (own_message env public text fs) (\<lambda>(m, raw).
         let m' = m\<lparr>m_peer := bytes_hex recipient\<rparr> in
         bind_res (add_message m' raw True (expiry env m' now) st) (\<lambda>(_, st'). Inr (m_id m', st'))))"

definition queue_service :: "mail_env \<Rightarrow> string \<Rightarrow> mval \<Rightarrow> real \<Rightarrow> chat_store \<Rightarrow> (string \<times> chat_store) chres" where
  "queue_service env recipient event now st =
     bind_res (map_err ChatValue (bind_res (validate_notice event) (\<lambda>n. fields_for (me_codec env) (Service n)))) (\<lambda>fs.
     queue env recipient [] fs now st)"

text \<open>The storage receipt for a message.\<close>

definition receipt_for :: "mail_env \<Rightarrow> (string \<times> string) list \<Rightarrow> string \<Rightarrow> message \<Rightarrow> (message \<times> string) chres" where
  "receipt_for env contacts source m = (case map_of contacts source of
     None \<Rightarrow> Inl (ChatPy ''KeyError'')
   | Some public \<Rightarrow>
       bind_res (map_err ChatValue (fields_for (me_codec env) (Stored (m_id m)))) (\<lambda>fs.
       bind_res (own_message env public [] fs) (\<lambda>(r, packed). Inr (r\<lparr>m_peer := m_peer m\<rparr>, packed))))"

text \<open>What happens with a verified message: a receipt marks our message, a notice needs a pinned publisher, anything else a contact.\<close>

definition store_received :: "mail_env \<Rightarrow> (string \<times> string) list \<Rightarrow> (message \<times> string) chres option \<Rightarrow> string \<Rightarrow> message \<Rightarrow> string \<Rightarrow> real \<Rightarrow>
    real \<Rightarrow> chat_store \<Rightarrow> (bool \<times> chat_store) chres" where
  "store_received env own receipt source m raw now stamp st = (case m_body m of
     Stored target \<Rightarrow> accept_stored_receipt m target st
   | Service e \<Rightarrow>
       bind_res (check (m_peer m \<in> fst ` set (cs_publishers st)) (ChatValue ''Service publisher not pinned'')) (\<lambda>_.
       bind_res (check (applicable e (me_platform env) (me_version env) now) (ChatValue ''Service event not applicable'')) (\<lambda>_.
       commit_received m raw receipt stamp st))
   | _ \<Rightarrow>
       bind_res (check (map_of own source \<noteq> None) (ChatValue ''Contact verification required'')) (\<lambda>_.
       if me_durable env then commit_received m raw receipt stamp st else add_message m raw False None st))"

definition receive :: "mail_env \<Rightarrow> string \<Rightarrow> real \<Rightarrow> real \<Rightarrow> chat_store \<Rightarrow> (bool \<times> chat_store) chres" where
  "receive env raw now stamp st =
     bind_res (chat_contacts st) (\<lambda>own.
     bind_res (delivery_contacts st) (\<lambda>contacts.
     bind_res (map_err ChatValue (unpack (me_codec env) raw (me_public env) contacts)) (\<lambda>m.
     case fromhex (m_peer m) of
       None \<Rightarrow> Inl (ChatValue ''non-hexadecimal number'')
     | Some source \<Rightarrow>
         store_received env own (if me_durable env then Some (receipt_for env contacts source m) else None) source m raw now stamp st)))"

section \<open>Requests\<close>

text \<open>The other end of a link: what it answers to a request on a path, or the code with which waiting for it ended.\<close>

type_synonym 'l link = "'l \<Rightarrow> string \<Rightarrow> mval \<Rightarrow> (string, mval) res \<times> 'l"

datatype mail_error = MailboxError string | MailChat chat_error

type_synonym 'a mres = "(mail_error, 'a) res"

definition mb_request :: "mail_env \<Rightarrow> 'l link \<Rightarrow> string \<Rightarrow> mval \<Rightarrow> 'l \<Rightarrow> mval list mres \<times> 'l" where
  "mb_request env link path data l = (case link l path data of
     (Inl code, l') \<Rightarrow> (Inl (MailboxError code), l')
   | (Inr (MList vs), l') \<Rightarrow> (Inr vs, l')
   | (Inr v, l') \<Rightarrow> (Inl (MailboxError (if num_key (me_no_access env) v then ''access_denied'' else ''invalid_response'')), l'))"

section \<open>Receiving\<close>

record tally =
  ta_stored :: nat
  ta_duplicates :: nat
  ta_rejected :: nat
  ta_haves :: "string list"

record mail_run =
  mr_halt :: "nat \<Rightarrow> string option"
  mr_now :: "nat \<Rightarrow> real"
  mr_stamp :: "nat \<Rightarrow> real"

definition no_tally :: tally where "no_tally = \<lparr>ta_stored = 0, ta_duplicates = 0, ta_rejected = 0, ta_haves = []\<rparr>"

text \<open>One ciphertext of the batch; \<open>i\<close> is the number that are left.\<close>

definition receive_blob :: "mail_env \<Rightarrow> mail_run \<Rightarrow> nat \<Rightarrow> string list \<Rightarrow> mval \<Rightarrow> tally \<Rightarrow> chat_store \<Rightarrow> (tally \<times> chat_store) mres" where
  "receive_blob env rn i wanted blob ta st = (case mr_halt rn i of
     Some code \<Rightarrow> Inl (MailboxError code)
   | None \<Rightarrow>
       (case blob of
          MBin b \<Rightarrow>
            bind_res (check (16 < length b \<and> length b \<le> max_packed + 256) (MailboxError ''invalid_ciphertext'')) (\<lambda>_.
            let transient = me_digest env b; rejected = (ta\<lparr>ta_rejected := ta_rejected ta + 1\<rparr>, st) in
            bind_res (check (transient \<in> set wanted \<and> transient \<notin> set (ta_haves ta)) (MailboxError ''unexpected_message'')) (\<lambda>_.
            if take 16 b \<noteq> me_address env then Inr rejected
            else (case me_decrypt env (drop 16 b) of
                None \<Rightarrow> Inr rejected
              | Some plain \<Rightarrow>
                  (case receive env (take 16 b @ plain) (mr_now rn i) (mr_stamp rn i) st of
                     Inl (ChatValue _) \<Rightarrow> Inr rejected
                   | Inl e \<Rightarrow> Inl (MailChat e)
                   | Inr (added, st') \<Rightarrow>
                       Inr ((if added then ta\<lparr>ta_stored := ta_stored ta + 1\<rparr> else ta\<lparr>ta_duplicates := ta_duplicates ta + 1\<rparr>)
                         \<lparr>ta_haves := ta_haves ta @ [transient]\<rparr>, st')))))
        | _ \<Rightarrow> Inl (MailboxError ''invalid_ciphertext'')))"

text \<open>The store keeps what was committed, also where a later ciphertext ends the operation.\<close>

fun receive_batch :: "mail_env \<Rightarrow> mail_run \<Rightarrow> string list \<Rightarrow> mval list \<Rightarrow> tally \<Rightarrow> chat_store \<Rightarrow> tally mres \<times> chat_store" where
  "receive_batch env rn wanted [] ta st = (Inr ta, st)"
| "receive_batch env rn wanted (b # bs) ta st =
     (case receive_blob env rn (length bs) wanted b ta st of
        Inl e \<Rightarrow> (Inl e, st)
      | Inr (ta', st') \<Rightarrow> receive_batch env rn wanted bs ta' st')"

record sync_result =
  sy_stored :: nat
  sy_duplicates :: nat
  sy_rejected :: nat
  sy_purged :: nat

definition is_id :: "mval \<Rightarrow> bool" where
  "is_id v = (case v of MBin s \<Rightarrow> length s = 32 | _ \<Rightarrow> False)"

definition bin_of :: "mval \<Rightarrow> string" where
  "bin_of v = (case v of MBin s \<Rightarrow> s | _ \<Rightarrow> [])"

text \<open>The purge request: only ids of committed messages.\<close>

definition purge_stored :: "mail_env \<Rightarrow> 'l link \<Rightarrow> bool \<Rightarrow> string list \<Rightarrow> 'l \<Rightarrow> unit mres \<times> 'l" where
  "purge_stored env link delete haves l =
     (if delete \<and> haves \<noteq> []
      then (case mb_request env link (me_get_path env) (MList [MNil, MList (map MBin haves)]) l of
          (Inl e, l') \<Rightarrow> (Inl e, l')
        | (Inr vs, l') \<Rightarrow> (check (vs = []) (MailboxError ''invalid_purge_response''), l'))
      else (Inr (), l))"

text \<open>Fetch the wanted ciphertexts, store what they hold, then purge; \<open>count\<close> messages are available on the node.\<close>

definition sync_wanted :: "mail_env \<Rightarrow> mail_run \<Rightarrow> 'l link \<Rightarrow> bool \<Rightarrow> nat \<Rightarrow> string list \<Rightarrow> chat_store \<Rightarrow> 'l \<Rightarrow>
    (sync_result \<times> bool) mres \<times> chat_store \<times> 'l" where
  "sync_wanted env rn link delete count wanted st l =
     (case mb_request env link (me_get_path env) (MList [MList (map MBin wanted), MList [], MInt 192]) l of
        (Inl e, l2) \<Rightarrow> (Inl e, st, l2)
      | (Inr blobs, l2) \<Rightarrow>
          if length wanted < length blobs then (Inl (MailboxError ''invalid_batch''), st, l2)
          else (case receive_batch env rn wanted blobs no_tally st of
              (Inl e, st') \<Rightarrow> (Inl e, st', l2)
            | (Inr ta, st') \<Rightarrow>
                (case purge_stored env link delete (ta_haves ta) l2 of
                   (Inl e, l3) \<Rightarrow> (Inl e, st', l3)
                 | (Inr _, l3) \<Rightarrow>
                     let purged = (if delete then length (ta_haves ta) else 0) in
                     (Inr (\<lparr>sy_stored = ta_stored ta, sy_duplicates = ta_duplicates ta, sy_rejected = ta_rejected ta, sy_purged = purged\<rparr>,
                        0 < purged \<and> purged < count), st', l3))))"

definition sync_connected :: "mail_env \<Rightarrow> mail_run \<Rightarrow> 'l link \<Rightarrow> bool \<Rightarrow> chat_store \<Rightarrow> 'l \<Rightarrow> (sync_result \<times> bool) mres \<times> chat_store \<times> 'l" where
  "sync_connected env rn link delete st l =
     (case mb_request env link (me_get_path env) (MList [MNil, MNil]) l of
        (Inl e, l1) \<Rightarrow> (Inl e, st, l1)
      | (Inr available, l1) \<Rightarrow>
          if 1000 < length available \<or> \<not> list_all is_id available then (Inl (MailboxError ''invalid_list''), st, l1)
          else
            let wanted = take 10 (unique (map bin_of available)) in
            if wanted = [] then (Inr (\<lparr>sy_stored = 0, sy_duplicates = 0, sy_rejected = 0, sy_purged = 0\<rparr>, False), st, l1)
            else sync_wanted env rn link delete (length available) wanted st l1)"

section \<open>Publishing\<close>

definition put_codes :: "string list" where "put_codes = [''full'', ''rate_limited'', ''rejected'', ''unavailable'']"

definition put_code :: "mval list \<Rightarrow> string" where
  "put_code response = (case response of MStr c # _ \<Rightarrow> if c \<in> set put_codes then c else ''invalid_response'' | _ \<Rightarrow> ''invalid_response'')"

text \<open>The body of the try block: find the recipient, check our own bytes, send the stored envelope.\<close>

definition publish_body :: "mail_env \<Rightarrow> 'l link \<Rightarrow> string \<Rightarrow> string \<Rightarrow> chat_store \<Rightarrow> 'l \<Rightarrow> unit mres \<times> chat_store \<times> 'l" where
  "publish_body env link ident raw st l =
     (let recipient = take 16 raw in
      case bind_res (delivery_contacts st) (\<lambda>contacts. case map_of contacts recipient of
             None \<Rightarrow> Inl (ChatPy ''KeyError'')
           | Some public \<Rightarrow> bind_res (map_err ChatValue (unpack (me_codec env) raw public [(me_address env, me_public env)])) (\<lambda>_.
               relay_blob ident (Inr (recipient @ me_encrypt env public (drop 16 raw))) st)) of
        Inl e \<Rightarrow> (Inl (MailChat e), st, l)
      | Inr (blob, st') \<Rightarrow>
          (case mb_request env link put_path (MBin blob) l of
             (Inl e, l') \<Rightarrow> (Inl e, st', l')
           | (Inr response, l') \<Rightarrow>
               (if response = [MStr ''stored'', MBin (me_digest env blob)] then Inr () else Inl (MailboxError (put_code response)), st', l')))"

definition publish_connected :: "mail_env \<Rightarrow> 'l link \<Rightarrow> string \<Rightarrow> string \<Rightarrow> real \<Rightarrow> chat_store \<Rightarrow> 'l \<Rightarrow> unit mres \<times> chat_store \<times> 'l" where
  "publish_connected env link ident fresh now st l =
     (case begin_attempt ident fresh st of
        Inl e \<Rightarrow> (Inl (MailChat e), st, l)
      | Inr ((token, raw), st1) \<Rightarrow>
          (case publish_body env link ident raw st1 l of (r, st2, l') \<Rightarrow>
             (case finish_attempt ident token False (r = Inr ()) now st2 of
                Inl e \<Rightarrow> (Inl (MailChat e), st2, l')
              | Inr (_, st3) \<Rightarrow> (r, st3, l'))))"

text \<open>Several messages one after another, until one fails.\<close>

fun publish_all :: "mail_env \<Rightarrow> mail_run \<Rightarrow> 'l link \<Rightarrow> (nat \<Rightarrow> string) \<Rightarrow> string list \<Rightarrow> nat \<Rightarrow> chat_store \<Rightarrow> 'l \<Rightarrow> nat mres \<times> chat_store \<times> 'l" where
  "publish_all env rn link fresh [] done' st l = (Inr done', st, l)"
| "publish_all env rn link fresh (i # js) done' st l =
     (case mr_halt rn (length js) of
        Some code \<Rightarrow> (Inl (MailboxError code), st, l)
      | None \<Rightarrow>
          (case publish_connected env link i (fresh (length js)) (mr_now rn (length js)) st l of
             (Inl e, st', l') \<Rightarrow> (Inl e, st', l')
           | (Inr _, st', l') \<Rightarrow> publish_all env rn link fresh js (Suc done') st' l'))"

definition publish_many :: "mail_env \<Rightarrow> mail_run \<Rightarrow> 'l link \<Rightarrow> (nat \<Rightarrow> string) \<Rightarrow> string list \<Rightarrow> chat_store \<Rightarrow> 'l \<Rightarrow> unit mres \<times> chat_store \<times> 'l" where
  "publish_many env rn link fresh ids st l =
     (if \<not> (1 \<le> length ids \<and> length ids \<le> 4) \<or> \<not> distinct ids then (Inl (MailChat (ChatValue ''Expected one to four distinct message IDs'')), st, l)
      else (case publish_all env rn link fresh ids 0 st l of (r, st', l') \<Rightarrow> (bind_res r (\<lambda>_. Inr ()), st', l')))"

record exchange_result =
  er_received :: sync_result
  er_relayed :: nat
  er_pending :: nat
  er_more_incoming :: bool

definition exchange_more :: "exchange_result \<Rightarrow> bool" where
  "exchange_more r \<longleftrightarrow> 0 < er_pending r \<or> er_more_incoming r"

definition exchange :: "mail_env \<Rightarrow> mail_run \<Rightarrow> mail_run \<Rightarrow> 'l link \<Rightarrow> (nat \<Rightarrow> string) \<Rightarrow> real \<Rightarrow> real \<Rightarrow> chat_store \<Rightarrow> 'l \<Rightarrow>
    exchange_result mres \<times> chat_store \<times> 'l" where
  "exchange env rn rn2 link fresh now now' st l =
     (case sync_connected env rn link True st l of
        (Inl e, st1, l1) \<Rightarrow> (Inl e, st1, l1)
      | (Inr (received, more'), st1, l1) \<Rightarrow>
          (case pending_outbox now st1 of (ids, st2) \<Rightarrow>
             (case publish_all env rn2 link fresh (take 4 ids) 0 st2 l1 of
                (Inl e, st3, l3) \<Rightarrow> (Inl e, st3, l3)
              | (Inr relayed, st3, l3) \<Rightarrow>
                  (case pending_outbox now' st3 of (left, st4) \<Rightarrow>
                     (Inr \<lparr>er_received = received, er_relayed = relayed, er_pending = length left, er_more_incoming = more'\<rparr>, st4, l3)))))"

end
