(* ===== verification/Chat_Store_Props.thy ===== *)
theory Chat_Store_Props
  imports Chat_Store
begin

text \<open>
  The store over any sequence of its operations: its bounds, what a message keeps while its delivery proceeds, and what the user sees
  of edited messages.
\<close>

section \<open>Steps\<close>

definition is_receipt :: "smsg \<Rightarrow> bool" where
  "is_receipt m \<longleftrightarrow> (\<exists>t. msg_body m = Stored t)"

text \<open>The id of a storage receipt, a digest of its content, is that of no message of another kind.\<close>

definition receipt_apart :: "chat_store \<Rightarrow> message \<Rightarrow> (message \<times> string) chres option \<Rightarrow> bool" where
  "receipt_apart st m receipt \<longleftrightarrow> (\<forall>r packed. receipt = Some (Inr (r, packed)) \<longrightarrow>
     (\<exists>t. m_body r = Stored t) \<and> m_id r \<noteq> m_id m \<and> (\<forall>q. get_message (m_id r) st = Some q \<longrightarrow> is_receipt q \<and> sm_outgoing q))"

inductive chat_step :: "chat_store \<Rightarrow> chat_store \<Rightarrow> bool" where
  step_add: "add_message m raw outgoing expires st = Inr (b, st') \<Longrightarrow> expires = None \<or> outgoing \<Longrightarrow> chat_step st st'"
| step_receive: "commit_received m raw receipt now st = Inr (b, st') \<Longrightarrow> receipt_apart st m receipt \<Longrightarrow> chat_step st st'"
| step_stored: "accept_stored_receipt r target st = Inr (b, st') \<Longrightarrow> chat_step st st'"
| step_contact: "save_contact address public st = Inr st' \<Longrightarrow> chat_step st st'"
| step_rename: "rename_contact address name st = Inr st' \<Longrightarrow> chat_step st st'"
| step_pin: "pin_service_publisher address public st = Inr st' \<Longrightarrow> chat_step st st'"
| step_inbox: "chat_step st (snd (inbox st))"
| step_mark: "inbox_mark ids flag st = Inr st' \<Longrightarrow> chat_step st st'"
| step_service_mark: "service_mark ids flag st = Inr st' \<Longrightarrow> chat_step st st'"
| step_import: "import_events es st = Inr st' \<Longrightarrow> chat_step st st'"
| step_subscription: "accept_confirmed_subscription status device confirmed event st = Inr (b, st') \<Longrightarrow> chat_step st st'"
| step_pending: "chat_step st (snd (pending_outbox now st))"
| step_begin: "begin_attempt ident fresh st = Inr (x, st') \<Longrightarrow> chat_step st st'"
| step_blob: "relay_blob ident create st = Inr (x, st') \<Longrightarrow> chat_step st st'"
| step_finish: "finish_attempt ident token delivered relayed now st = Inr (b, st') \<Longrightarrow> chat_step st st'"
| step_reopen: "chat_step st (reopen epoch st)"

definition chat_init :: "chat_store \<Rightarrow> bool" where
  "chat_init st \<longleftrightarrow> (\<exists>epoch. st = empty_store epoch)"

section \<open>The invariant\<close>

definition local_ok :: "smsg \<Rightarrow> bool" where
  "local_ok m \<longleftrightarrow> (sm_outgoing m \<longleftrightarrow> sm_status m \<noteq> Received) \<and> (sm_status m = Sending \<longleftrightarrow> sm_attempt m \<noteq> None) \<and>
     sm_relays m \<le> 7 \<and> (sm_expires m \<noteq> None \<longrightarrow> sm_outgoing m)"

definition receipt_stored :: "chat_store \<Rightarrow> smsg \<Rightarrow> bool" where
  "receipt_stored st m \<longleftrightarrow> (\<forall>r. sm_receipt m = Some r \<longrightarrow> (\<exists>q. get_message r st = Some q \<and> is_receipt q \<and> sm_outgoing q))"

definition messages_ok :: "chat_store \<Rightarrow> bool" where
  "messages_ok st \<longleftrightarrow> distinct (map fst (cs_messages st)) \<and> length (cs_messages st) \<le> 1000 \<and>
     (\<forall>k m. get_message k st = Some m \<longrightarrow> k = msg_id m \<and> local_ok m \<and> receipt_stored st m)"

definition tables_ok :: "chat_store \<Rightarrow> bool" where
  "tables_ok st \<longleftrightarrow> length (cs_contacts st) \<le> 100 \<and> length (cs_publishers st) \<le> 4 \<and> length (cs_notices st) \<le> 1000 \<and> length (cs_events st) \<le> 1000 \<and>
     dom (map_of (cs_names st)) \<subseteq> dom (map_of (cs_contacts st))"

definition store_ok :: "chat_store \<Rightarrow> bool" where
  "store_ok st \<longleftrightarrow> messages_ok st \<and> tables_ok st"

text \<open>What a message keeps: its signed bytes, its envelope once it has one, and its end states.\<close>

definition status_le :: "status \<Rightarrow> status \<Rightarrow> bool" where
  "status_le s s' \<longleftrightarrow> (s = RecipientStored \<longrightarrow> s' = RecipientStored) \<and> (s \<in> {Delivered, Expired} \<longrightarrow> s' \<in> {s, RecipientStored})"

definition msg_le :: "smsg \<Rightarrow> smsg \<Rightarrow> bool" where
  "msg_le m m' \<longleftrightarrow> sm_msg m' = sm_msg m \<and> sm_packed m' = sm_packed m \<and> sm_outgoing m' = sm_outgoing m \<and> sm_expires m' = sm_expires m \<and>
     (sm_blob m \<noteq> None \<longrightarrow> sm_blob m' = sm_blob m) \<and> (sm_receipt m \<noteq> None \<longrightarrow> sm_receipt m' = sm_receipt m) \<and> sm_relays m \<le> sm_relays m' \<and>
     (\<not> is_receipt m \<longrightarrow> status_le (sm_status m) (sm_status m'))"

definition store_le :: "chat_store \<Rightarrow> chat_store \<Rightarrow> bool" where
  "store_le st st' \<longleftrightarrow> (\<forall>k m. get_message k st = Some m \<longrightarrow> (\<exists>m'. get_message k st' = Some m' \<and> msg_le m m'))"

lemma status_le_trans: "status_le a b \<Longrightarrow> status_le b c \<Longrightarrow> status_le a c"
  by (auto simp: status_le_def)

lemma msg_le_refl: "msg_le m m"
  by (simp add: msg_le_def status_le_def)

lemma msg_le_trans: "msg_le a b \<Longrightarrow> msg_le b c \<Longrightarrow> msg_le a c"
  unfolding msg_le_def is_receipt_def by (auto intro: status_le_trans)

lemma store_le_refl: "store_le st st"
  by (auto simp: store_le_def msg_le_refl)

lemma store_le_trans: "store_le a b \<Longrightarrow> store_le b c \<Longrightarrow> store_le a c"
  unfolding store_le_def by (blast intro: msg_le_trans)

lemma store_le_same: "cs_messages st' = cs_messages st \<Longrightarrow> store_le st st'"
  by (simp add: store_le_def get_message_def msg_le_refl)

lemma messages_ok_same: "messages_ok st \<Longrightarrow> cs_messages st' = cs_messages st \<Longrightarrow> messages_ok st'"
  unfolding messages_ok_def receipt_stored_def get_message_def by presburger

lemma get_put_message: "get_message k (put_message m st) = (if k = msg_id m then Some m else get_message k st)"
  by (simp add: get_message_def put_message_def)

lemma tables_put_message [simp]: "tables_ok (put_message m st) = tables_ok st"
  by (simp add: tables_ok_def put_message_def)

lemma msg_le_receipt: "msg_le m m' \<Longrightarrow> is_receipt m' = is_receipt m"
  by (simp add: msg_le_def is_receipt_def)

lemma receipt_stored_le:
  assumes "receipt_stored st m" "store_le st st'"
  shows "receipt_stored st' m"
  unfolding receipt_stored_def
proof (intro allI impI)
  fix r assume "sm_receipt m = Some r"
  with assms(1) obtain q where q: "get_message r st = Some q" "is_receipt q" "sm_outgoing q" unfolding receipt_stored_def by blast
  with assms(2) obtain q' where "get_message r st' = Some q'" "msg_le q q'" unfolding store_le_def by blast
  with q msg_le_receipt show "\<exists>q. get_message r st' = Some q \<and> is_receipt q \<and> sm_outgoing q" by (auto simp: msg_le_def)
qed

text \<open>Both kinds of write: a new message, and a later version of one that is there.\<close>

lemma put_new:
  assumes ok: "messages_ok st" and new: "get_message (msg_id m) st = None" and room: "length (cs_messages st) < 1000"
    and m: "local_ok m" "sm_receipt m = None"
  shows "messages_ok (put_message m st) \<and> store_le st (put_message m st)"
proof -
  have le: "store_le st (put_message m st)" unfolding store_le_def get_put_message using new by (auto simp: msg_le_refl)
  have "distinct (map fst (cs_messages (put_message m st)))" using ok by (simp add: messages_ok_def put_message_def)
  moreover have "length (cs_messages (put_message m st)) \<le> 1000" using room by (simp add: put_message_def length_put_entry)
  moreover have "k = msg_id m' \<and> local_ok m' \<and> receipt_stored (put_message m st) m'" if "get_message k (put_message m st) = Some m'" for k m'
  proof (cases "k = msg_id m")
    case True
    with that m show ?thesis by (auto simp: get_put_message receipt_stored_def)
  next
    case False
    with that have "get_message k st = Some m'" by (simp add: get_put_message)
    with ok receipt_stored_le [OF _ le] show ?thesis by (auto simp: messages_ok_def)
  qed
  ultimately show ?thesis using le by (simp add: messages_ok_def)
qed

lemma put_later:
  assumes ok: "messages_ok st" and old: "get_message k st = Some m" and le: "msg_le m m'" and m': "local_ok m'"
    and rec: "sm_receipt m' = sm_receipt m \<or> receipt_stored st m'"
  shows "messages_ok (put_message m' st) \<and> store_le st (put_message m' st)"
proof -
  have id: "msg_id m' = k" using ok old le by (auto simp: messages_ok_def msg_le_def)
  have sle: "store_le st (put_message m' st)" unfolding store_le_def get_put_message id using old le by (auto simp: msg_le_refl)
  have "receipt_stored st m'" using rec ok old by (auto simp: messages_ok_def receipt_stored_def)
  note r' = receipt_stored_le [OF this sle]
  have "distinct (map fst (cs_messages (put_message m' st)))" using ok by (simp add: messages_ok_def put_message_def)
  moreover have "length (cs_messages (put_message m' st)) \<le> 1000"
    using ok old id by (simp add: messages_ok_def put_message_def length_put_entry get_message_def)
  moreover have "j = msg_id x \<and> local_ok x \<and> receipt_stored (put_message m' st) x" if "get_message j (put_message m' st) = Some x" for j x
  proof (cases "j = k")
    case True
    with that m' r' id show ?thesis by (auto simp: get_put_message)
  next
    case False
    with that id have "get_message j st = Some x" by (simp add: get_put_message)
    with ok receipt_stored_le [OF _ sle] show ?thesis by (auto simp: messages_ok_def)
  qed
  ultimately show ?thesis using sle by (simp add: messages_ok_def)
qed

definition good :: "chat_store \<Rightarrow> chat_store \<Rightarrow> bool" where
  "good st st' \<longleftrightarrow> store_ok st' \<and> store_le st st'"

lemma good_refl: "store_ok st \<Longrightarrow> good st st"
  by (simp add: good_def store_le_refl)

lemma good_trans: "good a b \<Longrightarrow> good b c \<Longrightarrow> good a c"
  unfolding good_def using store_le_trans by blast

lemma good_same: "store_ok st \<Longrightarrow> cs_messages st' = cs_messages st \<Longrightarrow> tables_ok st' \<Longrightarrow> good st st'"
  unfolding good_def store_ok_def using messages_ok_same store_le_same by blast

lemma good_later:
  assumes "store_ok st" "get_message k st = Some m" "msg_le m m'" "local_ok m'" "sm_receipt m' = sm_receipt m \<or> receipt_stored st m'"
  shows "good st (put_message m' st)"
  using put_later [of st k m m'] assms by (simp add: good_def store_ok_def)

lemma found_ok: "store_ok st \<Longrightarrow> get_message k st = Some m \<Longrightarrow> k = msg_id m \<and> local_ok m \<and> receipt_stored st m"
  by (simp add: store_ok_def messages_ok_def)

section \<open>Every operation keeps it\<close>

lemma edit_marks_same: "cs_messages (edit_marks m st) = cs_messages st" "tables_ok (edit_marks m st) = tables_ok st"
  by (auto simp: edit_marks_def tables_ok_def split: body.split option.split)

lemma add_inner_good:
  assumes ok: "store_ok st" and "add_inner m raw outgoing expires st = Inr (b, st')" and out: "expires = None \<or> outgoing"
  shows "good st st'" "\<exists>x. get_message (m_id m) st' = Some x \<and> (get_message (m_id m) st = None \<longrightarrow> sm_msg x = m \<and> sm_outgoing x = outgoing \<and> sm_receipt x = None)"
    "get_message (m_id m) st \<noteq> None \<Longrightarrow> st' = st" "\<And>k. k \<noteq> m_id m \<Longrightarrow> get_message k st' = get_message k st"
proof -
  define st1 where "st1 = (if outgoing then st else edit_marks m st)"
  have same: "cs_messages st1 = cs_messages st" "tables_ok st1 = tables_ok st" by (simp_all add: st1_def edit_marks_same)
  then have get: "get_message k st1 = get_message k st" for k by (simp add: get_message_def)
  let ?m = "new_message m raw outgoing expires"
  have id: "msg_id ?m = m_id m" and l: "local_ok ?m" "sm_receipt ?m = None" using out by (auto simp: new_message_def local_ok_def)
  have "good st st' \<and> (\<exists>x. get_message (m_id m) st' = Some x \<and>
      (get_message (m_id m) st = None \<longrightarrow> sm_msg x = m \<and> sm_outgoing x = outgoing \<and> sm_receipt x = None)) \<and>
      (get_message (m_id m) st \<noteq> None \<longrightarrow> st' = st) \<and> (\<forall>k. k \<noteq> m_id m \<longrightarrow> get_message k st' = get_message k st)"
  proof (cases "get_message (m_id m) st")
    case None
    with assms(2) have room: "length (cs_messages st1) < 1000" and st': "st' = put_message ?m st1"
      by (auto simp: add_inner_def st1_def edit_marks_same Let_def)
    have "messages_ok st1" "store_le st st1" using ok same messages_ok_same store_le_same by (auto simp: store_ok_def)
    with put_new [of st1 ?m] None room l ok same have "good st st'"
      unfolding st' good_def store_ok_def by (auto simp: get id intro: store_le_trans)
    moreover have "sm_msg ?m = m \<and> sm_outgoing ?m = outgoing \<and> sm_receipt ?m = None" by (simp add: new_message_def)
    ultimately show ?thesis using None unfolding st' get_put_message id get by auto
  next
    case (Some x)
    with assms(2) have "st' = st" by (simp add: add_inner_def)
    with Some ok show ?thesis by (simp add: good_refl)
  qed
  then show "good st st'" "\<exists>x. get_message (m_id m) st' = Some x \<and> (get_message (m_id m) st = None \<longrightarrow> sm_msg x = m \<and> sm_outgoing x = outgoing \<and> sm_receipt x = None)"
    "get_message (m_id m) st \<noteq> None \<Longrightarrow> st' = st" "\<And>k. k \<noteq> m_id m \<Longrightarrow> get_message k st' = get_message k st" by blast+
qed

lemma store_notice_good:
  assumes "store_ok st" "store_notice m e now st = Inr st'"
  shows "good st st'" "cs_messages st' = cs_messages st"
proof -
  let ?key = "notice_key (m_peer m) e"
  have room: "map_of (cs_notices st) ?key \<noteq> None \<or> length (cs_notices st) < 1000"
    using assms(2) by (auto simp: store_notice_def Let_def split: option.split_asm)
  obtain n where st': "st' = st \<or> st' = st\<lparr>cs_notices := put_entry ?key n (cs_notices st)\<rparr>"
    using assms(2) by (auto simp: store_notice_def Let_def split: if_split_asm)
  then show same: "cs_messages st' = cs_messages st" by auto
  have "length (cs_notices st') \<le> 1000" using st' room assms(1) by (auto simp: store_ok_def tables_ok_def length_put_entry)
  with st' assms(1) have "tables_ok st'" unfolding store_ok_def tables_ok_def by (elim disjE) simp_all
  then show "good st st'" by (rule good_same [OF assms(1) same])
qed

lemma requeue_good:
  assumes "store_ok st" "get_message k st = Some r" "is_receipt r" "sm_outgoing r"
  shows "good st (put_message (r\<lparr>sm_status := Queued, sm_attempt := None\<rparr>) st)"
  by (rule good_later [OF assms(1,2)]) (use found_ok [OF assms(1,2)] assms(3,4) in \<open>auto simp: msg_le_def local_ok_def\<close>)

lemma link_receipt_good:
  assumes ok: "store_ok st" and m: "get_message k st = Some m" "sm_receipt m = None"
    and r: "get_message r st = Some q" "is_receipt q" "sm_outgoing q"
  shows "good st (put_message (m\<lparr>sm_receipt := Some r\<rparr>) st)"
  by (rule good_later [OF ok m(1)])
    (use found_ok [OF ok m(1)] m(2) r in \<open>auto simp: msg_le_def status_le_def local_ok_def receipt_stored_def\<close>)

lemma new_receipt_stored:
  assumes ok: "store_ok st" and add: "add_inner r packed True None st = Inr (b, st')" and kind: "\<exists>t. m_body r = Stored t"
    and apart: "\<And>q. get_message (m_id r) st = Some q \<Longrightarrow> is_receipt q \<and> sm_outgoing q"
  shows "\<exists>q. get_message (m_id r) st' = Some q \<and> is_receipt q \<and> sm_outgoing q"
proof (cases "get_message (m_id r) st")
  case None
  with add_inner_good(2) [OF ok add] kind show ?thesis by (auto simp: is_receipt_def)
next
  case (Some q)
  with add_inner_good(3) [OF ok add] apart show ?thesis by auto
qed

lemma queue_receipt_good:
  assumes ok: "store_ok st" and q: "queue_receipt k existing receipt st = Inr st'"
    and m: "get_message k st = Some m" "existing = Some m \<or> existing = None \<and> sm_receipt m = None"
    and apart: "\<And>r packed. receipt = Inr (r, packed) \<Longrightarrow> (\<exists>t. m_body r = Stored t) \<and> m_id r \<noteq> k \<and>
      (\<forall>q. get_message (m_id r) st = Some q \<longrightarrow> is_receipt q \<and> sm_outgoing q)"
  shows "good st st'"
proof (cases "sm_receipt m")
  case None
  with m(2) have "Option.bind existing sm_receipt = None" by auto
  with q obtain r packed b st1 saved where r: "receipt = Inr (r, packed)" and add: "add_inner r packed True None st = Inr (b, st1)"
    and saved: "get_message k st1 = Some saved" and st': "st' = put_message (saved\<lparr>sm_receipt := Some (m_id r)\<rparr>) st1"
    by (auto simp: queue_receipt_def split: option.split_asm)
  note a = apart [OF r] and g = add_inner_good [OF ok add]
  have "store_ok st1" and "good st st1" using g(1) by (auto simp: good_def)
  have "saved = m" using g(4) [of k] a m(1) saved by auto
  moreover obtain q where "get_message (m_id r) st1 = Some q" "is_receipt q" "sm_outgoing q" using new_receipt_stored [OF ok add] a by blast
  ultimately have "good st1 st'" unfolding st' using link_receipt_good [OF \<open>store_ok st1\<close> saved] None by simp
  with \<open>good st st1\<close> show ?thesis by (rule good_trans)
next
  case (Some rid)
  with m(2) have "existing = Some m" by auto
  moreover obtain r where r: "get_message rid st = Some r" "is_receipt r" "sm_outgoing r"
    using found_ok [OF ok m(1)] Some unfolding receipt_stored_def by blast
  ultimately have "st' = st \<or> st' = put_message (r\<lparr>sm_status := Queued, sm_attempt := None\<rparr>) st"
    using q Some by (simp add: queue_receipt_def split: if_split_asm)
  then show ?thesis using good_refl [OF ok] requeue_good [OF ok r] by metis
qed

lemma commit_received_good:
  assumes ok: "store_ok st" and c: "commit_received m raw receipt now st = Inr (b, st')" and apart: "receipt_apart st m receipt"
  shows "good st st'"
proof -
  obtain st1 st2 where n: "(case m_body m of Service e \<Rightarrow> store_notice m e now st | _ \<Rightarrow> Inr st) = Inr st1"
    and add: "add_inner m raw False None st1 = Inr (b, st2)"
    and rest: "receipt = None \<and> st' = st2 \<or> (\<exists>f. receipt = Some f \<and> queue_receipt (m_id m) (get_message (m_id m) st) f st2 = Inr st')"
    using c by (cases receipt) (auto simp: commit_received_def Let_def)
  have g1: "good st st1" and same: "cs_messages st1 = cs_messages st"
    using n store_notice_good [OF ok] good_refl [OF ok] by (auto split: body.split_asm)
  have ok1: "store_ok st1" using g1 by (simp add: good_def)
  have get: "get_message k st1 = get_message k st" for k using same by (simp add: get_message_def)
  note g2 = add_inner_good [OF ok1 add, simplified]
  have ok2: "store_ok st2" using g2(1) by (simp add: good_def)
  have "good st2 st'" using rest
  proof (elim disjE exE conjE)
    fix f assume f: "receipt = Some f" "queue_receipt (m_id m) (get_message (m_id m) st) f st2 = Inr st'"
    obtain x where x: "get_message (m_id m) st2 = Some x" "get_message (m_id m) st = None \<longrightarrow> sm_receipt x = None"
      using g2(2) get by auto
    moreover have "get_message (m_id m) st = Some x \<or> get_message (m_id m) st = None \<and> sm_receipt x = None"
      using x g2(3) get by (cases "get_message (m_id m) st") auto
    ultimately show ?thesis
      by (rule_tac queue_receipt_good [OF ok2 f(2)]) (use apart g2(4) f(1) get in \<open>auto simp: receipt_apart_def\<close>)
  qed (simp add: good_refl [OF ok2])
  with g1 g2(1) show ?thesis by (blast intro: good_trans)
qed

lemma accept_stored_receipt_good:
  assumes ok: "store_ok st" and "accept_stored_receipt r target st = Inr (b, st')"
  shows "good st st'"
proof -
  obtain m where m: "get_message target st = Some m" and out: "sm_outgoing m"
    and st': "st' = put_message (m\<lparr>sm_status := RecipientStored, sm_attempt := None\<rparr>) st"
    using assms(2) by (cases "get_message target st") (auto simp: accept_stored_receipt_def)
  show ?thesis unfolding st'
    by (rule good_later [OF ok m]) (use found_ok [OF ok m] out in \<open>auto simp: msg_le_def status_le_def local_ok_def\<close>)
qed

lemma begin_attempt_good:
  assumes ok: "store_ok st" and "begin_attempt ident fresh st = Inr (x, st')"
  shows "good st st'"
proof -
  obtain m where m: "get_message ident st = Some m" and s: "sm_outgoing m" "sm_status m \<notin> {Delivered, RecipientStored, Expired}"
    and st': "st' = put_message (m\<lparr>sm_status := Sending, sm_attempt := Some (cs_epoch st @ '':'' @ fresh)\<rparr>) st"
    using assms(2) by (cases "get_message ident st") (auto simp: begin_attempt_def Let_def)
  show ?thesis unfolding st'
    by (rule good_later [OF ok m]) (use found_ok [OF ok m] s in \<open>auto simp: msg_le_def status_le_def local_ok_def\<close>)
qed

lemma relay_blob_good:
  assumes ok: "store_ok st" and r: "relay_blob ident create st = Inr (x, st')"
  shows "good st st'"
proof -
  obtain m where m: "get_message ident st = Some m" using r by (cases "get_message ident st") (auto simp: relay_blob_def)
  show ?thesis
  proof (cases "sm_blob m")
    case None
    then obtain blob where st': "st' = put_message (m\<lparr>sm_blob := Some blob\<rparr>) st" using r m by (auto simp: relay_blob_def)
    show ?thesis unfolding st'
      by (rule good_later [OF ok m]) (use found_ok [OF ok m] None in \<open>auto simp: msg_le_def status_le_def local_ok_def\<close>)
  next
    case (Some blob)
    with r m have "st' = st" by (auto simp: relay_blob_def)
    then show ?thesis by (simp add: good_refl [OF ok])
  qed
qed

lemma finish_attempt_good:
  assumes ok: "store_ok st" and f: "finish_attempt ident token delivered relayed now st = Inr (b, st')"
  shows "good st st'"
proof (cases "get_message ident st")
  case None
  with f ok show ?thesis by (auto simp: finish_attempt_def good_refl)
next
  case (Some m)
  define s where "s = (if delivered then Delivered else if relayed then Relayed else Queued)"
  have ends: "s \<noteq> Sending \<and> s \<noteq> Received" by (simp add: s_def)
  define n where "n = min (sm_relays m + 1) 7"
  have n: "n \<le> 7" "sm_relays m \<le> 7 \<longrightarrow> sm_relays m \<le> n" by (auto simp: n_def)
  have "st' = st \<or> sm_status m = Sending \<and>
      (st' = put_message (m\<lparr>sm_status := s, sm_attempt := None, sm_relays := n, sm_retry_at := now + retry_delay n\<rparr>) st \<or>
       st' = put_message (m\<lparr>sm_status := s, sm_attempt := None\<rparr>) st)"
    using f Some unfolding finish_attempt_def s_def n_def Let_def by (auto split: if_split_asm)
  then consider "st' = st"
  | due where "sm_status m = Sending" "st' = put_message (m\<lparr>sm_status := s, sm_attempt := None, sm_relays := n, sm_retry_at := due\<rparr>) st"
  | "sm_status m = Sending" "st' = put_message (m\<lparr>sm_status := s, sm_attempt := None\<rparr>) st" by blast
  then show ?thesis
  proof cases
    case (2 due)
    show ?thesis unfolding 2(2)
      by (rule good_later [OF ok Some]) (use found_ok [OF ok Some] ends n 2 in \<open>auto simp: msg_le_def status_le_def local_ok_def\<close>)
  next
    case 3
    show ?thesis unfolding 3(2)
      by (rule good_later [OF ok Some]) (use found_ok [OF ok Some] ends 3 in \<open>auto simp: msg_le_def status_le_def local_ok_def\<close>)
  qed (simp add: good_refl [OF ok])
qed

lemma expire_message_ok: "local_ok m \<Longrightarrow> local_ok (expire_message now m) \<and> msg_le m (expire_message now m)"
  "msg_id (expire_message now m) = msg_id m" "sm_receipt (expire_message now m) = sm_receipt m"
  by (auto simp: expire_message_def local_ok_def msg_le_def status_le_def split: option.split_asm)

lemma pending_outbox_good:
  assumes ok: "store_ok st"
  shows "good st (snd (pending_outbox now st))"
proof -
  let ?st = "snd (pending_outbox now st)"
  have get: "get_message k ?st = map_option (expire_message now) (get_message k st)" for k
    by (simp add: get_message_def pending_outbox_def Let_def map_of_map)
  have le: "store_le st ?st" using found_ok [OF ok] expire_message_ok(1) by (auto simp: store_le_def get)
  have r: "receipt_stored ?st (expire_message now m)" if "get_message k st = Some m" for k m
    using receipt_stored_le [OF _ le, of m] found_ok [OF ok that] by (simp add: receipt_stored_def expire_message_ok)
  have "map fst (cs_messages ?st) = map fst (cs_messages st)" "tables_ok ?st = tables_ok st"
    by (auto simp: pending_outbox_def Let_def tables_ok_def)
  moreover from this have "length (cs_messages ?st) = length (cs_messages st)" by (metis length_map)
  ultimately have "store_ok ?st" using ok found_ok [OF ok] r expire_message_ok
    unfolding store_ok_def messages_ok_def get by auto
  with le show ?thesis by (simp add: good_def)
qed

lemma map_of_remove: "map_of (filter (\<lambda>(a, _). a \<noteq> x) t) = (map_of t)(x := None)"
  by (induction t) (auto simp: fun_eq_iff)

lemma dom_Some: "dom f \<subseteq> dom g \<Longrightarrow> f x = Some y \<Longrightarrow> \<exists>z. g x = Some z"
  by blast

lemma contact_tables:
  assumes "tables_ok st"
  shows "save_contact address public st = Inr st' \<Longrightarrow> tables_ok st'" "rename_contact address name st = Inr st' \<Longrightarrow> tables_ok st'"
    "pin_service_publisher address public st = Inr st' \<Longrightarrow> tables_ok st'"
  using assms unfolding tables_ok_def save_contact_def rename_contact_def pin_service_publisher_def
  by (auto simp: length_put_entry map_of_remove split: if_split_asm dest: dom_Some)

lemma service_tables:
  assumes "tables_ok st"
  shows "inbox_mark ids flag st = Inr st' \<Longrightarrow> tables_ok st'" "service_mark ids flag st = Inr st' \<Longrightarrow> tables_ok st'"
    "import_events es st = Inr st' \<Longrightarrow> tables_ok st'" "tables_ok (snd (inbox st))" "tables_ok (reopen epoch st)"
    "accept_confirmed_subscription status device confirmed event st = Inr (b, st') \<Longrightarrow> tables_ok st'"
  using assms unfolding tables_ok_def inbox_mark_def service_mark_def import_events_def inbox_def reopen_def accept_confirmed_subscription_def
  by clarsimp+

lemma same_messages:
  "save_contact address public st = Inr st' \<Longrightarrow> cs_messages st' = cs_messages st"
  "rename_contact address name st = Inr st' \<Longrightarrow> cs_messages st' = cs_messages st"
  "pin_service_publisher address public st = Inr st' \<Longrightarrow> cs_messages st' = cs_messages st"
  "inbox_mark ids flag st = Inr st' \<Longrightarrow> cs_messages st' = cs_messages st"
  "service_mark ids flag st = Inr st' \<Longrightarrow> cs_messages st' = cs_messages st"
  "import_events es st = Inr st' \<Longrightarrow> cs_messages st' = cs_messages st"
  "accept_confirmed_subscription status device confirmed event st = Inr (b, st') \<Longrightarrow> cs_messages st' = cs_messages st"
  "cs_messages (snd (inbox st)) = cs_messages st" "cs_messages (reopen epoch st) = cs_messages st"
  by (auto simp: save_contact_def rename_contact_def pin_service_publisher_def inbox_mark_def service_mark_def import_events_def
      accept_confirmed_subscription_def inbox_def reopen_def)

lemma chat_step_good:
  assumes "chat_step st st'" "store_ok st"
  shows "good st st'"
proof -
  have t: "tables_ok st" using assms(2) by (simp add: store_ok_def)
  note same = good_same [OF assms(2)]
  from assms show ?thesis
  proof cases
    case step_add
    then show ?thesis using add_inner_good(1) [OF assms(2)] by (auto simp: add_message_def)
  next
    case step_receive
    then show ?thesis using commit_received_good [OF assms(2)] by blast
  next
    case step_stored
    then show ?thesis using accept_stored_receipt_good [OF assms(2)] by blast
  next
    case step_begin
    then show ?thesis using begin_attempt_good [OF assms(2)] by blast
  next
    case step_blob
    then show ?thesis using relay_blob_good [OF assms(2)] by blast
  next
    case step_finish
    then show ?thesis using finish_attempt_good [OF assms(2)] by blast
  qed (simp_all add: same same_messages contact_tables [OF t] service_tables [OF t] pending_outbox_good [OF assms(2)])
qed

lemma empty_store_ok: "store_ok (empty_store epoch)"
  by (simp add: store_ok_def messages_ok_def tables_ok_def empty_store_def get_message_def)

interpretation cst: progress_system chat_init chat_step store_ok store_le
proof unfold_locales
  show "chat_init s \<Longrightarrow> store_ok s" for s by (auto simp: chat_init_def empty_store_ok)
  show "store_ok s \<Longrightarrow> chat_step s t \<Longrightarrow> store_ok t" for s t using chat_step_good by (simp add: good_def)
  show "store_le s s" for s by (rule store_le_refl)
  show "store_le s t \<Longrightarrow> store_le t u \<Longrightarrow> store_le s u" for s t u by (rule store_le_trans)
  show "store_ok s \<Longrightarrow> chat_step s t \<Longrightarrow> store_le s t" for s t using chat_step_good by (simp add: good_def)
qed

section \<open>Properties\<close>

text \<open>C28. In every reachable store the quotas hold: at most 1000 messages with different ids, 1000 notices, 1000 feed events, 100
  contacts and 4 publishers; only contacts have names; a message is in state received exactly if it came in, it has an attempt token exactly
  while it is being sent, and a message marked as acknowledged has its storage receipt among the outgoing messages.\<close>

theorem chat_store_is_bounded:
  assumes "reach chat_init chat_step st"
  shows "length (cs_messages st) \<le> 1000 \<and> distinct (map fst (cs_messages st)) \<and> length (cs_notices st) \<le> 1000 \<and> length (cs_events st) \<le> 1000 \<and>
    length (cs_contacts st) \<le> 100 \<and> length (cs_publishers st) \<le> 4 \<and> dom (map_of (cs_names st)) \<subseteq> dom (map_of (cs_contacts st)) \<and>
    (\<forall>k m. get_message k st = Some m \<longrightarrow> k = msg_id m \<and> (sm_outgoing m \<longleftrightarrow> sm_status m \<noteq> Received) \<and>
      (sm_status m = Sending \<longleftrightarrow> sm_attempt m \<noteq> None) \<and>
      (\<forall>r. sm_receipt m = Some r \<longrightarrow> (\<exists>q t. get_message r st = Some q \<and> msg_body q = Stored t \<and> sm_outgoing q)))"
  using cst.reach_inv [OF assms] unfolding store_ok_def messages_ok_def tables_ok_def local_ok_def receipt_stored_def is_receipt_def by blast

text \<open>C29. Whatever is done with the store, a message is never lost: its content, its signed bytes, its direction and its expiry stay; the
  envelope made for the relay and the receipt linked to it stay once they are there; and unless it is itself a storage receipt, a message
  the recipient has stored stays so, and one delivered or expired only becomes stored by the recipient.\<close>

theorem chat_messages_only_progress:
  assumes "reach chat_init chat_step st" "steps chat_step st st'" "get_message k st = Some m"
  shows "\<exists>m'. get_message k st' = Some m' \<and> sm_msg m' = sm_msg m \<and> sm_packed m' = sm_packed m \<and> sm_outgoing m' = sm_outgoing m \<and>
    sm_expires m' = sm_expires m \<and> (sm_blob m \<noteq> None \<longrightarrow> sm_blob m' = sm_blob m) \<and> (sm_receipt m \<noteq> None \<longrightarrow> sm_receipt m' = sm_receipt m) \<and>
    ((\<forall>t. msg_body m \<noteq> Stored t) \<longrightarrow> (sm_status m = RecipientStored \<longrightarrow> sm_status m' = RecipientStored) \<and>
      (sm_status m \<in> {Delivered, Expired} \<longrightarrow> sm_status m' \<in> {sm_status m, RecipientStored}))"
proof -
  have "store_le st st'" by (rule cst.steps_le [OF assms(2) cst.reach_inv [OF assms(1)]])
  with assms(3) obtain m' where "get_message k st' = Some m'" "msg_le m m'" unfolding store_le_def by blast
  then show ?thesis unfolding msg_le_def status_le_def is_receipt_def by blast
qed

section \<open>What the user sees of an edited message\<close>

text \<open>The edits of a message, and the first of those with the highest revision.\<close>

definition edit_for :: "smsg \<Rightarrow> smsg \<Rightarrow> bool" where
  "edit_for m e \<longleftrightarrow> edit_applies e (shown_message m)"

definition latest_edit :: "smsg list \<Rightarrow> smsg \<Rightarrow> smsg option" where
  "latest_edit es m = (let edits = filter (edit_for m) es in find (\<lambda>e. edit_revision e = Max (set (map edit_revision edits))) edits)"

definition shown_as :: "smsg list \<Rightarrow> smsg \<Rightarrow> visible" where
  "shown_as es m = (case latest_edit es m of None \<Rightarrow> shown_message m | Some e \<Rightarrow> apply_edit e (shown_message m))"

lemma find_Max:
  fixes f :: "'a \<Rightarrow> int"
  assumes "xs \<noteq> []"
  shows "\<exists>x. find (\<lambda>x. f x = Max (set (map f xs))) xs = Some x \<and> x \<in> set xs \<and> f x = Max (set (map f xs))"
proof (cases "find (\<lambda>x. f x = Max (set (map f xs))) xs")
  case None
  moreover have "Max (set (map f xs)) \<in> set (map f xs)" using assms by (intro Max_in) auto
  ultimately show ?thesis unfolding find_None_iff by auto
next
  case (Some x)
  then show ?thesis by (auto simp: find_Some_iff)
qed

lemma find_append: "find P (xs @ ys) = (case find P xs of None \<Rightarrow> find P ys | Some x \<Rightarrow> Some x)"
  by (induction xs) auto

lemma find_Max_snoc:
  fixes f :: "'a \<Rightarrow> int"
  shows "find (\<lambda>x. f x = Max (set (map f (xs @ [y])))) (xs @ [y]) =
    (if xs = [] \<or> Max (set (map f xs)) < f y then Some y else find (\<lambda>x. f x = Max (set (map f xs))) xs)"
proof (cases "xs = []")
  case False
  have M: "Max (set (map f (xs @ [y]))) = max (f y) (Max (set (map f xs)))" using False by simp
  show ?thesis
  proof (cases "Max (set (map f xs)) < f y")
    case True
    have "f x < f y" if "x \<in> set xs" for x
    proof (rule le_less_trans)
      show "f x \<le> Max (set (map f xs))" using that by (intro Max_ge) auto
    qed (rule True)
    then have "find (\<lambda>x. f x = f y) xs = None" unfolding find_None_iff by fastforce
    with True M show ?thesis by (simp add: find_append)
  next
    case False
    then have "Max (set (map f (xs @ [y]))) = Max (set (map f xs))" using M by simp
    with False \<open>xs \<noteq> []\<close> find_Max [OF \<open>xs \<noteq> []\<close>, of f] show ?thesis by (auto simp: find_append)
  qed
qed simp

lemma apply_edit_frame:
  "msg_id (vi_msg (apply_edit e v)) = msg_id (vi_msg v)" "msg_peer (vi_msg (apply_edit e v)) = msg_peer (vi_msg v)"
  "msg_body (vi_msg (apply_edit e v)) = msg_body (vi_msg v)" "sm_outgoing (vi_msg (apply_edit e v)) = sm_outgoing (vi_msg v)"
  by (simp_all add: apply_edit_def Let_def)

lemma applies_after:
  assumes "edit_for m d"
  shows "edit_applies e (apply_edit d (shown_message m)) \<longleftrightarrow> edit_for m e \<and> edit_revision d < edit_revision e"
proof -
  have r: "vi_revision (apply_edit d (shown_message m)) = edit_revision d" "0 < edit_revision d"
    using assms by (auto simp: edit_for_def apply_edit_def edit_applies_def edit_revision_def shown_message_def split: body.split_asm)
  show ?thesis
  proof (cases "msg_body e")
    case (Edit t n)
    then have "edit_revision e = n" by (simp add: edit_revision_def)
    with Edit r show ?thesis unfolding edit_for_def edit_applies_def apply_edit_frame by (auto simp: shown_message_def)
  qed (simp_all add: edit_for_def edit_applies_def)
qed

lemma apply_edit_again: "edit_for m d \<Longrightarrow> edit_for m e \<Longrightarrow> edit_applies e (apply_edit d (shown_message m)) \<Longrightarrow>
    apply_edit e (apply_edit d (shown_message m)) = apply_edit e (shown_message m)"
  unfolding edit_for_def by (simp add: apply_edit_def Let_def shown_message_def)

lemma fold_apply_edit: "fold apply_edit es (shown_message m) = shown_as es m"
proof (induction es rule: rev_induct)
  case (snoc e es)
  let ?edits = "filter (edit_for m) es"
  show ?case
  proof (cases "?edits = []")
    case True
    then have "shown_as es m = shown_message m" by (simp add: shown_as_def latest_edit_def)
    with snoc True show ?thesis by (auto simp: shown_as_def latest_edit_def apply_edit_def edit_for_def)
  next
    case False
    from find_Max [OF False, of edit_revision] obtain d where d: "latest_edit es m = Some d" "edit_for m d"
      "edit_revision d = Max (set (map edit_revision ?edits))" by (auto simp: latest_edit_def Let_def)
    have l: "latest_edit (es @ [e]) m = (if edit_for m e \<and> edit_revision d < edit_revision e then Some e else Some d)"
      using find_Max_snoc [of edit_revision ?edits e] d False by (auto simp: latest_edit_def Let_def)
    show ?thesis
    proof (cases "edit_for m e \<and> edit_revision d < edit_revision e")
      case True
      with l snoc d show ?thesis by (simp add: shown_as_def apply_edit_again applies_after)
    next
      case False
      with applies_after [OF d(2), of e] have "apply_edit e (apply_edit d (shown_message m)) = apply_edit d (shown_message m)"
        unfolding apply_edit_def [of e] by simp
      moreover have "latest_edit (es @ [e]) m = Some d" using False l by (rule_tac trans) (assumption, rule if_not_P)
      ultimately show ?thesis using snoc d(1) by (simp add: shown_as_def)
    qed
  qed
qed (simp add: shown_as_def latest_edit_def)

text \<open>C30. Applying the edits one after another in history order shows every message as its first edit with the highest revision has it:
  edits by another peer, of the other direction or of a recording, and older revisions that arrive late, have no effect.\<close>

theorem visible_is_latest_edit:
  "visible_messages st = map (shown_as (messages st)) (filter (\<lambda>m. \<not> hidden (msg_body m)) (messages st))"
proof -
  have "fold (\<lambda>e vs. map (apply_edit e) vs) es (map shown_message ms) = map (\<lambda>m. fold apply_edit es (shown_message m)) ms" for es ms
    by (induction es rule: rev_induct) simp_all
  then show ?thesis unfolding visible_messages_def fold_apply_edit by simp
qed

section \<open>A message that is sent, stored by the recipient and shown\<close>

definition demo_message :: message where
  "demo_message = \<lparr>m_id = ''01'', m_peer = ''aa'', m_text = ''hello'', m_time = 1, m_body = Text\<rparr>"

definition demo_receipt :: message where
  "demo_receipt = \<lparr>m_id = ''02'', m_peer = ''aa'', m_text = [], m_time = 2, m_body = Stored ''01''\<rparr>"

definition demo_sent :: "chat_store chres" where
  "demo_sent = bind_res (add_message demo_message (replicate 97 (CHR ''x'')) True (Some 9) (empty_store ''e'')) (\<lambda>(_, st). Inr st)"

definition demo_acked :: "chat_store chres" where
  "demo_acked = bind_res demo_sent (\<lambda>st. bind_res (accept_stored_receipt demo_receipt ''01'' st) (\<lambda>(_, st). Inr st))"

lemma demo_sent_inner:
  "demo_sent = bind_res (add_inner demo_message (replicate 97 (CHR ''x'')) True (Some 9) (empty_store ''e'')) (\<lambda>(_, st). Inr st)"
  by (simp add: demo_sent_def add_message_def packed_ok_def check_def)

lemma demo_acked_inner:
  "demo_acked = bind_res (bind_res (add_inner demo_message (replicate 97 (CHR ''x'')) True (Some 9) (empty_store ''e'')) (\<lambda>(_, st). Inr st))
     (\<lambda>st. bind_res (accept_stored_receipt demo_receipt ''01'' st) (\<lambda>(_, st). Inr st))"
  unfolding demo_acked_def demo_sent_inner ..

lemma demo_acked_status:
  "bind_res demo_acked (\<lambda>st. Inr (map_option (\<lambda>m. (sm_status m, msg_body m)) (get_message ''01'' st))) = Inr (Some (RecipientStored, Text))"
  unfolding demo_acked_inner by code_simp

lemma demo_acked_reach: "\<exists>st. demo_acked = Inr st \<and> reach chat_init chat_step st \<and>
    (\<exists>m. get_message ''01'' st = Some m \<and> sm_status m = RecipientStored \<and> msg_body m = Text)"
proof -
  obtain st m where st: "demo_acked = Inr st" "get_message ''01'' st = Some m" "sm_status m = RecipientStored" "msg_body m = Text"
    using demo_acked_status by auto
  then obtain st1 b1 b2 where 1: "add_message demo_message (replicate 97 (CHR ''x'')) True (Some 9) (empty_store ''e'') = Inr (b1, st1)"
    and 2: "accept_stored_receipt demo_receipt ''01'' st1 = Inr (b2, st)"
    by (auto simp: demo_acked_def demo_sent_def)
  have "reach chat_init chat_step (empty_store ''e'')" by (rule reach_init) (auto simp: chat_init_def)
  then have "reach chat_init chat_step st1" by (rule reach_step) (rule step_add [OF 1], simp)
  then have "reach chat_init chat_step st" by (rule reach_step) (rule step_stored [OF 2])
  with st show ?thesis by blast
qed

theorem chat_store_is_bounded_witness:
  "\<exists>st. demo_acked = Inr st \<and> length (cs_messages st) \<le> 1000 \<and> (\<exists>m. get_message ''01'' st = Some m \<and> sm_outgoing m)"
proof -
  obtain st m where st: "demo_acked = Inr st" "reach chat_init chat_step st" "get_message ''01'' st = Some m" "sm_status m = RecipientStored"
    "msg_body m = Text" using demo_acked_reach by auto
  with chat_store_is_bounded [OF st(2)] show ?thesis by auto
qed

theorem chat_messages_only_progress_witness:
  "\<exists>st m'. demo_acked = Inr st \<and> get_message ''01'' (snd (pending_outbox 20 st)) = Some m' \<and> sm_status m' \<in> {RecipientStored, Received}"
proof -
  obtain st m where st: "demo_acked = Inr st" "reach chat_init chat_step st" "get_message ''01'' st = Some m" "sm_status m = RecipientStored"
    "msg_body m = Text" using demo_acked_reach by auto
  have "steps chat_step st (snd (pending_outbox 20 st))" by (rule step_steps) (rule step_pending)
  from chat_messages_only_progress [OF st(2) this st(3)] obtain m' where m': "get_message ''01'' (snd (pending_outbox 20 st)) = Some m'"
    "sm_msg m' = sm_msg m" "(\<forall>t. msg_body m \<noteq> Stored t) \<longrightarrow> sm_status m' = RecipientStored" using st(4) by auto
  with st m' show ?thesis by auto
qed

section \<open>Attempts\<close>









end
