(* ===== verification/Chat_Relay_Props.thy ===== *)
theory Chat_Relay_Props
  imports Chat_Relay
begin

text \<open>The relay stays within its limits, keeps its members apart and bounds what a member may store per second.\<close>

section \<open>The spool stays within its limits\<close>

definition spool_ok :: "(string \<Rightarrow> string) \<Rightarrow> spool_limits \<Rightarrow> spool_row list \<Rightarrow> bool" where
  "spool_ok digest lims rows \<longleftrightarrow> distinct (map sr_id rows) \<and> int (length rows) \<le> sl_messages lims \<and> row_bytes rows \<le> sl_bytes lims \<and>
     (\<forall>s. int (length (sender_rows s rows)) \<le> sl_sender_messages lims \<and> row_bytes (sender_rows s rows) \<le> sl_sender_bytes lims) \<and>
     (\<forall>r\<in>set rows. sr_id r = digest (sr_body r) \<and> sr_recipient r = take 16 (sr_body r) \<and> 112 \<le> length (sr_body r) \<and> length (sr_body r) \<le> max_blob)"

lemma row_bytes_filter: "row_bytes (filter P rows) \<le> row_bytes rows"
  by (induction rows) (auto simp: row_bytes_def)

lemma spool_ok_filter:
  assumes "spool_ok digest lims rows"
  shows "spool_ok digest lims (filter P rows)"
proof -
  have "sender_rows s (filter P rows) = filter P (sender_rows s rows)" for s by (simp add: sender_rows_def conj_commute)
  moreover have "int (length (filter P xs)) \<le> n" if "int (length xs) \<le> n" for xs :: "spool_row list" and n
    using length_filter_le [of P xs] that by linarith
  moreover have "row_bytes (filter P xs) \<le> n" if "row_bytes xs \<le> n" for xs n using row_bytes_filter [of P xs] that by linarith
  moreover have "distinct (map sr_id (filter P rows))" using assms by (simp add: spool_ok_def distinct_map_filter)
  ultimately show ?thesis using assms unfolding spool_ok_def by auto
qed

lemma spool_ok_expire: "spool_ok digest lims rows \<Longrightarrow> spool_ok digest lims (expire_rows lims now rows)"
  unfolding expire_rows_def by (rule spool_ok_filter)

lemma find_id_None: "find (\<lambda>r. sr_id r = i) rows = None \<longleftrightarrow> i \<notin> sr_id ` set rows"
  unfolding find_None_iff by auto

lemma spool_put_Inr:
  assumes "spool_put digest lims sender blob now received reading writing rows = Inr (ident, rows')"
  shows "ident = digest blob \<and> (rows' = expire_rows lims now rows \<or>
    spool_room lims sender blob (expire_rows lims now rows) \<and> ident \<notin> sr_id ` set (expire_rows lims now rows) \<and> 112 \<le> length blob \<and> length blob \<le> max_blob \<and>
    rows' = expire_rows lims now rows @ [\<lparr>sr_id = ident, sr_sender = sender, sr_recipient = take 16 blob, sr_received = received, sr_body = blob\<rparr>])"
proof (cases "find (\<lambda>r. sr_id r = digest blob) (expire_rows lims now rows)")
  case None
  with assms show ?thesis unfolding spool_put_def Let_def
    by (cases writing) (auto simp: find_id_None [symmetric] split: db_fault.split_asm)
next
  case (Some r)
  with assms show ?thesis by (auto simp: spool_put_def Let_def)
qed

lemma spool_ok_put:
  assumes "spool_ok digest lims rows" "spool_put digest lims sender blob now received reading writing rows = Inr (ident, rows')"
  shows "spool_ok digest lims rows'"
proof -
  have ok: "spool_ok digest lims (expire_rows lims now rows)" by (rule spool_ok_expire [OF assms(1)])
  from spool_put_Inr [OF assms(2)] show ?thesis
  proof (elim conjE disjE)
    assume "rows' = expire_rows lims now rows"
    with ok show ?thesis by simp
  next
    let ?r = "\<lparr>sr_id = ident, sr_sender = sender, sr_recipient = take 16 blob, sr_received = received, sr_body = blob\<rparr>"
    let ?kept = "expire_rows lims now rows"
    assume new: "ident = digest blob" "spool_room lims sender blob ?kept" "ident \<notin> sr_id ` set ?kept" "112 \<le> length blob" "length blob \<le> max_blob"
      and rows': "rows' = ?kept @ [?r]"
    have "sender_rows s rows' = sender_rows s ?kept @ (if s = sender then [?r] else [])" for s by (simp add: rows' sender_rows_def)
    moreover have "row_bytes (xs @ ys) = row_bytes xs + row_bytes ys" for xs ys by (simp add: row_bytes_def)
    moreover have "row_bytes [?r] = int (length blob)" "row_bytes [] = 0" by (simp_all add: row_bytes_def)
    ultimately show ?thesis using ok new unfolding spool_ok_def rows' spool_room_def by auto
  qed
qed

lemma spool_get_Inr:
  assumes "spool_get lims recipient data now fault rows = Inr (items, rows')"
  shows "(items = listing recipient (expire_rows lims now rows) \<and> rows' = expire_rows lims now rows \<or>
     (\<exists>haves wants budget. rows' = purge recipient haves (expire_rows lims now rows) \<and> budget \<le> 192000 \<and> items = fetch rows' recipient budget 0 wants))"
proof -
  from assms obtain w h b budget wants haves where "transfer_budget b = Inr budget"
    and c: "(if wants = None \<and> haves = None then Inr (listing recipient (expire_rows lims now rows), expire_rows lims now rows)
      else let left = purge recipient (case haves of None \<Rightarrow> [] | Some js \<Rightarrow> js) (expire_rows lims now rows) in
       Inr (fetch left recipient budget 0 (unique (case wants of None \<Rightarrow> [] | Some js \<Rightarrow> js)), left)) = (Inr (items, rows') :: (string list \<times> spool_row list) spres)"
    unfolding spool_get_def by (auto simp: Let_def)
  then have "budget \<le> 192000" by (auto simp: transfer_budget_def split: mval.split_asm)
  with c show ?thesis by (auto simp: Let_def split: if_split_asm)
qed

lemma spool_ok_get:
  assumes "spool_ok digest lims rows" "spool_get lims recipient data now fault rows = Inr (items, rows')"
  shows "spool_ok digest lims rows'"
  using spool_get_Inr [OF assms(2)] spool_ok_expire [OF assms(1), of now] spool_ok_filter [of digest lims "expire_rows lims now rows"]
  unfolding purge_def by blast

text \<open>What one request does to the table: nothing, a stored ciphertext, or a member reading its mailbox.\<close>

lemma respond_cases:
  obtains "rl_rows (snd (respond env lims allowed q st)) = rl_rows st" "\<forall>items. fst (respond env lims allowed q st) \<noteq> Items items"
    "\<forall>i. fst (respond env lims allowed q st) \<noteq> RStored i"
  | who blob ident rows where "rq_who q = Some who" "map_of allowed who \<noteq> None" "rq_path q = put_path" "take 16 blob \<in> snd ` set allowed"
    "spool_put (rl_digest env) lims who blob (rq_now q) (rq_received q) (rq_reading q) (rq_writing q) (rl_rows st) = Inr (ident, rows)"
    "rl_rows (snd (respond env lims allowed q st)) = rows" "fst (respond env lims allowed q st) = RStored ident"
  | who own items rows where "rq_who q = Some who" "map_of allowed who = Some own" "rq_path q = rl_get_path env"
    "spool_get lims own (rq_data q) (rq_now q) (rq_reading q) (rl_rows st) = Inr (items, rows)"
    "respond env lims allowed q st = (Items items, st\<lparr>rl_rows := rows\<rparr>)"
proof (cases "rq_who q")
  case None
  then show ?thesis using that(1) by (simp add: respond_def)
next
  case (Some who)
  note who = this
  show ?thesis
  proof (cases "map_of allowed who")
    case None
    then show ?thesis using that(1) who by (simp add: respond_def)
  next
    case (Some own)
    consider "rq_path q = put_path" | "rq_path q \<noteq> put_path" "rq_path q = rl_get_path env" | "rq_path q \<noteq> put_path" "rq_path q \<noteq> rl_get_path env" by blast
    then show ?thesis
    proof cases
      case 1
      show ?thesis
      proof (cases "\<exists>blob. rq_data q = MBin blob \<and> 112 \<le> length blob \<and> length blob \<le> max_blob \<and> take 16 blob \<in> snd ` set allowed")
        case True
        then obtain blob where b: "rq_data q = MBin blob" "112 \<le> length blob" "length blob \<le> max_blob" "take 16 blob \<in> snd ` set allowed" by blast
        obtain granted rate where t: "take_token who (rq_monotonic q) (filter (\<lambda>(k, _). map_of allowed k \<noteq> None) (rl_rate st)) = (granted, rate)" by fastforce
        let ?p = "spool_put (rl_digest env) lims who blob (rq_now q) (rq_received q) (rq_reading q) (rq_writing q) (rl_rows st)"
        have r: "respond env lims allowed q st = (if \<not> granted then (RateLimited, st\<lparr>rl_rate := rate\<rparr>) else put_reply ?p (st\<lparr>rl_rate := rate\<rparr>))"
          using who Some 1 b t by (simp add: respond_def)
        show ?thesis
        proof (cases "granted \<and> (\<exists>x. ?p = Inr x)")
          case True
          then obtain ident rows where "?p = Inr (ident, rows)" by fastforce
          with True r who Some 1 b that(2) show ?thesis by (simp add: put_reply_def)
        next
          case False
          then show ?thesis using that(1) r by (cases ?p) (auto simp: put_reply_def split: spool_error.split)
        qed
      next
        case False
        then show ?thesis using that(1) who Some 1 by (cases "rq_data q") (auto simp: respond_def)
      qed
    next
      case 2
      show ?thesis
      proof (cases "spool_get lims own (rq_data q) (rq_now q) (rq_reading q) (rl_rows st)")
        case (Inl e)
        then show ?thesis using that(1) who Some 2 by (simp add: respond_def)
      next
        case (Inr x)
        then show ?thesis using that(3) who Some 2 by (cases x) (simp add: respond_def)
      qed
    next
      case 3
      then show ?thesis using that(1) who Some by (simp add: respond_def)
    qed
  qed
qed

section \<open>Runs of the relay\<close>

definition empty_relay :: relay where "empty_relay = \<lparr>rl_rows = [], rl_rate = []\<rparr>"

inductive relay_step :: "relay_env \<Rightarrow> spool_limits \<Rightarrow> (string \<times> string) list \<Rightarrow> relay \<Rightarrow> relay \<Rightarrow> bool" for env lims allowed where
  relay_request: "relay_step env lims allowed st (snd (respond env lims (members env allowed membership) q st))"
| relay_restart: "open_spool lims now (rl_rows st) = Inr rows \<Longrightarrow> relay_step env lims allowed st \<lparr>rl_rows = rows, rl_rate = []\<rparr>"

abbreviation relay_start :: "spool_limits \<Rightarrow> relay \<Rightarrow> bool" where
  "relay_start lims st \<equiv> limits_ok lims = Inr () \<and> st = empty_relay"

lemma respond_ok:
  assumes "spool_ok (rl_digest env) lims (rl_rows st)"
  shows "spool_ok (rl_digest env) lims (rl_rows (snd (respond env lims allowed q st)))"
proof (cases rule: respond_cases [of env lims allowed q st])
  case 1
  with assms show ?thesis by simp
next
  case 2
  with spool_ok_put [OF assms 2(5)] show ?thesis by simp
next
  case 3
  with spool_ok_get [OF assms 3(4)] show ?thesis by simp
qed

interpretation rly: invariant_system "relay_start lims" "relay_step env lims allowed" "\<lambda>st. spool_ok (rl_digest env) lims (rl_rows st)"
  for lims env allowed
proof unfold_locales
  show "spool_ok (rl_digest env) lims (rl_rows s)" if "relay_start lims s" for s
    using that by (auto simp: empty_relay_def spool_ok_def row_bytes_def sender_rows_def limits_ok_def)
  show "spool_ok (rl_digest env) lims (rl_rows t)" if "spool_ok (rl_digest env) lims (rl_rows s)" "relay_step env lims allowed s t" for s t
    using that(2,1)
  proof cases
    case (relay_restart now rows)
    then have "rows = expire_rows lims now (rl_rows s)" by (auto simp: open_spool_def Let_def)
    with relay_restart that(1) show ?thesis by (simp add: spool_ok_expire)
  qed (simp add: respond_ok)
qed

text \<open>C32. Whatever members send and however often the relay restarts, its table stays within the configured limits, in total and for every
  sender; ids are unique and are the digests of the ciphertexts, each of which is filed under the recipient its first bytes name.\<close>

theorem relay_is_bounded:
  assumes "reach (relay_start lims) (relay_step env lims allowed) st"
  shows "int (length (rl_rows st)) \<le> sl_messages lims \<and> row_bytes (rl_rows st) \<le> sl_bytes lims \<and> distinct (map sr_id (rl_rows st)) \<and>
    int (length (sender_rows s (rl_rows st))) \<le> sl_sender_messages lims \<and> row_bytes (sender_rows s (rl_rows st)) \<le> sl_sender_bytes lims \<and>
    (\<forall>r. r \<in> set (rl_rows st) \<longrightarrow> sr_id r = rl_digest env (sr_body r) \<and> sr_recipient r = take 16 (sr_body r))"
  using rly.reach_inv [OF assms] unfolding spool_ok_def by blast

section \<open>Members are kept apart\<close>

lemma fetch_in: "b \<in> set (fetch rows recipient budget size' js) \<Longrightarrow> \<exists>r\<in>set rows. sr_body r = b \<and> sr_recipient r = recipient"
proof (induction js arbitrary: size')
  case (Cons i js)
  show ?case
  proof (cases "find (\<lambda>r. sr_id r = i \<and> sr_recipient r = recipient) rows")
    case (Some r)
    then have "r \<in> set rows \<and> sr_recipient r = recipient" by (auto simp: find_Some_iff)
    with Some Cons show ?thesis by (auto split: if_split_asm)
  qed (use Cons in simp)
qed simp

lemma fetch_size: "size' \<le> budget \<Longrightarrow> size' + sum_list (map length (fetch rows recipient budget size' js)) \<le> budget"
proof (induction js arbitrary: size')
  case (Cons i js)
  show ?case
  proof (cases "find (\<lambda>r. sr_id r = i \<and> sr_recipient r = recipient) rows")
    case (Some r)
    with Cons.IH [of "size' + length (sr_body r)"] Cons.IH [of size'] Cons.prems show ?thesis by (simp add: add.assoc)
  qed (use Cons in simp)
qed simp

text \<open>C33. Only members get an answer, and each reaches only its own mailbox: what it reads was filed for its own address and stays within
  192000 bytes or is the list of its ids, what disappears has expired or was filed for it, and what appears is its own message to a member.\<close>

theorem relay_keeps_members_apart:
  assumes "reach (relay_start lims) (relay_step env lims allowed) st" and "respond env lims table q st = (reply, st')"
  shows "case Option.bind (rq_who q) (map_of table) of
      None \<Rightarrow> reply = NoAccess \<and> st' = st
    | Some own \<Rightarrow>
        (\<forall>items. reply = Items items \<longrightarrow> items = listing own (rl_rows st') \<or>
          (\<forall>b. b \<in> set items \<longrightarrow> take 16 b = own) \<and> sum_list (map length items) \<le> 192000) \<and>
        (\<forall>r. r \<in> set (rl_rows st) \<longrightarrow> r \<in> set (rl_rows st') \<or> sr_received r \<le> rq_now q - of_int (sl_retention lims) \<or>
          sr_recipient r = own \<and> rq_path q = rl_get_path env) \<and>
        (\<forall>r. r \<in> set (rl_rows st') \<longrightarrow> r \<in> set (rl_rows st) \<or> Some (sr_sender r) = rq_who q \<and> sr_recipient r \<in> snd ` set table)"
proof -
  have ok: "spool_ok (rl_digest env) lims (rl_rows st)" by (rule rly.reach_inv [OF assms(1)])
  have kept: "r \<in> set (expire_rows lims now rows) \<longleftrightarrow> r \<in> set rows \<and> \<not> sr_received r \<le> now - of_int (sl_retention lims)" for r now rows
    by (auto simp: expire_rows_def)
  show ?thesis
  proof (cases "Option.bind (rq_who q) (map_of table)")
    case None
    with assms(2) show ?thesis by (cases "rq_who q") (auto simp: respond_def)
  next
    case (Some own)
    then obtain who where who: "rq_who q = Some who" "map_of table who = Some own" by (auto simp: bind_eq_Some_conv)
    show ?thesis
    proof (rule respond_cases [of env lims table q st])
      assume "rl_rows (snd (respond env lims table q st)) = rl_rows st" "\<forall>items. fst (respond env lims table q st) \<noteq> Items items"
      with assms(2) Some show ?thesis by simp
    next
      fix who' blob ident rows
      assume p: "rq_who q = Some who'" "take 16 blob \<in> snd ` set table"
        "spool_put (rl_digest env) lims who' blob (rq_now q) (rq_received q) (rq_reading q) (rq_writing q) (rl_rows st) = Inr (ident, rows)"
        "rl_rows (snd (respond env lims table q st)) = rows" "fst (respond env lims table q st) = RStored ident"
      have "\<forall>r\<in>set rows. r \<in> set (rl_rows st) \<or> sr_sender r = who' \<and> sr_recipient r \<in> snd ` set table"
        using spool_put_Inr [OF p(3)] p(2) by (elim conjE disjE) (simp_all add: kept)
      moreover have "\<forall>r\<in>set (rl_rows st). r \<in> set rows \<or> sr_received r \<le> rq_now q - of_int (sl_retention lims)"
        using spool_put_Inr [OF p(3)] by (elim conjE disjE) (simp_all add: kept)
      ultimately show ?thesis using p(1,4,5) assms(2) Some by simp blast
    next
      fix who' own' items rows
      assume g: "rq_who q = Some who'" "map_of table who' = Some own'" "rq_path q = rl_get_path env"
        "spool_get lims own' (rq_data q) (rq_now q) (rq_reading q) (rl_rows st) = Inr (items, rows)"
        "respond env lims table q st = (Items items, st\<lparr>rl_rows := rows\<rparr>)"
      have own: "own' = own" using g who by simp
      have st': "reply = Items items" "rl_rows st' = rows" using g(5) assms(2) by auto
      have "items = listing own rows \<or> (\<forall>b\<in>set items. take 16 b = own) \<and> sum_list (map length items) \<le> 192000"
      proof -
        have "spool_ok (rl_digest env) lims rows" by (rule spool_ok_get [OF ok g(4)])
        then have rec: "r \<in> set rows \<Longrightarrow> sr_recipient r = take 16 (sr_body r)" for r by (auto simp: spool_ok_def)
        from spool_get_Inr [OF g(4)] show ?thesis unfolding own
        proof (elim disjE exE conjE)
          fix haves wants budget assume "items = fetch rows own budget 0 wants" "budget \<le> 192000"
          then show ?thesis using fetch_in [of _ rows own budget 0 wants] fetch_size [of 0 budget rows own wants] rec by fastforce
        qed simp
      qed
      moreover have "set rows \<subseteq> set (rl_rows st)" "\<forall>r\<in>set (rl_rows st) - set rows. sr_received r \<le> rq_now q - of_int (sl_retention lims) \<or> sr_recipient r = own"
        using spool_get_Inr [OF g(4)] unfolding own by (auto simp: kept purge_def)
      ultimately show ?thesis using Some st' g(3) by auto
    qed
  qed
qed

section \<open>Rate\<close>

text \<open>The answers to a sequence of requests.\<close>

fun serve :: "relay_env \<Rightarrow> spool_limits \<Rightarrow> (string \<times> string) list \<Rightarrow> relay \<Rightarrow> request list \<Rightarrow> reply list" where
  "serve env lims allowed st [] = []"
| "serve env lims allowed st (q # qs) =
     (let (r, st') = respond env lims allowed q st in r # serve env lims allowed st' qs)"

definition stored_by :: "string \<Rightarrow> request \<Rightarrow> reply \<Rightarrow> bool" where
  "stored_by who q r \<longleftrightarrow> rq_who q = Some who \<and> (case r of RStored _ \<Rightarrow> True | _ \<Rightarrow> False)"

definition level :: "string \<Rightarrow> real \<Rightarrow> (string \<times> (real \<times> real)) list \<Rightarrow> real" where
  "level who t rate = (case map_of rate who of None \<Rightarrow> 4 | Some (seen, tokens) \<Rightarrow> min 4 (tokens + (t - seen)))"

definition rate_ok :: "string \<Rightarrow> real \<Rightarrow> (string \<times> (real \<times> real)) list \<Rightarrow> bool" where
  "rate_ok who t rate \<longleftrightarrow> (\<forall>seen tokens. map_of rate who = Some (seen, tokens) \<longrightarrow> seen \<le> t \<and> 0 \<le> tokens)"

lemma map_of_members: "map_of allowed k \<noteq> None \<Longrightarrow> map_of (filter (\<lambda>(k, _). map_of allowed k \<noteq> None) rate) k = map_of rate k"
  by (induction rate) auto

lemma rate_later: "rate_ok who t rate \<Longrightarrow> t \<le> u \<Longrightarrow> rate_ok who u rate \<and> level who u rate \<le> level who t rate + (u - t) \<and> 0 \<le> level who t rate"
  unfolding rate_ok_def level_def by (auto split: option.split)

lemma take_token_own:
  assumes "rate_ok who u rate" "take_token who u rate = (granted, rate')"
  shows "rate_ok who u rate'" "level who u rate' = level who u rate - (if granted then 1 else 0)" "granted \<Longrightarrow> 1 \<le> level who u rate"
proof -
  obtain seen tokens where st: "(case map_of rate who of None \<Rightarrow> (u, 4) | Some v \<Rightarrow> v) = (seen, tokens)" by fastforce
  then have s: "seen \<le> u" "0 \<le> tokens" using assms(1) by (auto simp: rate_ok_def split: option.split_asm)
  define l where "l = min 4 (tokens + (u - seen))"
  have level: "level who u rate = l" using st by (auto simp: level_def l_def split: option.split_asm)
  have l: "0 \<le> l" "l \<le> 4" using s by (auto simp: l_def)
  have "granted = (1 \<le> l)" "rate' = put_entry who (u, if granted then l - 1 else l) rate"
    using assms(2) st s by (auto simp: take_token_def l_def Let_def split: if_split_asm)
  then show "rate_ok who u rate'" "level who u rate' = level who u rate - (if granted then 1 else 0)" "granted \<Longrightarrow> 1 \<le> level who u rate"
    using l level by (auto simp: rate_ok_def level_def)
qed

lemma take_token_other:
  assumes "k \<noteq> who" "take_token who u rate = (granted, rate')"
  shows "map_of rate' k = map_of rate k"
proof -
  have "\<exists>v. rate' = put_entry who v rate"
    using assms(2) by (auto simp: take_token_def Let_def split: if_split_asm prod.split_asm)
  with assms(1) show ?thesis by auto
qed

lemma put_reply_rate: "rl_rate (snd (put_reply r st)) = rl_rate st"
  by (auto simp: put_reply_def split: sum.split spool_error.split)

text \<open>What one request costs: a stored message takes a token of its sender.\<close>

lemma respond_rate:
  assumes who: "map_of allowed who \<noteq> None" and ok: "rate_ok who (rq_monotonic q) (rl_rate st)"
    and r: "respond env lims allowed q st = (reply, st')"
  shows "rate_ok who (rq_monotonic q) (rl_rate st') \<and>
    level who (rq_monotonic q) (rl_rate st') + of_bool (stored_by who q reply) \<le> level who (rq_monotonic q) (rl_rate st)"
proof (cases "rl_rate st' = rl_rate st \<and> \<not> stored_by who q reply")
  case True
  with ok show ?thesis by simp
next
  case False
  let ?kept = "filter (\<lambda>(k, _). map_of allowed k \<noteq> None) (rl_rate st)"
  from False r obtain w blob granted rate where w: "rq_who q = Some w" and t: "take_token w (rq_monotonic q) ?kept = (granted, rate)"
    and rate: "rl_rate st' = rate" and g: "stored_by who q reply \<longrightarrow> granted"
    unfolding respond_def stored_by_def
    by (auto simp: Let_def put_reply_rate split: option.split_asm if_split_asm mval.split_asm prod.split_asm sum.split_asm
        dest: arg_cong [where f = "\<lambda>x. rl_rate (snd x)"])
  have kept: "map_of ?kept who = map_of (rl_rate st) who" by (rule map_of_members [OF who])
  then have ok': "rate_ok who (rq_monotonic q) ?kept" and lev: "level who (rq_monotonic q) ?kept = level who (rq_monotonic q) (rl_rate st)"
    using ok by (simp_all only: rate_ok_def level_def)
  show ?thesis
  proof (cases "w = who")
    case True
    with take_token_own [OF ok' t [unfolded True]] lev g rate show ?thesis by auto
  next
    case False
    then have "map_of rate who = map_of (rl_rate st) who" using take_token_other [OF _ t, of who] kept by simp
    moreover have "\<not> stored_by who q reply" using False w by (simp add: stored_by_def)
    ultimately show ?thesis using ok unfolding rate by (simp add: rate_ok_def level_def)
  qed
qed

lemma serve_rate:
  assumes "map_of allowed who \<noteq> None" "sorted (t # map rq_monotonic qs)" "\<forall>q\<in>set qs. rq_monotonic q \<le> t'" "rate_ok who t (rl_rate st)" "t \<le> t'"
  shows "real (length (filter (\<lambda>(q, r). stored_by who q r) (zip qs (serve env lims allowed st qs)))) \<le> level who t (rl_rate st) + (t' - t)"
  using assms(2-)
proof (induction qs arbitrary: t st)
  case Nil
  then show ?case using rate_later [of who t "rl_rate st" t'] by simp
next
  case (Cons q qs)
  obtain reply st' where r: "respond env lims allowed q st = (reply, st')" by fastforce
  let ?u = "rq_monotonic q"
  have u: "t \<le> ?u" "?u \<le> t'" using Cons.prems by auto
  note l = rate_later [OF Cons.prems(3) u(1)]
  with respond_rate [OF assms(1) _ r] have s: "rate_ok who ?u (rl_rate st')"
    "level who ?u (rl_rate st') + of_bool (stored_by who q reply) \<le> level who ?u (rl_rate st)" by auto
  have "real (length (filter (\<lambda>(q, r). stored_by who q r) (zip qs (serve env lims allowed st' qs)))) \<le> level who ?u (rl_rate st') + (t' - ?u)"
    using Cons.prems u s(1) by (intro Cons.IH) auto
  with s(2) l r show ?case by (cases "stored_by who q reply") (simp_all add: Let_def)
qed

text \<open>C34. A member that stays one stores at most four messages at once and one more for every second that passes, whatever else the
  relay is asked and whoever asks.\<close>

theorem relay_bounds_rate:
  assumes "map_of allowed who \<noteq> None" "sorted (map rq_monotonic qs)" "\<And>q. q \<in> set qs \<Longrightarrow> t \<le> rq_monotonic q \<and> rq_monotonic q \<le> t'" "t \<le> t'"
    "\<And>seen tokens. map_of (rl_rate st) who = Some (seen, tokens) \<Longrightarrow> seen \<le> t \<and> 0 \<le> tokens"
  shows "real (length (filter (\<lambda>(q, r). stored_by who q r) (zip qs (serve env lims allowed st qs)))) \<le> 4 + (t' - t)"
proof -
  have "level who t (rl_rate st) \<le> 4" by (auto simp: level_def split: option.split)
  moreover have "sorted (t # map rq_monotonic qs)" using assms(2,3) by auto
  ultimately show ?thesis using serve_rate [OF assms(1), of t qs t' st env lims] assms(3-5) by (force simp: rate_ok_def)
qed

section \<open>A message that is stored and fetched\<close>

definition demo_relay_env :: relay_env where
  "demo_relay_env = \<lparr>rl_hash = id, rl_address = id, rl_digest = take 1, rl_get_path = ''/get''\<rparr>"

definition demo_limits :: spool_limits where
  "demo_limits = \<lparr>sl_bytes = 1000, sl_messages = 9, sl_sender_bytes = 500, sl_sender_messages = 3, sl_retention = 60\<rparr>"

definition demo_name :: string where "demo_name = replicate 16 (CHR ''a'')"

definition demo_blob :: string where "demo_blob = replicate 112 (CHR ''a'')"

definition demo_request :: "string \<Rightarrow> mval \<Rightarrow> request" where
  "demo_request path data = \<lparr>rq_path = path, rq_data = data, rq_who = Some demo_name, rq_monotonic = 5, rq_now = 100, rq_received = 100, rq_reading = None, rq_writing = None\<rparr>"

definition demo_filed :: relay where
  "demo_filed = \<lparr>rl_rows = [\<lparr>sr_id = ''a'', sr_sender = demo_name, sr_recipient = demo_name, sr_received = 100, sr_body = demo_blob\<rparr>],
     rl_rate = [(demo_name, (5, 3))]\<rparr>"

lemma demo_members: "members demo_relay_env [(demo_name, demo_name)] None = [(demo_name, demo_name)]"
  by (simp add: members_def)

lemma demo_put: "respond demo_relay_env demo_limits [(demo_name, demo_name)] (demo_request put_path (MBin demo_blob)) empty_relay = (RStored ''a'', demo_filed)"
proof -
  have room: "spool_room demo_limits demo_name demo_blob []" by (simp add: spool_room_def demo_limits_def demo_blob_def row_bytes_def sender_rows_def)
  have "112 \<le> length demo_blob" "length demo_blob \<le> max_blob" "take 16 demo_blob = demo_name" "take 1 demo_blob = ''a''" "length demo_name = 16"
    by (simp_all add: demo_blob_def demo_name_def max_blob_def max_packed_def)
  with room show ?thesis
    by (simp add: respond_def demo_request_def empty_relay_def take_token_def put_reply_def spool_put_def expire_rows_def demo_filed_def demo_relay_env_def
        put_entry_def check_def Let_def)
qed

lemma demo_filed_reach: "reach (relay_start demo_limits) (relay_step demo_relay_env demo_limits [(demo_name, demo_name)]) demo_filed"
proof (rule reach_step)
  show "reach (relay_start demo_limits) (relay_step demo_relay_env demo_limits [(demo_name, demo_name)]) empty_relay"
    by (rule reach_init) (simp add: limits_ok_def demo_limits_def check_def)
  show "relay_step demo_relay_env demo_limits [(demo_name, demo_name)] empty_relay demo_filed"
    using relay_request [of demo_relay_env demo_limits "[(demo_name, demo_name)]" empty_relay None "demo_request put_path (MBin demo_blob)"]
    unfolding demo_members demo_put by simp
qed

theorem relay_is_bounded_witness: "int (length (rl_rows demo_filed)) \<le> sl_messages demo_limits \<and> sr_id (hd (rl_rows demo_filed)) = rl_digest demo_relay_env demo_blob"
  using relay_is_bounded [OF demo_filed_reach] by (simp add: demo_filed_def)

theorem relay_keeps_members_apart_witness:
  "\<exists>items st'. respond demo_relay_env demo_limits [(demo_name, demo_name)] (demo_request ''/get'' (MList [MNil, MNil])) demo_filed = (Items items, st') \<and>
    (items = listing demo_name (rl_rows st') \<or> (\<forall>b. b \<in> set items \<longrightarrow> take 16 b = demo_name) \<and> sum_list (map length items) \<le> 192000)"
proof -
  obtain reply st' where r: "respond demo_relay_env demo_limits [(demo_name, demo_name)] (demo_request ''/get'' (MList [MNil, MNil])) demo_filed = (reply, st')"
    by fastforce
  then obtain items where "reply = Items items"
    by (auto simp: respond_def demo_request_def demo_relay_env_def put_path_def spool_get_def transfer_budget_def check_def Let_def)
  with relay_keeps_members_apart [OF demo_filed_reach r] r show ?thesis by (auto simp: demo_request_def)
qed

theorem relay_bounds_rate_witness:
  "real (length (filter (\<lambda>(q, r). stored_by demo_name q r) (zip [demo_request put_path (MBin demo_blob)]
     (serve demo_relay_env demo_limits [(demo_name, demo_name)] empty_relay [demo_request put_path (MBin demo_blob)])))) = 1 \<and> (1 :: real) \<le> 4 + (6 - 5)"
proof -
  have "real (length (filter (\<lambda>(q, r). stored_by demo_name q r) (zip [demo_request put_path (MBin demo_blob)]
     (serve demo_relay_env demo_limits [(demo_name, demo_name)] empty_relay [demo_request put_path (MBin demo_blob)])))) \<le> 4 + (6 - 5)"
    by (rule relay_bounds_rate) (simp_all add: demo_request_def empty_relay_def)
  moreover have "stored_by demo_name (demo_request put_path (MBin demo_blob)) (RStored ''a'')" by (simp add: stored_by_def demo_request_def)
  ultimately show ?thesis by (simp add: demo_put)
qed

end
