(* ===== verification/Chat_Mailbox_Props.thy ===== *)
theory Chat_Mailbox_Props
  imports Chat_Mailbox Chat_Store_Props Chat_Relay_Props
begin

text \<open>
  Receiving: a ciphertext is purged from the node only after the store committed it, whatever the node answers; and with the relay of
  this development at the other end no message is lost.
\<close>

section \<open>What receiving writes\<close>

lemma add_inner_get:
  assumes "add_inner m raw out expires st = Inr (b, st')"
  shows "get_message k st' = (if k = m_id m \<and> get_message k st = None then Some (new_message m raw out expires) else get_message k st)"
proof (cases "get_message (m_id m) st")
  case None
  with assms have st': "st' = put_message (new_message m raw out expires) (if out then st else edit_marks m st)"
    by (auto simp: add_inner_def Let_def)
  have "msg_id (new_message m raw out expires) = m_id m" by (simp add: new_message_def)
  moreover have "get_message k (if out then st else edit_marks m st) = get_message k st" by (simp add: get_message_def edit_marks_same)
  ultimately show ?thesis using None unfolding st' get_put_message by auto
next
  case (Some x)
  with assms show ?thesis by (auto simp: add_inner_def)
qed

definition keyed :: "chat_store \<Rightarrow> bool" where
  "keyed st \<longleftrightarrow> (\<forall>k m. get_message k st = Some m \<longrightarrow> k = msg_id m)"

lemma store_ok_keyed: "store_ok st \<Longrightarrow> keyed st"
  by (simp add: keyed_def store_ok_def messages_ok_def)

lemma add_inner_keyed: "keyed st \<Longrightarrow> add_inner m raw out expires st = Inr (b, st') \<Longrightarrow> keyed st'"
  unfolding keyed_def add_inner_get by (auto simp: new_message_def split: if_split_asm)

text \<open>Where a stored message comes from.\<close>

definition from_old :: "chat_store \<Rightarrow> string \<Rightarrow> smsg \<Rightarrow> bool" where
  "from_old st k x \<longleftrightarrow> (\<exists>y. get_message k st = Some y \<and> sm_msg x = sm_msg y \<and> sm_outgoing x = sm_outgoing y)"

lemma queue_receipt_get:
  assumes key: "keyed st" and q: "queue_receipt ident existing receipt st = Inr st'" and x: "get_message k st' = Some x"
  shows "from_old st k x \<or> (\<exists>r packed. receipt = Inr (r, packed) \<and> sm_msg x = r \<and> k = m_id r \<and> sm_outgoing x)"
proof (cases "Option.bind existing sm_receipt")
  case (Some rid)
  with q obtain r where r: "get_message rid st = Some r" by (cases "get_message rid st") (auto simp: queue_receipt_def)
  with q Some have "st' = st \<or> st' = put_message (r\<lparr>sm_status := Queued, sm_attempt := None\<rparr>) st"
    by (auto simp: queue_receipt_def split: if_split_asm)
  moreover have "rid = msg_id r" using key r by (simp add: keyed_def)
  ultimately show ?thesis using x r by (auto simp: from_old_def get_put_message split: if_split_asm)
next
  case None
  with q obtain r packed b st1 saved where r: "receipt = Inr (r, packed)" and add: "add_inner r packed True None st = Inr (b, st1)"
    and saved: "get_message ident st1 = Some saved" and st': "st' = put_message (saved\<lparr>sm_receipt := Some (m_id r)\<rparr>) st1"
    by (auto simp: queue_receipt_def split: option.split_asm)
  have "ident = msg_id saved" using add_inner_keyed [OF key add] saved by (simp add: keyed_def)
  then obtain y where y: "get_message k st1 = Some y" "sm_msg x = sm_msg y" "sm_outgoing x = sm_outgoing y"
    using x saved unfolding st' get_put_message by (auto split: if_split_asm)
  from y(1) add_inner_get [OF add, of k] show ?thesis
    using y(2,3) r by (auto simp: from_old_def new_message_def split: if_split_asm)
qed

lemma commit_received_get:
  assumes ok: "store_ok st" and c: "commit_received m raw receipt now st = Inr (b, st')" and x: "get_message k st' = Some x"
  shows "from_old st k x \<or> sm_msg x = m \<and> k = m_id m \<and> \<not> sm_outgoing x \<or>
    (\<exists>r packed. receipt = Some (Inr (r, packed)) \<and> sm_msg x = r \<and> k = m_id r \<and> sm_outgoing x)"
proof -
  obtain st1 st2 where n: "(case m_body m of Service e \<Rightarrow> store_notice m e now st | _ \<Rightarrow> Inr st) = Inr st1"
    and add: "add_inner m raw False None st1 = Inr (b, st2)"
    and rest: "receipt = None \<and> st' = st2 \<or> (\<exists>f. receipt = Some f \<and> queue_receipt (m_id m) (get_message (m_id m) st) f st2 = Inr st')"
    using c by (cases receipt) (auto simp: commit_received_def Let_def)
  have "cs_messages st1 = cs_messages st" using n store_notice_good(2) [OF ok] by (auto split: body.split_asm)
  then have get: "get_message j st1 = get_message j st" for j by (simp add: get_message_def)
  have "keyed st1" using store_ok_keyed [OF ok] unfolding keyed_def get .
  then have key: "keyed st2" by (rule add_inner_keyed [OF _ add])
  have two: "from_old st k y \<or> sm_msg y = m \<and> k = m_id m \<and> \<not> sm_outgoing y" if "get_message k st2 = Some y" for y
    using that add_inner_get [OF add, of k] get by (auto simp: from_old_def new_message_def split: if_split_asm)
  from rest show ?thesis
  proof (elim disjE exE conjE)
    fix f assume f: "receipt = Some f" "queue_receipt (m_id m) (get_message (m_id m) st) f st2 = Inr st'"
    from queue_receipt_get [OF key f(2) x] f(1) two show ?thesis by (fastforce simp: from_old_def)
  qed (use x two in auto)
qed

lemma commit_received_there:
  assumes ok: "store_ok st" and c: "commit_received m raw receipt now st = Inr (b, st')" and apart: "receipt_apart st m receipt"
  shows "get_message (m_id m) st' \<noteq> None"
proof (cases "get_message (m_id m) st")
  case (Some x)
  with commit_received_good [OF ok c apart] show ?thesis unfolding good_def store_le_def by fastforce
next
  case None
  obtain st1 st2 where add: "add_inner m raw False None st1 = Inr (b, st2)"
    and rest: "receipt = None \<and> st' = st2 \<or> (\<exists>f. receipt = Some f \<and> queue_receipt (m_id m) None f st2 = Inr st')"
    using c None by (cases receipt) (auto simp: commit_received_def Let_def)
  have "get_message (m_id m) st2 \<noteq> None" using add_inner_get [OF add, of "m_id m"] by auto
  moreover have "get_message j s2 \<noteq> None \<Longrightarrow> get_message j s3 \<noteq> None" if "queue_receipt i None f s2 = Inr s3" for i j f s2 s3
    using that by (auto simp: queue_receipt_def get_put_message add_inner_get split: option.split_asm)
  ultimately show ?thesis using rest by blast
qed

section \<open>Receiving a message\<close>

text \<open>The message is in the store; a storage receipt has marked the message it names.\<close>

definition processed :: "chat_store \<Rightarrow> message \<Rightarrow> bool" where
  "processed st m = (case m_body m of
     Stored t \<Rightarrow> (\<exists>x. get_message t st = Some x \<and> sm_status x = RecipientStored \<and> \<not> is_receipt x)
   | _ \<Rightarrow> get_message (m_id m) st \<noteq> None)"

lemma processed_le: "store_le st st' \<Longrightarrow> processed st m \<Longrightarrow> processed st' m"
proof (cases "m_body m")
  case (Stored t)
  assume le: "store_le st st'" and p: "processed st m"
  then obtain x where x: "get_message t st = Some x" "sm_status x = RecipientStored" "\<not> is_receipt x" using Stored by (auto simp: processed_def)
  with le obtain x' where "get_message t st' = Some x'" "msg_le x x'" unfolding store_le_def by blast
  with x Stored msg_le_receipt show ?thesis by (auto simp: processed_def msg_le_def status_le_def)
qed (force simp: processed_def store_le_def)+

text \<open>An id, being a digest of the signed content, tells storage receipts from other messages.\<close>

definition ids_tell_receipts :: "codec_env \<Rightarrow> (string \<Rightarrow> bool) \<Rightarrow> bool" where
  "ids_tell_receipts cx kind \<longleftrightarrow> (\<forall>raw public contacts m. unpack cx raw public contacts = Inr m \<longrightarrow> kind (m_id m) = is_stored (m_body m))"

definition mail_ok :: "(string \<Rightarrow> bool) \<Rightarrow> chat_store \<Rightarrow> bool" where
  "mail_ok kind st \<longleftrightarrow> store_ok st \<and> (\<forall>k x. get_message k st = Some x \<longrightarrow> kind k = is_stored (msg_body x) \<and> (kind k \<longrightarrow> sm_outgoing x))"

lemma mail_good: "mail_ok kind st \<Longrightarrow> good st st"
  by (simp add: mail_ok_def good_refl)

lemma is_receipt_stored: "is_receipt x = is_stored (msg_body x)"
  by (auto simp: is_receipt_def is_stored_def split: body.split)

lemma mail_okI:
  assumes "mail_ok kind st" "good st st'"
    "\<And>k x. get_message k st' = Some x \<Longrightarrow> from_old st k x \<or> kind k = is_stored (msg_body x) \<and> (kind k \<longrightarrow> sm_outgoing x)"
  shows "mail_ok kind st'"
  using assms unfolding mail_ok_def from_old_def good_def by metis

lemma own_message_Inr:
  assumes "own_message env public text fs = Inr (m, raw)"
  shows "\<exists>contacts. unpack (me_codec env) raw public contacts = Inr m"
  using assms by (auto simp: own_message_def)

lemma receipt_for_kind:
  assumes "ids_tell_receipts (me_codec env) kind" "receipt_for env contacts source m = Inr (r, packed)"
  shows "kind (m_id r) = is_stored (m_body r)"
proof -
  obtain public fs r0 where "own_message env public [] fs = Inr (r0, packed)" "r = r0\<lparr>m_peer := m_peer m\<rparr>"
    using assms(2) by (auto simp: receipt_for_def split: option.split_asm)
  with own_message_Inr assms(1) show ?thesis unfolding ids_tell_receipts_def by fastforce
qed

text \<open>Packing keeps the fields of a storage receipt, as the message library documents.\<close>

definition stored_fields :: "codec_env \<Rightarrow> string \<Rightarrow> (mval \<times> mval) list" where
  "stored_fields cx target = [(MInt (cx_custom cx), MMap [(MStr ''fc'', MInt 1), (MStr ''type'', MStr ''stored''), (MStr ''target'', MStr target)])]"

definition packs_receipts :: "codec_env \<Rightarrow> bool" where
  "packs_receipts cx \<longleftrightarrow> (\<forall>sender public target. \<exists>t.
     cx_unpackb cx (drop 96 (cx_pack cx sender public [] (stored_fields cx target))) = Some (MList [t, MBin [], MBin [], MMap (stored_fields cx target)]))"

lemma unpack_body:
  assumes "unpack cx raw public contacts = Inr m"
  shows "\<exists>text t. parse_payload cx (drop 96 raw) = Inr (text, t, m_body m)"
  using assms by (auto simp: unpack_def Let_def split: option.split_asm)

lemma parse_stored:
  assumes "parse_fields cx (stored_fields cx target) text = Inr b"
  shows "b = Stored target"
  using assms by (auto simp: parse_fields_def stored_fields_def parse_custom_def mget_def)

lemma receipt_for_stored:
  assumes "packs_receipts (me_codec env)" "receipt_for env contacts source m = Inr (r, packed)"
  shows "m_body r = Stored (m_id m)"
proof -
  let ?cx = "me_codec env" and ?fs = "stored_fields (me_codec env) (m_id m)"
  have "fields_for ?cx (Stored (m_id m)) = Inr ?fs" by (simp add: fields_for_def stored_fields_def)
  with assms(2) obtain public r0 where "own_message env public [] ?fs = Inr (r0, packed)" and r: "r = r0\<lparr>m_peer := m_peer m\<rparr>"
    by (auto simp: receipt_for_def split: option.split_asm)
  then have p: "packed = cx_pack ?cx (me_identity env) public [] ?fs" "unpack ?cx packed public [(me_address env, me_public env)] = Inr r0"
    by (auto simp: own_message_def pack_def)
  obtain content t where pp: "parse_payload ?cx (drop 96 packed) = Inr (content, t, m_body r0)" using unpack_body [OF p(2)] by blast
  obtain t' where "cx_unpackb ?cx (drop 96 packed) = Some (MList [t', MBin [], MBin [], MMap ?fs])"
    using assms(1) p(1) unfolding packs_receipts_def by blast
  with pp have "parse_fields ?cx ?fs [] = Inr (m_body r0)" by (auto simp: parse_payload_def)
  from parse_stored [OF this] r show ?thesis by simp
qed

lemma receipt_apart_for:
  assumes "mail_ok kind st" "ids_tell_receipts (me_codec env) kind" "packs_receipts (me_codec env)"
    "unpack (me_codec env) raw public contacts' = Inr m" "\<not> is_stored (m_body m)"
  shows "receipt_apart st m (if me_durable env then Some (receipt_for env contacts source m) else None)"
proof -
  have m: "\<not> kind (m_id m)" using assms(2,4,5) by (auto simp: ids_tell_receipts_def)
  have "m_id r \<noteq> m_id m \<and> (\<exists>t. m_body r = Stored t) \<and> (\<forall>q. get_message (m_id r) st = Some q \<longrightarrow> is_receipt q \<and> sm_outgoing q)"
    if r: "receipt_for env contacts source m = Inr (r, packed)" for r packed
  proof -
    have s: "m_body r = Stored (m_id m)" by (rule receipt_for_stored [OF assms(3) r])
    then have "kind (m_id r)" using receipt_for_kind [OF assms(2) r] by (simp add: is_stored_def)
    with m s assms(1) show ?thesis by (auto simp: mail_ok_def is_receipt_stored)
  qed
  then show ?thesis by (auto simp: receipt_apart_def)
qed

lemma commit_mail:
  assumes ok: "mail_ok kind st" and env: "ids_tell_receipts (me_codec env) kind" "packs_receipts (me_codec env)"
    and m: "unpack (me_codec env) raw public contacts' = Inr m" "\<not> is_stored (m_body m)"
    and c: "commit_received m raw' (if me_durable env then Some (receipt_for env contacts source m) else None) stamp st = Inr (b, st')"
  shows "good st st' \<and> mail_ok kind st' \<and> processed st' m"
proof -
  have s: "store_ok st" using ok by (simp add: mail_ok_def)
  note apart = receipt_apart_for [OF ok env m]
  note g = commit_received_good [OF s c apart]
  have "\<not> kind (m_id m)" using env(1) m by (auto simp: ids_tell_receipts_def)
  then have "mail_ok kind st'"
    using commit_received_get [OF s c] receipt_for_kind [OF env(1), of contacts source m] m(2)
    by (intro mail_okI [OF ok g]) (fastforce split: if_split_asm)
  moreover have "processed st' m"
    using commit_received_there [OF s c apart] m(2) by (auto simp: processed_def is_stored_def split: body.split_asm)
  ultimately show ?thesis using g by blast
qed

lemma accept_mail:
  assumes ok: "mail_ok kind st" and m: "m_body m = Stored target" and a: "accept_stored_receipt m target st = Inr (b, st')"
  shows "good st st' \<and> mail_ok kind st' \<and> processed st' m"
proof -
  have s: "store_ok st" using ok by (simp add: mail_ok_def)
  note g = accept_stored_receipt_good [OF s a]
  obtain x where x: "get_message target st = Some x" "\<not> is_stored (msg_body x)"
    and st': "st' = put_message (x\<lparr>sm_status := RecipientStored, sm_attempt := None\<rparr>) st"
    using a by (cases "get_message target st") (auto simp: accept_stored_receipt_def)
  have id: "target = msg_id x" using found_ok [OF s x(1)] by simp
  have "mail_ok kind st'" by (rule mail_okI [OF ok g]) (use x id in \<open>auto simp: st' get_put_message from_old_def split: if_split_asm\<close>)
  moreover have "processed st' m" using x id m by (simp add: processed_def st' get_put_message is_receipt_def is_stored_def split: body.split_asm)
  ultimately show ?thesis using g by blast
qed

lemma add_mail:
  assumes ok: "mail_ok kind st" and env: "ids_tell_receipts cx kind" and m: "unpack cx raw public contacts = Inr m" "\<not> is_stored (m_body m)"
    and a: "add_message m raw' False None st = Inr (b, st')"
  shows "good st st' \<and> mail_ok kind st' \<and> processed st' m"
proof -
  have s: "store_ok st" using ok by (simp add: mail_ok_def)
  have add: "add_inner m raw' False None st = Inr (b, st')" using a by (auto simp: add_message_def)
  note g = add_inner_good(1) [OF s add, simplified] and get = add_inner_get [OF add]
  have "\<not> kind (m_id m)" using env m by (auto simp: ids_tell_receipts_def)
  then have "mail_ok kind st'"
    by (intro mail_okI [OF ok g]) (use m(2) in \<open>auto simp: get new_message_def from_old_def split: if_split_asm\<close>)
  moreover have "processed st' m" using m(2) get [of "m_id m"] by (auto simp: processed_def is_stored_def split: body.split_asm)
  ultimately show ?thesis using g by blast
qed

lemma receive_mail:
  assumes ok: "mail_ok kind st" and env: "ids_tell_receipts (me_codec env) kind" "packs_receipts (me_codec env)"
    and r: "receive env raw now stamp st = Inr (b, st')"
  shows "good st st' \<and> mail_ok kind st' \<and> (\<exists>m contacts. unpack (me_codec env) raw (me_public env) contacts = Inr m \<and> processed st' m)"
proof -
  from r obtain own contacts m source where u: "unpack (me_codec env) raw (me_public env) contacts = Inr m"
    and c: "store_received env own (if me_durable env then Some (receipt_for env contacts source m) else None) source m raw now stamp st = Inr (b, st')"
    unfolding receive_def by (auto split: option.split_asm)
  have "good st st' \<and> mail_ok kind st' \<and> processed st' m"
  proof (cases "is_stored (m_body m)")
    case True
    then obtain t where t: "m_body m = Stored t" by (auto simp: is_stored_def split: body.split_asm)
    with c show ?thesis using accept_mail [OF ok t] by (simp add: store_received_def)
  next
    case False
    with c have "commit_received m raw (if me_durable env then Some (receipt_for env contacts source m) else None) stamp st = Inr (b, st') \<or>
        add_message m raw False None st = Inr (b, st')"
      unfolding store_received_def is_stored_def by (cases "m_body m") (auto split: if_split_asm)
    then show ?thesis using commit_mail [OF ok env u False] add_mail [OF ok env(1) u False] by blast
  qed
  with u show ?thesis by blast
qed

section \<open>A batch\<close>

text \<open>The ciphertext opens to a signed message the store has processed.\<close>

definition received_in :: "mail_env \<Rightarrow> chat_store \<Rightarrow> string \<Rightarrow> bool" where
  "received_in env st blob \<longleftrightarrow> take 16 blob = me_address env \<and> (\<exists>plain m contacts. me_decrypt env (drop 16 blob) = Some plain \<and>
     unpack (me_codec env) (take 16 blob @ plain) (me_public env) contacts = Inr m \<and> processed st m)"

lemma received_in_le: "store_le st st' \<Longrightarrow> received_in env st b \<Longrightarrow> received_in env st' b"
  unfolding received_in_def using processed_le by blast

lemma receive_blob_mail:
  assumes ok: "mail_ok kind st" and env: "ids_tell_receipts (me_codec env) kind" "packs_receipts (me_codec env)"
    and r: "receive_blob env rn i wanted blob ta st = Inr (ta', st')"
  shows "good st st' \<and> mail_ok kind st' \<and> (ta_haves ta' = ta_haves ta \<or>
    (\<exists>b. blob = MBin b \<and> ta_haves ta' = ta_haves ta @ [me_digest env b] \<and> received_in env st' b))"
proof -
  have s: "good st st" by (rule mail_good [OF ok])
  obtain b where blob: "blob = MBin b" using r by (cases blob) (auto simp: receive_blob_def split: option.split_asm)
  show ?thesis
  proof (cases "take 16 b = me_address env \<and> (\<exists>plain. me_decrypt env (drop 16 b) = Some plain)")
    case False
    then have "st' = st \<and> ta_haves ta' = ta_haves ta"
      using r blob by (auto simp: receive_blob_def Let_def split: option.split_asm if_split_asm)
    with s ok show ?thesis by simp
  next
    case True
    then obtain plain where p: "take 16 b = me_address env" "me_decrypt env (drop 16 b) = Some plain" by blast
    show ?thesis
    proof (cases "receive env (take 16 b @ plain) (mr_now rn i) (mr_stamp rn i) st")
      case (Inl e)
      then have "st' = st \<and> ta_haves ta' = ta_haves ta"
        using r blob p by (cases e) (auto simp: receive_blob_def Let_def split: option.split_asm)
      with s ok show ?thesis by simp
    next
      case (Inr x)
      then obtain added st1 where x: "receive env (take 16 b @ plain) (mr_now rn i) (mr_stamp rn i) st = Inr (added, st1)" by (cases x) simp
      then have "st' = st1" "ta_haves ta' = ta_haves ta @ [me_digest env b]"
        using r blob p by (auto simp: receive_blob_def Let_def split: option.split_asm)
      with receive_mail [OF ok env x] blob p show ?thesis unfolding received_in_def by auto
    qed
  qed
qed

lemma receive_batch_mail:
  assumes "mail_ok kind st" "ids_tell_receipts (me_codec env) kind" "packs_receipts (me_codec env)"
    "receive_batch env rn wanted bs ta st = (r, st')"
  shows "good st st' \<and> mail_ok kind st' \<and>
    (\<forall>ta'. r = Inr ta' \<longrightarrow> (\<forall>t\<in>set (ta_haves ta'). t \<in> set (ta_haves ta) \<or> (\<exists>b. MBin b \<in> set bs \<and> t = me_digest env b \<and> received_in env st' b)))"
  using assms(1,4)
proof (induction bs arbitrary: ta st)
  case Nil
  then show ?case by (auto simp: mail_good)
next
  case (Cons b bs)
  show ?case
  proof (cases "receive_blob env rn (length bs) wanted b ta st")
    case (Inl e)
    with Cons.prems show ?thesis by (auto simp: mail_good)
  next
    case (Inr x)
    obtain ta1 st1 where x: "receive_blob env rn (length bs) wanted b ta st = Inr (ta1, st1)" using Inr by (cases x) simp
    note one = receive_blob_mail [OF Cons.prems(1) assms(2,3) x]
    have rest: "receive_batch env rn wanted bs ta1 st1 = (r, st')" using Cons.prems(2) x by simp
    note two = Cons.IH [OF conjunct1 [OF conjunct2 [OF one]] rest]
    have "store_le st1 st'" using two by (simp add: good_def)
    then have "received_in env st1 c \<Longrightarrow> received_in env st' c" for c by (rule received_in_le)
    note later = this
    have "t \<in> set (ta_haves ta) \<or> (\<exists>c. MBin c \<in> set (b # bs) \<and> t = me_digest env c \<and> received_in env st' c)"
      if "r = Inr ta'" "t \<in> set (ta_haves ta')" for ta' t
    proof (cases "t \<in> set (ta_haves ta1)")
      case True
      from one show ?thesis
      proof (elim conjE disjE exE)
        fix c assume c: "b = MBin c" "ta_haves ta1 = ta_haves ta @ [me_digest env c]" "received_in env st1 c"
        with True later [OF c(3)] show ?thesis by auto
      qed (use True in simp)
    next
      case False
      with two that show ?thesis by auto
    qed
    moreover have "good st st'" using one two good_trans by blast
    ultimately show ?thesis using two by blast
  qed
qed

section \<open>Whatever the node answers\<close>

lemma sync_wanted_parts:
  assumes "sync_wanted env rn link delete count wanted st l = (r, st', l')"
  obtains r2 where "mb_request env link (me_get_path env) (MList [MList (map MBin wanted), MList [], MInt 192]) l = (r2, l')"
    "st' = st \<or> (\<exists>e blobs. r2 = Inr blobs \<and> receive_batch env rn wanted blobs no_tally st = (Inl e, st'))"
  | blobs l2 ta r3 where "mb_request env link (me_get_path env) (MList [MList (map MBin wanted), MList [], MInt 192]) l = (Inr blobs, l2)"
    "receive_batch env rn wanted blobs no_tally st = (Inr ta, st')" "purge_stored env link delete (ta_haves ta) l2 = (r3, l')"
proof -
  obtain r2 l2 where q2: "mb_request env link (me_get_path env) (MList [MList (map MBin wanted), MList [], MInt 192]) l = (r2, l2)" by fastforce
  show ?thesis
  proof (cases "\<exists>blobs. r2 = Inr blobs \<and> \<not> length wanted < length blobs")
    case False
    with assms have "st' = st \<and> l' = l2" by (cases r2) (auto simp: sync_wanted_def q2)
    with that(1) q2 show ?thesis by blast
  next
    case True
    then obtain blobs where b: "r2 = Inr blobs" "\<not> length wanted < length blobs" by blast
    obtain rb stb where rb: "receive_batch env rn wanted blobs no_tally st = (rb, stb)" by fastforce
    show ?thesis
    proof (cases rb)
      case (Inl e)
      with assms b rb have "st' = stb \<and> l' = l2" by (auto simp: sync_wanted_def q2)
      with that(1) q2 b rb Inl show ?thesis by blast
    next
      case (Inr ta)
      obtain r3 l3 where p: "purge_stored env link delete (ta_haves ta) l2 = (r3, l3)" by fastforce
      with assms b rb Inr have "st' = stb \<and> l' = l3" by (cases r3) (auto simp: sync_wanted_def q2 Let_def)
      with that(2) q2 b rb Inr p show ?thesis by blast
    qed
  qed
qed

lemma sync_parts:
  assumes sync: "sync_connected env rn link delete st l = (r, st', l')"
  obtains (list) r1 where "mb_request env link (me_get_path env) (MList [MNil, MNil]) l = (r1, l')" "st' = st"
  | (batch) r1 l1 wanted r2 where "mb_request env link (me_get_path env) (MList [MNil, MNil]) l = (r1, l1)"
    "mb_request env link (me_get_path env) (MList [MList (map MBin wanted), MList [], MInt 192]) l1 = (r2, l')"
    "st' = st \<or> (\<exists>e blobs. r2 = Inr blobs \<and> receive_batch env rn wanted blobs no_tally st = (Inl e, st'))"
  | (purge) r1 l1 wanted blobs l2 ta r3 where "mb_request env link (me_get_path env) (MList [MNil, MNil]) l = (r1, l1)"
    "mb_request env link (me_get_path env) (MList [MList (map MBin wanted), MList [], MInt 192]) l1 = (Inr blobs, l2)"
    "receive_batch env rn wanted blobs no_tally st = (Inr ta, st')" "purge_stored env link delete (ta_haves ta) l2 = (r3, l')"
proof -
  obtain r1 l1 where q1: "mb_request env link (me_get_path env) (MList [MNil, MNil]) l = (r1, l1)" by fastforce
  have "st' = st \<and> l' = l1 \<or> (\<exists>count wanted. sync_wanted env rn link delete count wanted st l1 = (r, st', l'))"
  proof (cases r1)
    case (Inl e)
    with sync show ?thesis by (simp add: sync_connected_def q1)
  next
    case (Inr vs)
    define wanted where "wanted = take 10 (unique (map bin_of vs))"
    note red = sync [unfolded sync_connected_def q1 Inr prod.case sum.case Let_def wanted_def [symmetric]]
    consider "1000 < length vs \<or> \<not> list_all is_id vs" | "\<not> (1000 < length vs \<or> \<not> list_all is_id vs)" "wanted = []"
      | "\<not> (1000 < length vs \<or> \<not> list_all is_id vs)" "wanted \<noteq> []" by blast
    then show ?thesis
    proof cases
      case 3
      with red have "sync_wanted env rn link delete (length vs) wanted st l1 = (r, st', l')" by (simp only: if_False)
      then show ?thesis by blast
    qed (use red in \<open>auto simp only: if_True if_False prod.inject simp_thms refl\<close>)
  qed
  then show ?thesis
  proof (elim disjE exE conjE)
    fix count wanted assume w: "sync_wanted env rn link delete count wanted st l1 = (r, st', l')"
    show ?thesis
    proof (rule sync_wanted_parts [OF w])
      show thesis if "mb_request env link (me_get_path env) (MList [MList (map MBin wanted), MList [], MInt 192]) l1 = (r2, l')"
        "st' = st \<or> (\<exists>e blobs. r2 = Inr blobs \<and> receive_batch env rn wanted blobs no_tally st = (Inl e, st'))" for r2
        by (rule batch [OF q1 that])
      show thesis if "mb_request env link (me_get_path env) (MList [MList (map MBin wanted), MList [], MInt 192]) l1 = (Inr blobs, l2)"
        "receive_batch env rn wanted blobs no_tally st = (Inr ta, st')" "purge_stored env link delete (ta_haves ta) l2 = (r3, l')" for blobs l2 ta r3
        by (rule purge [OF q1 that])
    qed
  qed (use q1 list in simp)
qed

text \<open>A link that also notes the requests sent over it.\<close>

definition recording :: "'l link \<Rightarrow> ('l \<times> (string \<times> mval) list) link" where
  "recording link = (\<lambda>(l, sent) path data. case link l path data of (r, l') \<Rightarrow> (r, (l', sent @ [(path, data)])))"

lemma mb_request_state: "snd (mb_request env link path data l) = snd (link l path data)"
  by (auto simp: mb_request_def split: prod.split sum.split mval.split)

lemma mb_request_log:
  assumes "mb_request env (recording link) path data l = (r, l')"
  shows "snd l' = snd l @ [(path, data)]"
  using mb_request_state [of env "recording link" path data l] assms by (auto simp: recording_def split: prod.split_asm)

lemma purge_log:
  assumes "purge_stored env (recording link) delete haves l = (r, l')"
  shows "snd l' = snd l \<or> snd l' = snd l @ [(me_get_path env, MList [MNil, MList (map MBin haves)])]"
  using assms mb_request_log [of env link "me_get_path env" "MList [MNil, MList (map MBin haves)]" l]
  by (auto simp: purge_stored_def split: if_split_asm prod.split_asm sum.split_asm)

text \<open>C35. Whatever node is at the other end and whatever it answers, a purge request names only ids of ciphertexts that opened to a signed
  message addressed to this chat, and the store had committed what that message says before the request was sent.\<close>

theorem purge_only_after_store:
  assumes "ids_tell_receipts (me_codec env) kind" "packs_receipts (me_codec env)" "mail_ok kind st"
    "sync_connected env rn (recording link) delete st (l, []) = (r, st', (l', sent))"
    "(path, MList [MNil, MList (map MBin haves)]) \<in> set sent" "t \<in> set haves"
  shows "\<exists>blob. t = me_digest env blob \<and> received_in env st' blob"
proof (rule sync_parts [OF assms(4)])
  fix r1 assume "mb_request env (recording link) (me_get_path env) (MList [MNil, MNil]) (l, []) = (r1, (l', sent))"
  from mb_request_log [OF this] assms(5) show ?thesis by simp
next
  fix r1 l1 wanted r2
  assume q: "mb_request env (recording link) (me_get_path env) (MList [MNil, MNil]) (l, []) = (r1, l1)"
    "mb_request env (recording link) (me_get_path env) (MList [MList (map MBin wanted), MList [], MInt 192]) l1 = (r2, (l', sent))"
  from mb_request_log [OF q(1)] mb_request_log [OF q(2)] assms(5) show ?thesis by simp
next
  fix r1 l1 wanted blobs l2 ta r3
  assume q: "mb_request env (recording link) (me_get_path env) (MList [MNil, MNil]) (l, []) = (r1, l1)"
    "mb_request env (recording link) (me_get_path env) (MList [MList (map MBin wanted), MList [], MInt 192]) l1 = (Inr blobs, l2)"
    and b: "receive_batch env rn wanted blobs no_tally st = (Inr ta, st')"
    and p: "purge_stored env (recording link) delete (ta_haves ta) l2 = (r3, (l', sent))"
  have "map MBin haves = map MBin (ta_haves ta)"
    using mb_request_log [OF q(1)] mb_request_log [OF q(2)] purge_log [OF p] assms(5) by auto
  then have "haves = ta_haves ta" by (rule map_injective) (simp add: inj_def)
  then have "t \<in> set (ta_haves ta)" using assms(6) by simp
  with receive_batch_mail [OF assms(3,1,2) b] show ?thesis by (auto simp: no_tally_def)
qed

section \<open>With the relay at the other end\<close>

definition reply_value :: "int \<Rightarrow> reply \<Rightarrow> mval" where
  "reply_value no_access r = (case r of
     NoAccess \<Rightarrow> MInt no_access
   | Rejected \<Rightarrow> MList [MStr ''rejected'']
   | RateLimited \<Rightarrow> MList [MStr ''rate_limited'']
   | RStored i \<Rightarrow> MList [MStr ''stored'', MBin i]
   | RFull \<Rightarrow> MList [MStr ''full'']
   | Unavailable \<Rightarrow> MList [MStr ''unavailable'']
   | Items xs \<Rightarrow> MList (map MBin xs))"

text \<open>The relay as a link; the template gives the clock readings and faults of every request.\<close>

definition relay_link :: "int \<Rightarrow> relay_env \<Rightarrow> spool_limits \<Rightarrow> (string \<times> string) list \<Rightarrow> (nat \<Rightarrow> request) \<Rightarrow> (relay \<times> nat) link" where
  "relay_link no_access renv lims allowed template = (\<lambda>(rs, n) path data.
     case respond renv lims allowed ((template n)\<lparr>rq_path := path, rq_data := data\<rparr>) rs of
       (reply, rs') \<Rightarrow> (Inr (reply_value no_access reply), (rs', Suc n)))"

definition purged_ids :: "mval \<Rightarrow> string list" where
  "purged_ids data = (case data of
     MList (w # h # _) \<Rightarrow> (case message_ids h of Inr (Some ids) \<Rightarrow> ids | _ \<Rightarrow> [])
   | _ \<Rightarrow> [])"

lemma spool_get_rows:
  assumes "spool_get lims own data now fault rows = Inr (items, rows')"
  shows "rows' = purge own (purged_ids data) (expire_rows lims now rows)"
proof -
  have p: "purge own [] rs = rs" for rs by (simp add: purge_def)
  from assms obtain w h b haves where d: "data = MList [w, h] \<or> data = MList [w, h, b]"
    and ids: "message_ids h = Inr haves" and c: "rows' = purge own (case haves of None \<Rightarrow> [] | Some js \<Rightarrow> js) (expire_rows lims now rows)"
    unfolding spool_get_def by (fastforce simp: Let_def p split: mval.split_asm list.split_asm if_split_asm)
  have "purged_ids data = (case haves of None \<Rightarrow> [] | Some js \<Rightarrow> js)" using d ids by (auto simp: purged_ids_def split: option.split)
  with c show ?thesis by simp
qed

lemma spool_get_items:
  assumes "spool_get lims own (MList [w, MList h, b]) now fault rows = Inr (items, rows')" "x \<in> set items"
  shows "\<exists>r\<in>set rows'. sr_body r = x"
proof -
  from assms(1) obtain budget js where "items = fetch rows' own budget 0 js"
    unfolding spool_get_def by (auto simp: Let_def split: if_split_asm)
  with assms(2) fetch_in [of x rows' own budget 0 js] show ?thesis by auto
qed

text \<open>A request on the mailbox path.\<close>

lemma relay_mailbox:
  assumes "mb_request env (relay_link (me_no_access env) renv lims allowed template) (rl_get_path renv) data (rs, n) = (r, (rs', n'))"
    "rl_get_path renv \<noteq> put_path" "rq_who (template n) = Some who" "map_of allowed who = Some own"
  shows "rl_rows rs' = rl_rows rs \<and> (\<exists>e. r = Inl e) \<or>
    (\<exists>items. spool_get lims own data (rq_now (template n)) (rq_reading (template n)) (rl_rows rs) = Inr (items, rl_rows rs') \<and> r = Inr (map MBin items))"
proof (cases "spool_get lims own data (rq_now (template n)) (rq_reading (template n)) (rl_rows rs)")
  case (Inl e)
  with assms show ?thesis by (auto simp: mb_request_def relay_link_def respond_def reply_value_def)
next
  case (Inr x)
  with assms show ?thesis by (cases x) (auto simp: mb_request_def relay_link_def respond_def reply_value_def)
qed

lemma relay_mailbox_keeps:
  assumes "mb_request env (relay_link (me_no_access env) renv lims allowed template) (rl_get_path renv) data (rs, n) = (r, (rs', n'))"
    "rl_get_path renv \<noteq> put_path" "rq_who (template n) = Some who" "map_of allowed who = Some own"
  shows "set (rl_rows rs') \<subseteq> set (rl_rows rs)"
    "x \<in> set (rl_rows rs) \<Longrightarrow> x \<in> set (rl_rows rs') \<or> sr_received x \<le> rq_now (template n) - of_int (sl_retention lims) \<or> sr_id x \<in> set (purged_ids data)"
proof -
  have "rl_rows rs' = rl_rows rs \<or> rl_rows rs' = purge own (purged_ids data) (expire_rows lims (rq_now (template n)) (rl_rows rs))"
    using relay_mailbox [OF assms] spool_get_rows by blast
  then show "set (rl_rows rs') \<subseteq> set (rl_rows rs)"
    "x \<in> set (rl_rows rs) \<Longrightarrow> x \<in> set (rl_rows rs') \<or> sr_received x \<le> rq_now (template n) - of_int (sl_retention lims) \<or> sr_id x \<in> set (purged_ids data)"
    by (auto simp: purge_def expire_rows_def)
qed

lemma purged_haves: "set (purged_ids (MList [MNil, MList (map MBin haves)])) \<subseteq> set haves"
  by (auto simp: purged_ids_def split: if_split_asm)

lemma purge_request:
  assumes "purge_stored env link delete haves l = (r, l')"
  shows "l' = l \<or> (\<exists>r. mb_request env link (me_get_path env) (MList [MNil, MList (map MBin haves)]) l = (r, l'))"
  using assms by (auto simp: purge_stored_def split: if_split_asm prod.split_asm sum.split_asm)

text \<open>C36. Composed with the relay, a sync loses no message: whichever way it ends, every ciphertext on the relay is still there, has expired,
  or has been opened and its message committed to the local store.\<close>

theorem no_mail_lost:
  assumes relay: "reach (relay_start lims) (relay_step renv lims allowed) rs"
    and env: "ids_tell_receipts (me_codec env) kind" "packs_receipts (me_codec env)" "mail_ok kind st"
    and same: "rl_digest renv = me_digest env" "rl_get_path renv = me_get_path env" "rl_get_path renv \<noteq> put_path"
    and who: "\<And>n. rq_who (template n) = Some who" "map_of table who = Some (me_address env)"
    and sync: "sync_connected env rn (relay_link (me_no_access env) renv lims table template) delete st (rs, n) = (r, st', (rs', n'))"
    and x: "x \<in> set (rl_rows rs)"
  shows "x \<in> set (rl_rows rs') \<or> (\<exists>n. sr_received x \<le> rq_now (template n) - of_int (sl_retention lims)) \<or> received_in env st' (sr_body x)"
proof -
  let ?link = "relay_link (me_no_access env) renv lims table template"
  note keeps = relay_mailbox_keeps [where template = template and env = env and lims = lims, OF _ same(3) who, unfolded same(2)]
  have no: "purged_ids (MList [MNil, MNil]) = []" "purged_ids (MList [w, MList [], b]) = []" for w b by (simp_all add: purged_ids_def)
  show ?thesis
  proof (cases rule: sync_parts [OF sync, case_names list batch purge])
    case (list r1)
    from keeps(2) [OF list(1) x] no show ?thesis by auto
  next
    case (batch r1 l1 wanted r2)
    obtain rs1 n1 where l1: "l1 = (rs1, n1)" by (cases l1)
    from keeps(2) [OF batch(1) [unfolded l1] x] keeps(2) [OF batch(2) [unfolded l1], of x] no show ?thesis by auto
  next
    case (purge r1 l1 wanted blobs l2 ta r3)
    obtain rs1 n1 rs2 n2 where l: "l1 = (rs1, n1)" "l2 = (rs2, n2)" by (cases l1; cases l2)
    note q1 = purge(1) [unfolded l] and q2 = purge(2) [unfolded l] and p = purge(4) [unfolded l]
    have two: "x \<in> set (rl_rows rs2) \<or> (\<exists>n. sr_received x \<le> rq_now (template n) - of_int (sl_retention lims))"
      using keeps(2) [OF q1 x] keeps(2) [OF q2, of x] no by auto
    have sub: "set (rl_rows rs2) \<subseteq> set (rl_rows rs)" using keeps(1) [OF q1] keeps(1) [OF q2] by blast
    have three: "x \<in> set (rl_rows rs2) \<Longrightarrow> x \<in> set (rl_rows rs') \<or> (\<exists>n. sr_received x \<le> rq_now (template n) - of_int (sl_retention lims)) \<or>
        sr_id x \<in> set (ta_haves ta)"
      using purge_request [OF p] keeps(2) [where data = "MList [MNil, MList (map MBin (ta_haves ta))]" and x = x] purged_haves by blast
    have "received_in env st' (sr_body x)" if "sr_id x \<in> set (ta_haves ta)"
    proof -
      from receive_batch_mail [OF env(3,1,2) purge(3)] that obtain b where b: "MBin b \<in> set blobs" "sr_id x = me_digest env b" "received_in env st' b"
        by (auto simp: no_tally_def)
      from relay_mailbox [OF q2 [folded same(2)] same(3) who] b(1) obtain y where y: "y \<in> set (rl_rows rs2)" "sr_body y = b"
        using spool_get_items by fastforce
      have ok: "spool_ok (rl_digest renv) lims (rl_rows rs)" by (rule rly.reach_inv [OF relay])
      have "sr_id y = sr_id x" using ok y sub b(2) same(1) by (auto simp: spool_ok_def)
      then have "y = x" using ok y(1) sub x by (auto simp: spool_ok_def distinct_map inj_on_def)
      with y b show ?thesis by simp
    qed
    with two three show ?thesis by blast
  qed
qed

section \<open>One message on the node\<close>

definition demo_cx :: codec_env where
  "demo_cx = \<lparr>cx_custom = 1, cx_audio = 2, cx_opus = 3, cx_codec2_1600 = 4, cx_codec2_2400 = 5, cx_codec2_3200 = 6,
     cx_sha256 = (\<lambda>h. (if h ! 32 = CHR ''R'' then CHR ''R'' else CHR ''T'') # replicate 31 (CHR 0x00)),
     cx_address = take 16, cx_validate = (\<lambda>_ _ _. True),
     cx_unpackb = (\<lambda>p. case p of [] \<Rightarrow> None
       | c # s \<Rightarrow> Some (if c = CHR ''R''
           then MList [MInt 0, MBin [], MBin [], MMap [(MInt 1, MMap [(MStr ''fc'', MInt 1), (MStr ''type'', MStr ''stored''), (MStr ''target'', MStr s)])]]
           else MList [MInt 0, MBin [], MBin s, MMap []])),
     cx_pack = (\<lambda>_ _ text fs. replicate 96 (CHR ''x'') @ (case fs of [(_, MMap [_, _, (_, MStr t)])] \<Rightarrow> CHR ''R'' # t | _ \<Rightarrow> CHR ''T'' # text))\<rparr>"

definition demo_public :: string where "demo_public = replicate 64 (CHR ''a'')"

definition demo_env :: mail_env where
  "demo_env = \<lparr>me_codec = demo_cx, me_identity = [], me_public = demo_public, me_address = demo_name, me_durable = False, me_platform = ''linux'',
     me_version = 1, me_digest = take 32, me_decrypt = Some, me_encrypt = (\<lambda>_ s. s), me_get_path = ''/get'', me_no_access = 241\<rparr>"

definition demo_kind :: "string \<Rightarrow> bool" where
  "demo_kind i \<longleftrightarrow> take 2 i = bytes_hex ''R''"

definition demo_mail :: string where
  "demo_mail = replicate 32 (CHR ''a'') @ replicate 64 (CHR ''x'') @ CHR ''T'' # replicate 15 (CHR ''h'')"

definition demo_chat :: chat_store where
  "demo_chat = (empty_store ''e'')\<lparr>cs_contacts := [(bytes_hex demo_name, bytes_hex demo_public)]\<rparr>"

definition demo_run :: mail_run where
  "demo_run = \<lparr>mr_halt = (\<lambda>_. None), mr_now = (\<lambda>_. 1), mr_stamp = (\<lambda>_. 1)\<rparr>"

lemma take_hex: "take 2 (bytes_hex (c # s)) = bytes_hex [c]"
  by (simp add: bytes_hex_def)

lemma demo_ids: "ids_tell_receipts (me_codec demo_env) demo_kind"
proof -
  have "demo_kind (m_id m) = is_stored (m_body m)" if u: "unpack demo_cx raw public contacts = Inr m" for raw public contacts m
  proof -
    obtain content t where p: "parse_payload demo_cx (drop 96 raw) = Inr (content, t, m_body m)" using unpack_body [OF u] by blast
    have len: "96 < length raw" and "m_id m = bytes_hex (cx_sha256 demo_cx (slice 0 16 raw @ slice 16 32 raw @ drop 96 raw))"
      using u by (auto simp: unpack_def Let_def split: option.split_asm)
    moreover have "(slice 0 16 raw @ slice 16 32 raw @ drop 96 raw) ! 32 = raw ! 96" using len by (simp add: slice_def nth_append)
    ultimately have "demo_kind (m_id m) \<longleftrightarrow> raw ! 96 = CHR ''R''"
      using bytes_hex_inj [of "''T''" "''R''"] by (auto simp: demo_cx_def demo_kind_def take_hex)
    moreover obtain c s where cs: "drop 96 raw = c # s" "c = raw ! 96" using len by (metis Cons_nth_drop_Suc)
    ultimately show ?thesis using p parse_stored [of demo_cx s "[]"]
      by (cases "c = CHR ''R''") (auto simp: parse_payload_def demo_cx_def stored_fields_def parse_fields_def is_stored_def)
  qed
  then show ?thesis unfolding ids_tell_receipts_def demo_env_def by simp
qed

lemma demo_packs: "packs_receipts (me_codec demo_env)"
  by (simp add: packs_receipts_def demo_env_def demo_cx_def stored_fields_def)

lemma demo_chat_ok: "mail_ok demo_kind demo_chat"
  by (simp add: mail_ok_def store_ok_def messages_ok_def tables_ok_def demo_chat_def empty_store_def get_message_def)

lemma demo_contacts: "chat_contacts demo_chat = Inr [(demo_name, demo_public)]" "delivery_contacts demo_chat = Inr [(demo_name, demo_public)]"
  by (simp_all add: chat_contacts_def delivery_contacts_def demo_chat_def fromhex_hex empty_store_def)

lemma demo_unpack: "\<exists>i. unpack demo_cx demo_mail demo_public [(demo_name, demo_public)] =
    Inr \<lparr>m_id = i, m_peer = bytes_hex demo_name, m_text = replicate 15 (CHR ''h''), m_time = 0, m_body = Text\<rparr>"
proof -
  have "length demo_mail = 112" by (simp add: demo_mail_def)
  moreover have "slice 0 16 demo_mail = demo_name" "slice 16 32 demo_mail = demo_name" by (simp_all add: demo_mail_def demo_name_def slice_def)
  moreover have "drop 96 demo_mail = CHR ''T'' # replicate 15 (CHR ''h'')" by (simp add: demo_mail_def)
  moreover have "utf8_decode (replicate 15 (CHR ''h'')) \<noteq> None" by code_simp
  ultimately show ?thesis
    by (simp add: unpack_def demo_cx_def demo_public_def demo_name_def max_packed_def parse_payload_def max_text_def parse_fields_def check_def Let_def)
qed

lemma demo_receive: "\<exists>st. receive demo_env demo_mail now stamp demo_chat = Inr (True, st)"
proof -
  obtain i where u: "unpack demo_cx demo_mail demo_public [(demo_name, demo_public)] =
    Inr \<lparr>m_id = i, m_peer = bytes_hex demo_name, m_text = replicate 15 (CHR ''h''), m_time = 0, m_body = Text\<rparr>" using demo_unpack by blast
  have "packed_ok demo_mail" by (simp add: packed_ok_def demo_mail_def)
  then have "\<exists>st. add_message m demo_mail False None demo_chat = Inr (True, st)" for m
    by (simp add: add_message_def add_inner_def demo_chat_def empty_store_def get_message_def check_def Let_def)
  with u show ?thesis by (simp add: receive_def demo_contacts store_received_def fromhex_hex demo_env_def check_def)
qed

text \<open>A node that lists the one message, hands it out and confirms its purge.\<close>

definition demo_node :: "nat link" where
  "demo_node n path data = (Inr (MList (if n = 0 then [MBin (take 32 demo_mail)] else if n = 1 then [MBin demo_mail] else [])), Suc n)"

lemma demo_sync: "\<exists>r st n. sync_connected demo_env demo_run (recording demo_node) True demo_chat (0, []) =
    (r, st, (n, [(''/get'', MList [MNil, MNil]), (''/get'', MList [MList [MBin (take 32 demo_mail)], MList [], MInt 192]),
      (''/get'', MList [MNil, MList (map MBin [take 32 demo_mail])])]))"
proof -
  obtain st where st: "receive demo_env demo_mail 1 1 demo_chat = Inr (True, st)" using demo_receive by blast
  have mail: "length demo_mail = 112" "take 16 demo_mail = demo_name" by (simp_all add: demo_mail_def demo_name_def)
  have "receive_blob demo_env demo_run 0 [take 32 demo_mail] (MBin demo_mail) no_tally demo_chat =
      Inr (\<lparr>ta_stored = 1, ta_duplicates = 0, ta_rejected = 0, ta_haves = [take 32 demo_mail]\<rparr>, st)"
    using st mail append_take_drop_id [of 16 demo_mail] by (simp add: receive_blob_def demo_run_def no_tally_def check_def Let_def demo_env_def max_packed_def)
  then have "receive_batch demo_env demo_run [take 32 demo_mail] [MBin demo_mail] no_tally demo_chat =
      (Inr \<lparr>ta_stored = 1, ta_duplicates = 0, ta_rejected = 0, ta_haves = [take 32 demo_mail]\<rparr>, st)" by simp
  moreover have "unique [take 32 demo_mail] = [take 32 demo_mail]" "me_get_path demo_env = ''/get''" "is_id (MBin (take 32 demo_mail))"
    using mail by (simp_all add: unique_def demo_env_def is_id_def)
  ultimately show ?thesis
    by (simp add: sync_connected_def sync_wanted_def mb_request_def recording_def demo_node_def bin_of_def purge_stored_def check_def)
qed

theorem purge_only_after_store_witness:
  "\<exists>r st n sent blob. sync_connected demo_env demo_run (recording demo_node) True demo_chat (0, []) = (r, st, (n, sent)) \<and>
     (''/get'', MList [MNil, MList (map MBin [take 32 demo_mail])]) \<in> set sent \<and> take 32 demo_mail = me_digest demo_env blob \<and> received_in demo_env st blob"
proof -
  obtain r st n sent where s: "sync_connected demo_env demo_run (recording demo_node) True demo_chat (0, []) = (r, st, (n, sent))"
    "(''/get'', MList [MNil, MList (map MBin [take 32 demo_mail])]) \<in> set sent" using demo_sync by fastforce
  from purge_only_after_store [OF demo_ids demo_packs demo_chat_ok s] s show ?thesis by fastforce
qed

definition demo_renv :: relay_env where
  "demo_renv = demo_relay_env\<lparr>rl_digest := take 32\<rparr>"

definition demo_rs :: relay where
  "demo_rs = snd (respond demo_renv demo_limits [(demo_name, demo_name)] (demo_request put_path (MBin demo_mail)) empty_relay)"

lemma demo_rs_rows: "\<exists>x. rl_rows demo_rs = [x] \<and> sr_body x = demo_mail"
proof -
  have room: "spool_room demo_limits demo_name demo_mail []" by (simp add: spool_room_def demo_limits_def demo_mail_def row_bytes_def sender_rows_def)
  have "length demo_mail = 112" "112 \<le> max_blob" "take 16 demo_mail = demo_name" "length demo_name = 16"
    by (simp_all add: demo_mail_def demo_name_def max_blob_def max_packed_def)
  with room show ?thesis
    by (simp add: demo_rs_def respond_def demo_request_def empty_relay_def take_token_def put_reply_def spool_put_def expire_rows_def demo_renv_def
        demo_relay_env_def put_entry_def check_def Let_def)
qed

theorem no_mail_lost_witness:
  "\<exists>x r st rs n. rl_rows demo_rs = [x] \<and>
    sync_connected demo_env demo_run (relay_link 241 demo_renv demo_limits [(demo_name, demo_name)] (\<lambda>_. demo_request [] MNil)) True demo_chat (demo_rs, 0) =
      (r, st, (rs, n)) \<and>
    (x \<in> set (rl_rows rs) \<or> (\<exists>n::nat. sr_received x \<le> 100 - of_int (sl_retention demo_limits)) \<or> received_in demo_env st demo_mail)"
proof -
  obtain x where x: "rl_rows demo_rs = [x]" "sr_body x = demo_mail" using demo_rs_rows by blast
  obtain r st rs n where s: "sync_connected demo_env demo_run (relay_link (me_no_access demo_env) demo_renv demo_limits [(demo_name, demo_name)]
      (\<lambda>_. demo_request [] MNil)) True demo_chat (demo_rs, 0) = (r, st, (rs, n))" by (metis prod_cases3 prod.collapse)
  have "reach (relay_start demo_limits) (relay_step demo_renv demo_limits [(demo_name, demo_name)]) empty_relay"
    by (rule reach_init) (simp add: limits_ok_def demo_limits_def check_def)
  moreover have "relay_step demo_renv demo_limits [(demo_name, demo_name)] empty_relay demo_rs"
    using relay_request [of demo_renv demo_limits "[(demo_name, demo_name)]" empty_relay None "demo_request put_path (MBin demo_mail)"]
    by (simp add: demo_rs_def members_def)
  ultimately have reach: "reach (relay_start demo_limits) (relay_step demo_renv demo_limits [(demo_name, demo_name)]) demo_rs" by (rule reach_step)
  have "x \<in> set (rl_rows rs) \<or> (\<exists>n::nat. sr_received x \<le> rq_now (demo_request [] MNil) - of_int (sl_retention demo_limits)) \<or> received_in demo_env st (sr_body x)"
    by (rule no_mail_lost [OF reach demo_ids demo_packs demo_chat_ok _ _ _ _ _ s])
      (simp_all add: demo_renv_def demo_relay_env_def demo_env_def put_path_def demo_request_def x)
  with x s show ?thesis by (auto simp: demo_request_def demo_env_def)
qed

end
