(* ===== verification/Chat_Delivery.thy ===== *)
theory Chat_Delivery
  imports Chat_Mailbox
begin

text \<open>
  The foreground workers of the messenger: \<open>messenger/delivery.py\<close>, which exchanges in both directions and retries transient failures,
  and \<open>messenger/sync.py\<close>, which only pulls.  Every operation under the condition variable is one function; starting the thread and
  waiting on the condition are outside the model.  A running operation is known by the generation it started in and its cancel flag.
\<close>

record worker_limits =
  wl_cooldown :: real
  wl_max_backoff :: real
  wl_timeout :: real
  wl_max_retries :: int

record 'r worker =
  wk_online :: bool
  wk_foreground :: bool
  wk_pending :: bool
  wk_closed :: bool
  wk_generation :: nat
  wk_attempts :: nat
  wk_failures :: nat
  wk_next :: real
  wk_running :: "(nat \<times> bool) option"
  wk_result :: "'r option"
  wk_error :: "string option"

text \<open>How an operation of the mailbox ends: with a result, a mailbox error or any other exception.\<close>

datatype 'r ending = Completed 'r | Failed string | Crashed

section \<open>Lifecycle\<close>

definition new_worker :: "'r worker" where
  "new_worker = \<lparr>wk_online = False, wk_foreground = False, wk_pending = False, wk_closed = False, wk_generation = 0, wk_attempts = 0, wk_failures = 0,
     wk_next = 0, wk_running = None, wk_result = None, wk_error = None\<rparr>"

definition delivery_init :: "worker_limits \<Rightarrow> (string, 'r worker) res" where
  "delivery_init wl =
     bind_res (check (0 < wl_cooldown wl \<and> 0 < wl_max_backoff wl \<and> 0 < wl_timeout wl) ''Positive finite delivery limits required'') (\<lambda>_.
     bind_res (check (\<not> (wl_max_backoff wl < wl_cooldown wl \<or> 30 < wl_timeout wl \<or> \<not> (0 \<le> wl_max_retries wl \<and> wl_max_retries wl \<le> 5)))
       ''Invalid delivery limits'') (\<lambda>_. Inr new_worker))"

definition cancel_running :: "'r worker \<Rightarrow> 'r worker" where
  "cancel_running w = w\<lparr>wk_running := map_option (\<lambda>(g, _). (g, True)) (wk_running w)\<rparr>"

definition update :: "bool option \<Rightarrow> bool option \<Rightarrow> 'r worker \<Rightarrow> bool \<times> 'r worker" where
  "update online foreground w =
     (if wk_closed w then (False, w)
      else
        let on = (case online of None \<Rightarrow> wk_online w | Some b \<Rightarrow> b); fg = (case foreground of None \<Rightarrow> wk_foreground w | Some b \<Rightarrow> b);
            changed = (on \<noteq> wk_online w \<or> fg \<noteq> wk_foreground w) in
        (changed, if changed
           then cancel_running (w\<lparr>wk_online := on, wk_foreground := fg, wk_generation := wk_generation w + 1, wk_pending := True,
                  wk_result := None, wk_error := None\<rparr>)
           else w))"

definition request_sync :: "'r worker \<Rightarrow> bool \<times> 'r worker" where
  "request_sync w = (if wk_closed w then (False, w) else (True, w\<lparr>wk_pending := True\<rparr>))"

definition close_worker :: "'r worker \<Rightarrow> 'r worker" where
  "close_worker w = cancel_running (w\<lparr>wk_closed := True, wk_pending := False, wk_generation := wk_generation w + 1, wk_result := None, wk_error := None\<rparr>)"

section \<open>The worker loop\<close>

text \<open>The worker leaves its inner loop when it may run now.\<close>

definition may_start :: "real \<Rightarrow> 'r worker \<Rightarrow> bool" where
  "may_start now w \<longleftrightarrow> wk_running w = None \<and> \<not> wk_closed w \<and> wk_pending w \<and> wk_online w \<and> wk_foreground w \<and> wk_next w - now \<le> 0"

definition start :: "'r worker \<Rightarrow> 'r worker" where
  "start w = w\<lparr>wk_pending := False, wk_running := Some (wk_generation w, False), wk_attempts := wk_attempts w + 1\<rparr>"

definition transient :: "string list" where
  "transient = [''timeout'', ''request_failed'', ''link_failed'', ''full'', ''rate_limited'', ''unavailable'', ''busy'']"

definition error_codes :: "string list" where
  "error_codes = transient @ [''cancelled'', ''busy'', ''access_denied'', ''rejected'', ''invalid_response'', ''invalid_list'', ''invalid_batch'',
     ''invalid_ciphertext'', ''unexpected_message'', ''invalid_purge_response'']"

definition delivery_error :: "'r ending \<Rightarrow> string option" where
  "delivery_error out = (case out of
     Completed _ \<Rightarrow> None
   | Failed code \<Rightarrow> Some (if code \<in> set error_codes then code else ''exchange_failed'')
   | Crashed \<Rightarrow> Some ''exchange_failed'')"

definition result_of :: "'r ending \<Rightarrow> 'r option" where
  "result_of out = (case out of Completed r \<Rightarrow> Some r | _ \<Rightarrow> None)"

definition is_stale :: "'r worker \<Rightarrow> bool" where
  "is_stale w = (case wk_running w of None \<Rightarrow> True | Some (g, cancelled) \<Rightarrow> wk_generation w \<noteq> g \<or> cancelled)"

definition count_failure :: "string option \<Rightarrow> nat \<Rightarrow> nat" where
  "count_failure error n = (if error \<noteq> None then min (n + 1) 16 else 0)"

definition backoff :: "worker_limits \<Rightarrow> nat \<Rightarrow> real" where
  "backoff wl failures = min (wl_max_backoff wl) (wl_cooldown wl * 2 ^ (failures - 1))"

text \<open>Settle the finished exchange: publish it unless it is stale, and keep it pending for a retry or for more.\<close>

definition delivery_settle :: "worker_limits \<Rightarrow> exchange_result ending \<Rightarrow> exchange_result worker \<Rightarrow> exchange_result worker" where
  "delivery_settle wl out w =
     (let error = delivery_error out; failures = count_failure error (wk_failures w);
          again = (case out of Completed r \<Rightarrow> exchange_more r
            | _ \<Rightarrow> (case error of None \<Rightarrow> False | Some e \<Rightarrow> e \<in> set transient \<and> int failures \<le> wl_max_retries wl)) in
      w\<lparr>wk_result := result_of out, wk_error := error, wk_failures := failures, wk_pending := again \<or> wk_pending w\<rparr>)"

definition delivery_finish :: "worker_limits \<Rightarrow> real \<Rightarrow> exchange_result ending \<Rightarrow> exchange_result worker \<Rightarrow> exchange_result worker" where
  "delivery_finish wl now out w =
     (let w' = (if is_stale w then w else delivery_settle wl out w) in
      w'\<lparr>wk_running := None, wk_next := now + backoff wl (wk_failures w')\<rparr>)"

section \<open>The pulling worker\<close>

definition sync_init :: "worker_limits \<Rightarrow> (string, 'r worker) res" where
  "sync_init wl =
     bind_res (check (0 < wl_cooldown wl \<and> 0 < wl_max_backoff wl \<and> 0 < wl_timeout wl) ''Positive finite sync limits required'') (\<lambda>_.
     bind_res (check (\<not> (wl_max_backoff wl < wl_cooldown wl \<or> 30 < wl_timeout wl)) ''Invalid sync limits'') (\<lambda>_. Inr new_worker))"

definition sync_error :: "'r ending \<Rightarrow> string option" where
  "sync_error out = (case out of
     Completed _ \<Rightarrow> None
   | Failed code \<Rightarrow> Some (if code \<in> {''cancelled'', ''timeout'', ''busy'', ''access_denied'', ''request_failed'', ''link_failed''} then code else ''sync_failed'')
   | Crashed \<Rightarrow> Some ''sync_failed'')"

definition sync_finish :: "worker_limits \<Rightarrow> real \<Rightarrow> 'r ending \<Rightarrow> 'r worker \<Rightarrow> 'r worker" where
  "sync_finish wl now out w =
     (let w' = (if is_stale w then w
          else w\<lparr>wk_result := result_of out, wk_error := sync_error out, wk_failures := count_failure (sync_error out) (wk_failures w)\<rparr>) in
      w'\<lparr>wk_running := None, wk_next := now + backoff wl (wk_failures w')\<rparr>)"

end
