(* ===== verification/Chat_Delivery_Props.thy ===== *)
theory Chat_Delivery_Props
  imports Chat_Delivery
begin

text \<open>The foreground workers: what holds at any interleaving of owner and worker, and that retries happen and end.\<close>

section \<open>Interleavings\<close>

text \<open>The owner's calls and the two critical sections of the worker, in any order.\<close>

inductive worker_step :: "(real \<Rightarrow> 'r ending \<Rightarrow> 'r worker \<Rightarrow> 'r worker) \<Rightarrow> 'r worker \<Rightarrow> 'r worker \<Rightarrow> bool" for finish where
  step_update: "worker_step finish w (snd (update online foreground w))"
| step_request: "worker_step finish w (snd (request_sync w))"
| step_close: "worker_step finish w (close_worker w)"
| step_start: "may_start now w \<Longrightarrow> worker_step finish w (start w)"
| step_finish: "wk_running w \<noteq> None \<Longrightarrow> worker_step finish w (finish now out w)"

inductive_cases worker_stepE: "worker_step finish w w'"

definition worker_ok :: "'r worker \<Rightarrow> bool" where
  "worker_ok w \<longleftrightarrow> wk_failures w \<le> 16 \<and> (wk_result w = None \<or> wk_error w = None) \<and>
     (wk_closed w \<longrightarrow> \<not> wk_pending w \<and> wk_result w = None \<and> wk_error w = None \<and> is_stale w) \<and>
     (\<forall>g c. wk_running w = Some (g, c) \<longrightarrow> g \<le> wk_generation w \<and> (c \<longleftrightarrow> g \<noteq> wk_generation w))"

definition worker_le :: "'r worker \<Rightarrow> 'r worker \<Rightarrow> bool" where
  "worker_le w w' \<longleftrightarrow> wk_generation w \<le> wk_generation w' \<and> wk_attempts w \<le> wk_attempts w' \<and>
     (wk_closed w \<longrightarrow> wk_closed w' \<and> wk_attempts w' = wk_attempts w)"

text \<open>What settling a finished operation has to keep.\<close>

locale settling =
  fixes finish :: "real \<Rightarrow> 'r ending \<Rightarrow> 'r worker \<Rightarrow> 'r worker"
  assumes finish_frame: "wk_online (finish now out w) = wk_online w" "wk_foreground (finish now out w) = wk_foreground w"
      "wk_closed (finish now out w) = wk_closed w" "wk_generation (finish now out w) = wk_generation w" "wk_attempts (finish now out w) = wk_attempts w"
    and finish_idle: "wk_running (finish now out w) = None"
    and finish_stale: "is_stale w \<Longrightarrow> wk_result (finish now out w) = wk_result w \<and> wk_error (finish now out w) = wk_error w \<and>
      wk_pending (finish now out w) = wk_pending w \<and> wk_failures (finish now out w) = wk_failures w"
    and finish_failures: "wk_failures w \<le> 16 \<Longrightarrow> wk_failures (finish now out w) \<le> 16"
    and finish_result: "wk_result w = None \<or> wk_error w = None \<Longrightarrow> wk_result (finish now out w) = None \<or> wk_error (finish now out w) = None"
begin

lemma finish_ok: "worker_ok w \<Longrightarrow> worker_ok (finish now out w)"
  unfolding worker_ok_def using finish_frame finish_idle finish_stale finish_failures finish_result by (auto simp: is_stale_def)

lemma worker_keeps_ok: "worker_step finish w w' \<Longrightarrow> worker_ok w \<Longrightarrow> worker_ok w'"
proof (induction rule: worker_step.induct)
  case (step_finish w now out)
  then show ?case by (simp add: finish_ok)
qed (auto simp: worker_ok_def update_def request_sync_def close_worker_def start_def may_start_def is_stale_def cancel_running_def Let_def
      split: option.split)

lemma worker_moves_on: "worker_step finish w w' \<Longrightarrow> worker_le w w'"
  by (induction rule: worker_step.induct)
    (auto simp: worker_le_def update_def request_sync_def close_worker_def start_def may_start_def cancel_running_def Let_def finish_frame)

text \<open>The due time stands until the next attempt starts.\<close>

lemma due_stands:
  assumes "steps (worker_step finish) w u" "wk_running w = None"
  shows "wk_attempts w < wk_attempts u \<or> wk_attempts u = wk_attempts w \<and> wk_running u = None \<and> wk_next u = wk_next w"
  using assms
proof (induction rule: steps.induct)
  case (steps_step w t u)
  from steps_step.hyps(2) worker_moves_on have le: "wk_attempts t \<le> wk_attempts u" by (simp add: worker_le_def)
  show ?case
  proof (cases "wk_attempts w < wk_attempts t")
    case False
    with steps_step have t: "wk_attempts t = wk_attempts w" "wk_running t = None" "wk_next t = wk_next w" by auto
    from steps_step.hyps(2) show ?thesis
      using t by cases (auto simp: update_def request_sync_def close_worker_def start_def cancel_running_def Let_def)
  qed (use le in simp)
qed simp

end

sublocale settling \<subseteq> loop: progress_system "\<lambda>w. w = new_worker" "worker_step finish" worker_ok worker_le
proof unfold_locales
  show "s = new_worker \<Longrightarrow> worker_ok s" for s :: "'a worker" by (simp add: new_worker_def worker_ok_def is_stale_def)
qed (auto simp: worker_le_def intro: worker_keeps_ok worker_moves_on dest: worker_moves_on)

lemma count_failure_bound: "count_failure e n \<le> 16"
  by (simp add: count_failure_def)

interpretation dlv: settling "delivery_finish wl" for wl
  by unfold_locales
    (auto simp: delivery_finish_def delivery_settle_def Let_def count_failure_bound result_of_def delivery_error_def split: ending.split)

interpretation syn: settling "sync_finish wl" for wl
  by unfold_locales (auto simp: sync_finish_def Let_def count_failure_bound result_of_def sync_error_def split: ending.split)

section \<open>Properties\<close>

lemma backoff_bounds:
  assumes "delivery_init wl = Inr (w0 :: 'r worker)"
  shows "wl_cooldown wl \<le> backoff wl n \<and> backoff wl n \<le> wl_max_backoff wl"
proof -
  have "0 < wl_cooldown wl" "wl_cooldown wl \<le> wl_max_backoff wl" using assms by (auto simp: delivery_init_def)
  moreover have "(1 :: real) \<le> 2 ^ (n - 1)" by simp
  ultimately show ?thesis by (simp add: backoff_def)
qed

definition eager :: "exchange_result worker \<Rightarrow> bool" where
  "eager w \<longleftrightarrow> wk_running w = None \<and> \<not> wk_closed w \<and> wk_pending w \<and> wk_online w \<and> wk_foreground w"

text \<open>C37. However the owner's calls and the worker interleave, an exchange is marked cancelled exactly if the lifecycle changed while it
  ran, and then it publishes nothing; after closing, nothing is pending or shown and no further attempt starts; a result and an error are never
  shown together; and attempts are spaced: after an exchange has ended, whatever the owner calls, the next one does not start before the
  backoff for the failures so far has passed, which is at least the cooldown, and an exchange that is pending in the foreground may start
  once the maximal backoff has passed.\<close>

theorem delivery_is_sound:
  assumes "delivery_init wl = Inr (w0 :: exchange_result worker)" "reach (\<lambda>w. w = new_worker) (worker_step (delivery_finish wl)) w"
    "steps (worker_step (delivery_finish wl)) w w'"
  shows "(wk_result w' = None \<or> wk_error w' = None) \<and> wk_failures w' \<le> 16 \<and>
    (\<forall>g c. wk_running w' = Some (g, c) \<longrightarrow> (c \<longleftrightarrow> g \<noteq> wk_generation w') \<and>
      (c \<longrightarrow> wk_result (delivery_finish wl now out w') = wk_result w' \<and> wk_error (delivery_finish wl now out w') = wk_error w' \<and>
        wk_pending (delivery_finish wl now out w') = wk_pending w')) \<and>
    (wk_closed w \<longrightarrow> wk_closed w' \<and> wk_attempts w' = wk_attempts w \<and> \<not> wk_pending w' \<and> wk_result w' = None \<and> wk_error w' = None) \<and>
    (\<forall>v u t. v = delivery_finish wl now out w' \<longrightarrow> steps (worker_step (delivery_finish wl)) v u \<longrightarrow> wk_attempts u = wk_attempts v \<longrightarrow>
      (may_start t u \<longrightarrow> now + wl_cooldown wl \<le> now + backoff wl (wk_failures v) \<and> now + backoff wl (wk_failures v) \<le> t) \<and>
      (eager u \<longrightarrow> now + wl_max_backoff wl \<le> t \<longrightarrow> may_start t u))"
proof -
  have ok: "worker_ok w" by (rule dlv.loop.reach_inv [OF assms(2)])
  have ok': "worker_ok w'" by (rule dlv.loop.steps_inv [OF ok assms(3)])
  have le: "worker_le w w'" by (rule dlv.loop.steps_le [OF assms(3) ok])
  let ?v = "delivery_finish wl now out w'"
  have v: "wk_running ?v = None" "wk_next ?v = now + backoff wl (wk_failures ?v)"
    by (rule dlv.finish_idle, simp add: delivery_finish_def Let_def)
  have spaced: "(may_start t u \<longrightarrow> now + wl_cooldown wl \<le> now + backoff wl (wk_failures ?v) \<and> now + backoff wl (wk_failures ?v) \<le> t) \<and>
      (eager u \<longrightarrow> now + wl_max_backoff wl \<le> t \<longrightarrow> may_start t u)"
    if "steps (worker_step (delivery_finish wl)) ?v u" "wk_attempts u = wk_attempts ?v" for u t
  proof -
    have "wk_next u = now + backoff wl (wk_failures ?v)" using dlv.due_stands [OF that(1) v(1)] that(2) v(2) by simp
    with backoff_bounds [OF assms(1), of "wk_failures ?v"] show ?thesis by (auto simp: may_start_def eager_def)
  qed
  moreover have "is_stale w'" if "wk_running w' = Some (g, c)" c for g c using that by (simp add: is_stale_def)
  ultimately show ?thesis using ok' le dlv.finish_stale [of w' wl now out] unfolding worker_ok_def worker_le_def by (intro conjI allI impI) simp_all
qed

text \<open>The worker on its own: it starts as soon as it may and finishes with the given outcomes at the given times.\<close>

fun drive :: "worker_limits \<Rightarrow> (real \<times> exchange_result ending) list \<Rightarrow> exchange_result worker \<Rightarrow> exchange_result worker" where
  "drive wl [] w = w"
| "drive wl ((t, out) # outs) w = (if may_start (wk_next w) w then drive wl outs (delivery_finish wl t out (start w)) else w)"

lemma eager_start: "eager w \<Longrightarrow> may_start (wk_next w) w \<and> \<not> is_stale (start w)"
  by (simp add: eager_def may_start_def start_def is_stale_def)

lemma failing_attempt:
  assumes "eager w" "code \<in> set transient" "wk_failures w < 16"
  shows "wk_attempts (delivery_finish wl t (Failed code) (start w)) = wk_attempts w + 1"
    "wk_failures (delivery_finish wl t (Failed code) (start w)) = wk_failures w + 1"
    "eager (delivery_finish wl t (Failed code) (start w)) \<longleftrightarrow> int (wk_failures w) + 1 \<le> wl_max_retries wl"
    "wk_error (delivery_finish wl t (Failed code) (start w)) = Some code"
proof -
  have "code \<in> set error_codes" using assms(2) by (simp add: error_codes_def)
  then show "wk_attempts (delivery_finish wl t (Failed code) (start w)) = wk_attempts w + 1"
    "wk_failures (delivery_finish wl t (Failed code) (start w)) = wk_failures w + 1"
    "eager (delivery_finish wl t (Failed code) (start w)) \<longleftrightarrow> int (wk_failures w) + 1 \<le> wl_max_retries wl"
    "wk_error (delivery_finish wl t (Failed code) (start w)) = Some code"
    using assms eager_start [OF assms(1)]
    by (auto simp: delivery_finish_def delivery_settle_def delivery_error_def count_failure_def eager_def start_def Let_def)
qed

lemma not_eager_drive: "\<not> wk_pending w \<Longrightarrow> drive wl outs w = w"
  by (cases outs) (auto simp: may_start_def)

text \<open>Transient failures are retried up to the limit.\<close>

lemma drive_failures:
  assumes "\<forall>(t, out)\<in>set outs. \<exists>code\<in>set transient. out = Failed code" "eager w" "int (wk_failures w) + int (length outs) \<le> wl_max_retries wl" "wl_max_retries wl \<le> 5"
  shows "eager (drive wl outs w) \<and> wk_attempts (drive wl outs w) = wk_attempts w + length outs \<and> wk_failures (drive wl outs w) = wk_failures w + length outs"
  using assms
proof (induction outs arbitrary: w)
  case (Cons x outs)
  obtain t code where x: "x = (t, Failed code)" "code \<in> set transient" using Cons.prems(1) by (cases x) auto
  let ?w = "delivery_finish wl t (Failed code) (start w)"
  have "wk_failures w < 16" using Cons.prems by simp
  note f = failing_attempt [OF Cons.prems(2) x(2) this, of wl t]
  have "eager ?w" using f(3) Cons.prems(3) by simp
  with Cons.IH [of ?w] Cons.prems f have "eager (drive wl outs ?w) \<and> wk_attempts (drive wl outs ?w) = wk_attempts w + 1 + length outs \<and>
      wk_failures (drive wl outs ?w) = wk_failures w + 1 + length outs" by simp
  with x eager_start [OF Cons.prems(2)] show ?case by simp
qed simp

lemma drive_append: "eager (drive wl xs w) \<Longrightarrow> drive wl (xs @ ys) w = drive wl ys (drive wl xs w)"
  by (induction xs arbitrary: w) (auto simp: eager_def may_start_def split: if_split_asm)

text \<open>C38. Left alone in the foreground with a pending exchange, the worker retries transient failures: an exchange that succeeds after at
  most the allowed number of failures shows its result and clears the error; if the failures go on, the retries end after exactly that
  number with the last error shown, and nothing is pending until a new event.\<close>

theorem delivery_retries:
  assumes "delivery_init wl = Inr (w0 :: exchange_result worker)" "eager w" "wk_failures w = 0"
    and "\<And>t out. (t, out) \<in> set outs \<Longrightarrow> \<exists>code\<in>set transient. out = Failed code"
  shows "(int (length outs) \<le> wl_max_retries wl \<longrightarrow> wk_result (drive wl (outs @ [(t, Completed r)]) w) = Some r \<and>
      wk_error (drive wl (outs @ [(t, Completed r)]) w) = None \<and> wk_failures (drive wl (outs @ [(t, Completed r)]) w) = 0) \<and>
    (wl_max_retries wl < int (length outs) \<longrightarrow> int (wk_attempts (drive wl outs w)) = int (wk_attempts w) + wl_max_retries wl + 1 \<and>
      \<not> wk_pending (drive wl outs w) \<and> (\<exists>code\<in>set transient. wk_error (drive wl outs w) = Some code))"
proof -
  have lim: "0 \<le> wl_max_retries wl" "wl_max_retries wl \<le> 5" using assms(1) by (auto simp: delivery_init_def)
  have fails: "\<forall>(t, out)\<in>set xs. \<exists>code\<in>set transient. out = Failed code" if "set xs \<subseteq> set outs" for xs using assms(4) that by fast
  have "int (length outs) \<le> wl_max_retries wl \<longrightarrow> wk_result (drive wl (outs @ [(t, Completed r)]) w) = Some r \<and>
      wk_error (drive wl (outs @ [(t, Completed r)]) w) = None \<and> wk_failures (drive wl (outs @ [(t, Completed r)]) w) = 0"
  proof
    assume "int (length outs) \<le> wl_max_retries wl"
    with drive_failures [OF fails assms(2)] assms(3) lim have e: "eager (drive wl outs w)" by simp
    from drive_append [OF e] eager_start [OF e] show "wk_result (drive wl (outs @ [(t, Completed r)]) w) = Some r \<and>
      wk_error (drive wl (outs @ [(t, Completed r)]) w) = None \<and> wk_failures (drive wl (outs @ [(t, Completed r)]) w) = 0"
      by (simp add: delivery_finish_def delivery_settle_def delivery_error_def result_of_def count_failure_def Let_def)
  qed
  moreover have "wl_max_retries wl < int (length outs) \<longrightarrow> int (wk_attempts (drive wl outs w)) = int (wk_attempts w) + wl_max_retries wl + 1 \<and>
      \<not> wk_pending (drive wl outs w) \<and> (\<exists>code\<in>set transient. wk_error (drive wl outs w) = Some code)"
  proof
    assume long: "wl_max_retries wl < int (length outs)"
    define n where "n = nat (wl_max_retries wl)"
    have n: "n < length outs" "int n = wl_max_retries wl" using long lim by (auto simp: n_def)
    define w1 where "w1 = drive wl (take n outs) w"
    have w1: "eager w1" "wk_attempts w1 = wk_attempts w + n" "wk_failures w1 = n"
      using drive_failures [OF fails [OF set_take_subset [of n outs]] assms(2)] assms(3) lim n by (auto simp: w1_def)
    obtain t code where x: "outs ! n = (t, Failed code)" "code \<in> set transient" using assms(4) nth_mem [OF n(1)] by (metis surj_pair)
    let ?w = "delivery_finish wl t (Failed code) (start w1)"
    have f: "wk_attempts ?w = wk_attempts w1 + 1" "\<not> eager ?w" "wk_error ?w = Some code"
      using failing_attempt [OF w1(1) x(2), of wl t] w1(3) n lim by auto
    have "\<not> wk_pending ?w" using f(2) w1(1) dlv.finish_frame [of wl t "Failed code" "start w1"] dlv.finish_idle [of wl t "Failed code" "start w1"]
      by (auto simp: eager_def start_def)
    moreover have "drive wl outs w = ?w"
    proof -
      have "outs = take n outs @ outs ! n # drop (Suc n) outs" using n(1) by (rule id_take_nth_drop)
      then have "drive wl outs w = drive wl ((t, Failed code) # drop (Suc n) outs) w1" using drive_append [of wl "take n outs" w] w1(1) x(1) w1_def by metis
      with eager_start [OF w1(1)] not_eager_drive [OF calculation] show ?thesis by simp
    qed
    ultimately show "int (wk_attempts (drive wl outs w)) = int (wk_attempts w) + wl_max_retries wl + 1 \<and>
      \<not> wk_pending (drive wl outs w) \<and> (\<exists>code\<in>set transient. wk_error (drive wl outs w) = Some code)" using f w1 n x by simp
  qed
  ultimately show ?thesis by blast
qed

section \<open>A worker that fails once\<close>

definition demo_worker_limits :: worker_limits where
  "demo_worker_limits = \<lparr>wl_cooldown = 4, wl_max_backoff = 300, wl_timeout = 12, wl_max_retries = 1\<rparr>"

definition demo_ready :: "exchange_result worker" where
  "demo_ready = snd (update (Some True) (Some True) new_worker)"

definition demo_result :: exchange_result where
  "demo_result = \<lparr>er_received = \<lparr>sy_stored = 0, sy_duplicates = 0, sy_rejected = 0, sy_purged = 0\<rparr>, er_relayed = 0, er_pending = 0, er_more_incoming = False\<rparr>"

lemma demo_worker_init: "delivery_init demo_worker_limits = Inr new_worker"
  by (simp add: delivery_init_def demo_worker_limits_def check_def)

lemma demo_ready_eager: "eager demo_ready" "wk_failures demo_ready = 0"
  by (simp_all add: demo_ready_def update_def new_worker_def eager_def cancel_running_def Let_def)

theorem delivery_is_sound_witness:
  "wk_closed (close_worker (start demo_ready)) \<and>
   wk_result (delivery_finish demo_worker_limits 7 (Completed demo_result) (close_worker (start demo_ready))) = wk_result (close_worker (start demo_ready))"
proof -
  let ?w = "close_worker (start demo_ready)"
  have "reach (\<lambda>w. w = new_worker) (worker_step (delivery_finish demo_worker_limits)) new_worker" by (rule reach_init) simp
  then have "reach (\<lambda>w. w = new_worker) (worker_step (delivery_finish demo_worker_limits)) demo_ready"
    unfolding demo_ready_def by (rule reach_step) (rule step_update)
  then have "reach (\<lambda>w. w = new_worker) (worker_step (delivery_finish demo_worker_limits)) (start demo_ready)"
    by (rule reach_step) (rule step_start [of "wk_next demo_ready"], rule conjunct1 [OF eager_start [OF demo_ready_eager(1)]])
  moreover have "steps (worker_step (delivery_finish demo_worker_limits)) (start demo_ready) ?w" by (rule step_steps) (rule step_close)
  moreover have "wk_running ?w = Some (wk_generation demo_ready, True)" "wk_closed ?w" by (simp_all add: close_worker_def cancel_running_def start_def)
  ultimately show ?thesis using delivery_is_sound [OF demo_worker_init, of "start demo_ready" ?w 7 "Completed demo_result"] by auto
qed

theorem delivery_retries_witness:
  "wk_result (drive demo_worker_limits ([(5, Failed ''timeout'')] @ [(9, Completed demo_result)]) demo_ready) = Some demo_result \<and>
   \<not> wk_pending (drive demo_worker_limits [(5, Failed ''timeout''), (9, Failed ''busy'')] demo_ready)"
proof -
  have t: "''timeout'' \<in> set transient" "''busy'' \<in> set transient" by (simp_all add: transient_def)
  have l: "wl_max_retries demo_worker_limits = 1" by (simp add: demo_worker_limits_def)
  have "wk_result (drive demo_worker_limits ([(5, Failed ''timeout'')] @ [(9, Completed demo_result)]) demo_ready) = Some demo_result"
    using delivery_retries [OF demo_worker_init demo_ready_eager, of "[(5, Failed ''timeout'')]" 9 demo_result] t l by auto
  moreover define outs :: "(real \<times> exchange_result ending) list" where "outs = [(5, Failed ''timeout''), (9, Failed ''busy'')]"
  moreover have "\<not> wk_pending (drive demo_worker_limits outs demo_ready)"
  proof -
    have f: "\<exists>code\<in>set transient. out = Failed code" if "(u, out) \<in> set outs" for u out
      using that t by (auto simp: outs_def)
    have "length outs = 2" by (simp add: outs_def)
    then show ?thesis using delivery_retries [OF demo_worker_init demo_ready_eager, of outs 9 demo_result, OF f] l by simp
  qed
  ultimately show ?thesis by simp
qed

end
