(* ===== verification/Product_Store.thy ===== *)
theory Product_Store
  imports Device_Proof Transition_Systems "HOL-Library.Product_Lexorder" "HOL-Library.List_Lexorder" "HOL-Library.Char_ord"
begin

text \<open>
  The product plane: enrollment in \<open>control/product/store.py\<close>, the peer work queue in \<open>control/product/gateways.py\<close>, authenticated
  delivery in \<open>control/product/provisioning.py\<close> and its proof in \<open>provisioning/auth.py\<close>.  The tables are lists of rows with the constraints
  of \<open>control/migrations\<close>; an operation is one transaction.  Clock readings, random ids, SHA-256 and the Reticulum identity are
  arguments; so are the network state the provisioning model accepted and the envelope issued for it.
\<close>

section \<open>Tables\<close>

record entitlement =
  en_id :: string
  en_family :: string
  en_revision :: int
  en_expires :: int
  en_limit :: int
  en_revoked :: "int option"

record invitation =
  iv_id :: string
  iv_token :: string
  iv_entitlement :: string
  iv_created :: int
  iv_expires :: int
  iv_max :: int
  iv_uses :: int
  iv_revoked :: "int option"

record enroll_challenge =
  ch_hash :: string
  ch_invitation :: string
  ch_public :: string
  ch_wg :: string
  ch_created :: int
  ch_expires :: int
  ch_consumed :: "int option"

record device =
  dv_id :: string
  dv_public :: string
  dv_created :: int
  dv_revoked :: "int option"

record member =
  dm_device :: string
  dm_entitlement :: string
  dm_joined :: int

record transport_key =
  ky_id :: string
  ky_device :: string
  ky_public :: string
  ky_registered :: int
  ky_revoked :: "int option"

text \<open>The network state of a device: its addresses with whether each is a host route, its gateways, and everything else of it.\<close>

record network =
  nw_addresses :: "(string \<times> bool) list"
  nw_gateways :: "string list"
  nw_rest :: string

record deployment =
  dp_device :: string
  dp_network :: network
  dp_expires :: int

record job =
  jb_device :: string
  jb_gateway :: string
  jb_public :: string
  jb_desired :: bool
  jb_applied :: "bool option"
  jb_attempts :: nat
  jb_retry :: int
  jb_checked :: "int option"
  jb_error :: bool

record fetch_challenge =
  fc_hash :: string
  fc_device :: string
  fc_public :: string
  fc_wg :: string
  fc_expires :: int
  fc_consumed :: "int option"

record version =
  pv_device :: string
  pv_revision :: int
  pv_entitlement :: string
  pv_ent_revision :: int
  pv_wg :: string
  pv_issued :: int
  pv_expires :: int
  pv_envelope :: string

record product =
  pd_families :: "(string \<times> int) list"
  pd_entitlements :: "entitlement list"
  pd_invitations :: "invitation list"
  pd_challenges :: "enroll_challenge list"
  pd_devices :: "device list"
  pd_members :: "member list"
  pd_keys :: "transport_key list"
  pd_audit :: "(string \<times> string \<times> int) list"
  pd_deployments :: "deployment list"
  pd_allocations :: "(string \<times> string) list"
  pd_jobs :: "job list"
  pd_fetches :: "fetch_challenge list"
  pd_versions :: "version list"

definition empty_product :: product where
  "empty_product = \<lparr>pd_families = [], pd_entitlements = [], pd_invitations = [], pd_challenges = [], pd_devices = [], pd_members = [], pd_keys = [],
     pd_audit = [], pd_deployments = [], pd_allocations = [], pd_jobs = [], pd_fetches = [], pd_versions = []\<rparr>"

datatype product_error = EnrollmentRejected | ProductValue string | IntegrityError | ProvisioningRejected string | ProductPy string

type_synonym 'a pres = "(product_error, 'a) res"

record product_env =
  pe_sha256 :: "string \<Rightarrow> string"
  pe_ident :: "string \<Rightarrow> string"
  pe_validates :: "string \<Rightarrow> string \<Rightarrow> string \<Rightarrow> bool"

text \<open>\<open>_hash\<close>: the hexadecimal digest.\<close>

definition hash_of :: "product_env \<Rightarrow> string \<Rightarrow> string" where
  "hash_of env v = bytes_hex (pe_sha256 env v)"

definition audit :: "string \<Rightarrow> string \<Rightarrow> int \<Rightarrow> product \<Rightarrow> product" where
  "audit event subject now st = st\<lparr>pd_audit := pd_audit st @ [(event, subject, now)]\<rparr>"

section \<open>Fields\<close>

definition public_field :: "nat \<Rightarrow> json \<Rightarrow> string pres" where
  "public_field n v = (case v of
     JStr s \<Rightarrow>
       bind_res (check (length s \<le> 128) EnrollmentRejected) (\<lambda>_.
       case b64decode s of
         None \<Rightarrow> Inl EnrollmentRejected
       | Some raw \<Rightarrow> bind_res (check (length raw = n \<and> b64encode raw = s \<and> raw \<noteq> replicate n (byte_char 0)) EnrollmentRejected) (\<lambda>_. Inr s))
   | _ \<Rightarrow> Inl EnrollmentRejected)"

definition token_field :: "json \<Rightarrow> string pres" where
  "token_field v = (case v of
     JStr s \<Rightarrow> bind_res (check (length s = 64 \<and> list_all is_hex s) EnrollmentRejected) (\<lambda>_. Inr s)
   | _ \<Rightarrow> Inl EnrollmentRejected)"

section \<open>Enrollment\<close>

definition create_entitlement :: "int \<Rightarrow> int \<Rightarrow> int \<Rightarrow> string \<Rightarrow> string \<Rightarrow> product \<Rightarrow> product pres" where
  "create_entitlement now expires limit family ident st =
     bind_res (check (now < expires \<and> 1 \<le> limit \<and> limit \<le> 100) (ProductValue ''invalid entitlement parameters'')) (\<lambda>_.
     bind_res (check (family \<notin> fst ` set (pd_families st) \<and> ident \<notin> en_id ` set (pd_entitlements st) \<and> family \<notin> en_family ` set (pd_entitlements st))
       IntegrityError) (\<lambda>_.
     Inr (audit ''entitlement_created'' ident now (st\<lparr>pd_families := pd_families st @ [(family, now)],
       pd_entitlements := pd_entitlements st @ [\<lparr>en_id = ident, en_family = family, en_revision = 1, en_expires = expires, en_limit = limit, en_revoked = None\<rparr>]\<rparr>))))"

definition live_entitlement :: "string \<Rightarrow> int \<Rightarrow> product \<Rightarrow> entitlement pres" where
  "live_entitlement ident now st = (case row (\<lambda>e. en_id e = ident) (pd_entitlements st) of
     None \<Rightarrow> Inl EnrollmentRejected
   | Some e \<Rightarrow> bind_res (check (en_revoked e = None \<and> now < en_expires e) EnrollmentRejected) (\<lambda>_. Inr e))"

definition create_invitation :: "product_env \<Rightarrow> string \<Rightarrow> int \<Rightarrow> int \<Rightarrow> int \<Rightarrow> string \<Rightarrow> string \<Rightarrow> product \<Rightarrow> product pres" where
  "create_invitation env ent now expires max_uses token ident st =
     bind_res (check (now < expires \<and> expires \<le> now + 7 * 86400 \<and> 1 \<le> max_uses \<and> max_uses \<le> 100) (ProductValue ''invalid invitation parameters'')) (\<lambda>_.
     bind_res (live_entitlement ent now st) (\<lambda>e.
     bind_res (check (expires \<le> en_expires e) (ProductValue ''invitation exceeds entitlement validity'')) (\<lambda>_.
     bind_res (check (ident \<notin> iv_id ` set (pd_invitations st) \<and> hash_of env token \<notin> iv_token ` set (pd_invitations st)) IntegrityError) (\<lambda>_.
     Inr (audit ''invitation_created'' ident now (st\<lparr>pd_invitations := pd_invitations st @
       [\<lparr>iv_id = ident, iv_token = hash_of env token, iv_entitlement = ent, iv_created = now, iv_expires = expires, iv_max = max_uses, iv_uses = 0,
         iv_revoked = None\<rparr>]\<rparr>))))))"

definition valid_invitation :: "invitation option \<Rightarrow> int \<Rightarrow> product \<Rightarrow> (invitation \<times> entitlement) pres" where
  "valid_invitation found now st = (case found of
     None \<Rightarrow> Inl EnrollmentRejected
   | Some i \<Rightarrow>
       bind_res (check (iv_revoked i = None \<and> now < iv_expires i \<and> iv_uses i < iv_max i) EnrollmentRejected) (\<lambda>_.
       bind_res (live_entitlement (iv_entitlement i) now st) (\<lambda>e. Inr (i, e))))"

definition enroll_challenge_op :: "product_env \<Rightarrow> json \<Rightarrow> json \<Rightarrow> json \<Rightarrow> string \<Rightarrow> int \<Rightarrow> product \<Rightarrow> (string \<times> int \<times> product) pres" where
  "enroll_challenge_op env token public wg random now st =
     bind_res (token_field token) (\<lambda>tok.
     bind_res (public_field 64 public) (\<lambda>pub.
     bind_res (public_field 32 wg) (\<lambda>key.
     let nonce = b64encode random in
     bind_res (valid_invitation (row (\<lambda>i. iv_token i = hash_of env tok) (pd_invitations st)) now st) (\<lambda>(i, e).
     bind_res (check (count_rows (\<lambda>c. ch_invitation c = iv_id i \<and> now < ch_expires c \<and> ch_consumed c = None) (pd_challenges st) < 16) EnrollmentRejected) (\<lambda>_.
     let expiry = min (now + 120) (min (iv_expires i) (en_expires e)) in
     bind_res (check (hash_of env nonce \<notin> ch_hash ` set (pd_challenges st)) IntegrityError) (\<lambda>_.
     Inr (nonce, expiry, st\<lparr>pd_challenges := pd_challenges st @ [\<lparr>ch_hash = hash_of env nonce, ch_invitation = iv_id i, ch_public = pub, ch_wg = key,
       ch_created = now, ch_expires = expiry, ch_consumed = None\<rparr>]\<rparr>)))))))"

text \<open>Devices of an entitlement that are not revoked; ids of devices are unique.\<close>

definition find_device :: "string \<Rightarrow> product \<Rightarrow> device option" where
  "find_device i st = row (\<lambda>d. dv_id d = i) (pd_devices st)"

definition active_device :: "product \<Rightarrow> string \<Rightarrow> bool" where
  "active_device st i = (case find_device i st of None \<Rightarrow> False | Some d \<Rightarrow> dv_revoked d = None)"

definition occupied :: "product \<Rightarrow> string \<Rightarrow> int" where
  "occupied st ent = count_rows (\<lambda>m. dm_entitlement m = ent \<and> active_device st (dm_device m)) (pd_members st)"

definition proof_text :: "json \<Rightarrow> string \<Rightarrow> json" where
  "proof_text p k = (case p of JObj d \<Rightarrow> get_field d k | _ \<Rightarrow> JNull)"

text \<open>The row of a challenge that is still open for the given keys.\<close>

definition open_challenge :: "product_env \<Rightarrow> string \<Rightarrow> json \<Rightarrow> int \<Rightarrow> product \<Rightarrow> enroll_challenge pres" where
  "open_challenge env nonce p now st = (case row (\<lambda>c. ch_hash c = hash_of env nonce) (pd_challenges st) of
     None \<Rightarrow> Inl EnrollmentRejected
   | Some c \<Rightarrow> bind_res (check (ch_consumed c = None \<and> now < ch_expires c \<and> JStr (ch_public c) = proof_text p ''public_identity'' \<and>
       JStr (ch_wg c) = proof_text p ''wireguard_public_key'') EnrollmentRejected) (\<lambda>_. Inr c))"

definition add_device :: "string \<Rightarrow> string \<Rightarrow> string \<Rightarrow> string \<Rightarrow> string \<Rightarrow> int \<Rightarrow> product \<Rightarrow> product pres" where
  "add_device ident public wg ent key now st =
     bind_res (check (ident \<notin> dv_id ` set (pd_devices st) \<and> public \<notin> dv_public ` set (pd_devices st) \<and> ident \<notin> dm_device ` set (pd_members st) \<and>
       key \<notin> ky_id ` set (pd_keys st) \<and> wg \<notin> ky_public ` set (pd_keys st) \<and> ident \<notin> ky_device ` set (pd_keys st)) EnrollmentRejected) (\<lambda>_.
     Inr (st\<lparr>pd_devices := pd_devices st @ [\<lparr>dv_id = ident, dv_public = public, dv_created = now, dv_revoked = None\<rparr>],
       pd_members := pd_members st @ [\<lparr>dm_device = ident, dm_entitlement = ent, dm_joined = now\<rparr>],
       pd_keys := pd_keys st @ [\<lparr>ky_id = key, ky_device = ident, ky_public = wg, ky_registered = now, ky_revoked = None\<rparr>]\<rparr>))"

text \<open>Consume the challenge and one use of the invitation.\<close>

definition use_invitation :: "product_env \<Rightarrow> string \<Rightarrow> string \<Rightarrow> string \<Rightarrow> int \<Rightarrow> product \<Rightarrow> product" where
  "use_invitation env nonce invitation ident now st = audit ''device_enrolled'' ident now (st\<lparr>
     pd_challenges := update_rows (\<lambda>c. ch_hash c = hash_of env nonce) (\<lambda>c. c\<lparr>ch_consumed := Some now\<rparr>) (pd_challenges st),
     pd_invitations := update_rows (\<lambda>j. iv_id j = invitation) (\<lambda>j. j\<lparr>iv_uses := iv_uses j + 1\<rparr>) (pd_invitations st)\<rparr>)"

definition enroll :: "product_env \<Rightarrow> json \<Rightarrow> string \<Rightarrow> int \<Rightarrow> product \<Rightarrow> (string \<times> product) pres" where
  "enroll env p key now st =
     bind_res (public_field 32 (proof_text p ''challenge'')) (\<lambda>nonce.
     bind_res (map_err (\<lambda>_. EnrollmentRejected) (verify_transport_key_proof (pe_ident env) (pe_validates env) p (JStr nonce) enrollment_audience)) (\<lambda>ident.
     bind_res (open_challenge env nonce p now st) (\<lambda>c.
     bind_res (valid_invitation (row (\<lambda>i. iv_id i = ch_invitation c) (pd_invitations st)) now st) (\<lambda>(i, e).
     bind_res (check (occupied st (en_id e) < en_limit e) EnrollmentRejected) (\<lambda>_.
     bind_res (add_device ident (ch_public c) (ch_wg c) (en_id e) key now st) (\<lambda>st1.
     Inr (ident, use_invitation env nonce (iv_id i) ident now st1)))))))"

section \<open>Authorization and revocation\<close>

text \<open>The join of device, membership and key that authorizes a device.\<close>

definition device_authorized :: "string \<Rightarrow> int \<Rightarrow> product \<Rightarrow> (device \<times> transport_key \<times> entitlement) pres" where
  "device_authorized ident now st =
     (case (find_device ident st, row (\<lambda>m. dm_device m = ident) (pd_members st), row (\<lambda>k. ky_device k = ident) (pd_keys st)) of
        (Some d, Some m, Some k) \<Rightarrow>
          bind_res (check (dv_revoked d = None \<and> ky_revoked k = None) (ProvisioningRejected ''provisioning rejected'')) (\<lambda>_.
          bind_res (map_err (\<lambda>_. ProvisioningRejected ''provisioning rejected'') (live_entitlement (dm_entitlement m) now st)) (\<lambda>e. Inr (d, k, e)))
      | _ \<Rightarrow> Inl (ProvisioningRejected ''provisioning rejected''))"

text \<open>The same lookup as the store answers it.\<close>

definition authorization :: "string \<Rightarrow> int \<Rightarrow> product \<Rightarrow> (string \<times> string \<times> int \<times> int \<times> string) pres" where
  "authorization ident now st =
     (case (find_device ident st, row (\<lambda>m. dm_device m = ident) (pd_members st), row (\<lambda>k. ky_device k = ident) (pd_keys st)) of
        (Some d, Some m, Some k) \<Rightarrow>
          bind_res (check (dv_revoked d = None \<and> ky_revoked k = None) EnrollmentRejected) (\<lambda>_.
          bind_res (live_entitlement (dm_entitlement m) now st) (\<lambda>e. Inr (ident, en_id e, en_revision e, en_expires e, ky_public k)))
      | _ \<Rightarrow> Inl EnrollmentRejected)"

definition gateway_revoke :: "string \<Rightarrow> product \<Rightarrow> product" where
  "gateway_revoke ident st = st\<lparr>pd_jobs := update_rows (\<lambda>j. jb_device j = ident \<and> jb_desired j)
     (\<lambda>j. j\<lparr>jb_desired := False, jb_retry := 0, jb_attempts := 0, jb_error := False\<rparr>) (pd_jobs st)\<rparr>"

definition revoke_device :: "string \<Rightarrow> int \<Rightarrow> product \<Rightarrow> product" where
  "revoke_device ident now st =
     (let live = (\<lambda>d. dv_id d = ident \<and> dv_revoked d = None);
          st' = gateway_revoke ident (st\<lparr>pd_devices := update_rows live (\<lambda>d. d\<lparr>dv_revoked := Some now\<rparr>) (pd_devices st),
            pd_keys := update_rows (\<lambda>k. ky_device k = ident \<and> ky_revoked k = None) (\<lambda>k. k\<lparr>ky_revoked := Some now\<rparr>) (pd_keys st)\<rparr>) in
      if 0 < count_rows live (pd_devices st) then audit ''device_revoked'' ident now st' else st')"

definition revoke_entitlement :: "string \<Rightarrow> int \<Rightarrow> product \<Rightarrow> product" where
  "revoke_entitlement ident now st =
     (let live = (\<lambda>e. en_id e = ident \<and> en_revoked e = None);
          members = map dm_device (filter (\<lambda>m. dm_entitlement m = ident) (pd_members st));
          st' = fold gateway_revoke members
            (st\<lparr>pd_entitlements := update_rows live (\<lambda>e. e\<lparr>en_revoked := Some now, en_revision := en_revision e + 1\<rparr>) (pd_entitlements st)\<rparr>) in
      if 0 < count_rows live (pd_entitlements st) then audit ''entitlement_revoked'' ident now st' else st')"

definition revoke_invitation :: "string \<Rightarrow> int \<Rightarrow> product \<Rightarrow> product" where
  "revoke_invitation ident now st =
     (let live = (\<lambda>i. iv_id i = ident \<and> iv_revoked i = None);
          st' = st\<lparr>pd_invitations := update_rows live (\<lambda>i. i\<lparr>iv_revoked := Some now\<rparr>) (pd_invitations st)\<rparr> in
      if 0 < count_rows live (pd_invitations st) then audit ''invitation_revoked'' ident now st' else st')"

definition prune_challenges :: "int \<Rightarrow> product \<Rightarrow> product" where
  "prune_challenges now st = st\<lparr>pd_challenges := filter (\<lambda>c. \<not> ch_expires c \<le> now) (pd_challenges st),
     pd_fetches := filter (\<lambda>c. \<not> fc_expires c \<le> now) (pd_fetches st)\<rparr>"

section \<open>Gateways\<close>

definition find_deployment :: "string \<Rightarrow> product \<Rightarrow> deployment option" where
  "find_deployment i st = row (\<lambda>d. dp_device d = i) (pd_deployments st)"

text \<open>Allocate the addresses of a device, none of which may belong to another.\<close>

fun allocate_addresses :: "string \<Rightarrow> string list \<Rightarrow> (string \<times> string) list \<Rightarrow> (string \<times> string) list pres" where
  "allocate_addresses ident [] t = Inr t"
| "allocate_addresses ident (a # as) t = (case map_of t a of
     Some owner \<Rightarrow> if owner \<noteq> ident then Inl (ProductValue ''address already allocated'') else allocate_addresses ident as t
   | None \<Rightarrow> allocate_addresses ident as (t @ [(a, ident)]))"

definition put_job :: "string \<Rightarrow> string \<Rightarrow> string \<Rightarrow> job list \<Rightarrow> job list" where
  "put_job ident public gateway t =
     (let same = (\<lambda>j. jb_device j = ident \<and> jb_gateway j = gateway) in
      if row same t \<noteq> None
      then update_rows same (\<lambda>j. j\<lparr>jb_desired := True, jb_applied := None, jb_retry := 0, jb_attempts := 0, jb_error := False\<rparr>) t
      else t @ [\<lparr>jb_device = ident, jb_gateway = gateway, jb_public = public, jb_desired = True, jb_applied = None, jb_attempts = 0, jb_retry = 0,
             jb_checked = None, jb_error = False\<rparr>])"

definition stage_peer :: "string \<Rightarrow> network \<Rightarrow> int \<Rightarrow> int \<Rightarrow> product \<Rightarrow> (int \<times> product) pres" where
  "stage_peer ident net lease now st =
     bind_res (check (1 \<le> lease \<and> lease \<le> 86400) (ProductValue ''invalid deployment'')) (\<lambda>_.
     bind_res (device_authorized ident now st) (\<lambda>(d, k, e).
     let expiry = min (now + lease) (en_expires e); previous = find_deployment ident st in
     bind_res (check (list_all snd (nw_addresses net)) (ProductValue ''device addresses must be host routes'')) (\<lambda>_.
     bind_res (check (case previous of None \<Rightarrow> True | Some p \<Rightarrow> dp_network p = net) (ProductValue ''topology changes require a separate migration'')) (\<lambda>_.
     bind_res (allocate_addresses ident (map fst (nw_addresses net)) (pd_allocations st)) (\<lambda>allocations.
     bind_res (check (case previous of None \<Rightarrow> True | Some p \<Rightarrow> \<not> expiry < dp_expires p) (ProductValue ''cannot shorten an existing deployment lease'')) (\<lambda>_.
     Inr (expiry, st\<lparr>pd_allocations := allocations,
       pd_deployments := (if previous = None then pd_deployments st @ [\<lparr>dp_device = ident, dp_network = net, dp_expires = expiry\<rparr>]
         else update_rows (\<lambda>p. dp_device p = ident) (\<lambda>p. p\<lparr>dp_expires := expiry\<rparr>) (pd_deployments st)),
       pd_jobs := fold (put_job ident (ky_public k)) (nw_gateways net) (pd_jobs st)\<rparr>)))))))"

definition require_ready :: "string \<Rightarrow> network \<Rightarrow> int \<Rightarrow> product \<Rightarrow> int pres" where
  "require_ready ident net now st =
     (let jobs = filter (\<lambda>j. jb_device j = ident) (pd_jobs st) in
      case find_deployment ident st of
        None \<Rightarrow> Inl (ProvisioningRejected ''gateway deployment not ready'')
      | Some p \<Rightarrow>
          bind_res (check (now < dp_expires p \<and> dp_network p = net \<and> jobs \<noteq> [] \<and> jb_gateway ` set jobs = set (nw_gateways net) \<and>
            list_all (\<lambda>j. jb_desired j \<and> jb_applied j = Some True \<and> \<not> jb_error j) jobs) (ProvisioningRejected ''gateway deployment not ready'')) (\<lambda>_.
          Inr (dp_expires p)))"

definition settle_job :: "bool \<Rightarrow> int \<Rightarrow> nat \<Rightarrow> job \<Rightarrow> job" where
  "settle_job works now attempts j =
     (if works then j\<lparr>jb_applied := Some (jb_desired j), jb_attempts := 0, jb_retry := 0, jb_checked := Some now, jb_error := False\<rparr>
      else j\<lparr>jb_applied := None, jb_attempts := attempts, jb_retry := now + min 300 (2 ^ attempts), jb_error := True\<rparr>)"

definition job_active :: "string \<Rightarrow> int \<Rightarrow> product \<Rightarrow> bool" where
  "job_active ident now st \<longleftrightarrow> is_ok (device_authorized ident now st) \<and> (case find_deployment ident st of None \<Rightarrow> False | Some p \<Rightarrow> now < dp_expires p)"

text \<open>One job of the queue, and the status it reports; \<open>works\<close> tells whether the adapter of the gateway succeeded.\<close>

definition reconcile_job :: "bool \<Rightarrow> int \<Rightarrow> string \<times> string \<Rightarrow> product \<Rightarrow> (string option \<times> product) pres" where
  "reconcile_job works now = (\<lambda>(ident, gateway) st.
     let st1 = (if job_active ident now st then st else gateway_revoke ident st);
         same = (\<lambda>j. jb_device j = ident \<and> jb_gateway j = gateway) in
     bind_res (check (\<not> (is_ok (device_authorized ident now st) \<and> find_deployment ident st = None)) (ProductPy ''TypeError'')) (\<lambda>_.
     case row same (pd_jobs st1) of
       None \<Rightarrow> Inl (ProductPy ''TypeError'')
     | Some j \<Rightarrow>
         if now < jb_retry j then Inr (None, st1)
         else (case find_deployment ident st of
             None \<Rightarrow> Inl (ProductPy ''TypeError'')
           | Some p \<Rightarrow>
               bind_res (check (gateway \<in> set (nw_gateways (dp_network p))) (ProductPy ''StopIteration'')) (\<lambda>_.
               Inr (Some (if works then (if jb_desired j then ''present'' else ''absent'') else ''retry''),
                 st1\<lparr>pd_jobs := update_rows same (settle_job works now (min (jb_attempts j + 1) 10)) (pd_jobs st1)\<rparr>)))))"

text \<open>One pass over the queue; every job is a transaction of its own, and an unexpected exception ends the pass.\<close>

fun reconcile_all :: "(string \<times> string \<Rightarrow> bool) \<Rightarrow> (string \<times> string \<Rightarrow> int) \<Rightarrow> (string \<times> string) list \<Rightarrow> ((string \<times> string) \<times> string) list \<Rightarrow>
    product \<Rightarrow> ((string \<times> string) \<times> string) list pres \<times> product" where
  "reconcile_all works clock [] results st = (Inr results, st)"
| "reconcile_all works clock (s # ss) results st = (case reconcile_job (works s) (clock s) s st of
     Inl e \<Rightarrow> (Inl e, st)
   | Inr (status, st') \<Rightarrow> reconcile_all works clock ss (results @ (case status of None \<Rightarrow> [] | Some v \<Rightarrow> [(s, v)])) st')"

definition run_once :: "(string \<times> string \<Rightarrow> bool) \<Rightarrow> (string \<times> string \<Rightarrow> int) \<Rightarrow> product \<Rightarrow> ((string \<times> string) \<times> string) list pres \<times> product" where
  "run_once works clock st = reconcile_all works clock (sort (map (\<lambda>j. (jb_device j, jb_gateway j)) (pd_jobs st))) [] st"

section \<open>Provisioning\<close>

definition fetch_audience :: string where "fetch_audience = ''family-connect/provisioning-fetch/v1''"

definition fetch_message :: "string \<Rightarrow> string \<Rightarrow> string \<Rightarrow> string" where
  "fetch_message public wg challenge = fetch_audience @ [byte_char 0] @ dumps (JObj
     [(''audience'', JStr fetch_audience), (''challenge'', JStr challenge), (''public_identity'', JStr public), (''schema_version'', JInt 1),
      (''wireguard_public_key'', JStr wg)])"

text \<open>The three fields every fetch proof binds.\<close>

definition fetch_binding :: "json \<Rightarrow> json \<Rightarrow> json \<Rightarrow> (string, string \<times> string \<times> string) res" where
  "fetch_binding public wg challenge =
     bind_res (decode_value 64 public) (\<lambda>_.
     bind_res (decode_value 32 wg) (\<lambda>_.
     bind_res (decode_value 32 challenge) (\<lambda>_.
     case (public, wg, challenge) of (JStr p, JStr w, JStr c) \<Rightarrow> Inr (p, w, c) | _ \<Rightarrow> Inl ''invalid public field'')))"

definition verify_fetch :: "product_env \<Rightarrow> json \<Rightarrow> (string, string) res" where
  "verify_fetch env p = (case p of
     JObj d \<Rightarrow>
       bind_res (check (set (map fst d) = {''schema_version'', ''audience'', ''public_identity'', ''wireguard_public_key'', ''challenge'', ''signature''} \<and>
         get_field d ''schema_version'' = JInt 1 \<and> get_field d ''audience'' = JStr fetch_audience) ''invalid fetch proof'') (\<lambda>_.
       bind_res (fetch_binding (get_field d ''public_identity'') (get_field d ''wireguard_public_key'') (get_field d ''challenge'')) (\<lambda>(pub, wg, c).
       bind_res (decode_field 64 pub) (\<lambda>raw.
       bind_res (decode_value 64 (get_field d ''signature'')) (\<lambda>signature.
       bind_res (check (pe_validates env raw signature (fetch_message pub wg c)) ''invalid fetch proof'') (\<lambda>_.
       Inr (bytes_hex (pe_ident env raw)))))))
   | _ \<Rightarrow> Inl ''invalid fetch proof'')"

definition latest_version :: "string \<Rightarrow> product \<Rightarrow> version option" where
  "latest_version ident st =
     (let own = filter (\<lambda>v. pv_device v = ident) (pd_versions st) in row (\<lambda>v. pv_revision v = Max (set (map pv_revision own))) own)"

definition publish :: "string \<Rightarrow> network \<Rightarrow> int \<Rightarrow> string \<Rightarrow> int \<Rightarrow> product \<Rightarrow> (int \<times> int \<times> product) pres" where
  "publish ident net lease envelope now st =
     bind_res (check (1 \<le> lease \<and> lease \<le> 86400) (ProductValue ''invalid publication parameters'')) (\<lambda>_.
     bind_res (device_authorized ident now st) (\<lambda>(d, k, e).
     let own = filter (\<lambda>v. pv_device v = ident) (pd_versions st) in
     bind_res (check (\<forall>v\<in>set own. \<not> now < pv_issued v) (ProvisioningRejected ''server clock moved backwards'')) (\<lambda>_.
     bind_res (require_ready ident net now st) (\<lambda>ready.
     let revision = (if own = [] then 0 else Max (set (map pv_revision own))) + 1; expires = min (min (now + lease) (en_expires e)) ready in
     Inr (revision, expires, st\<lparr>pd_versions := pd_versions st @ [\<lparr>pv_device = ident, pv_revision = revision, pv_entitlement = en_id e,
       pv_ent_revision = en_revision e, pv_wg = ky_public k, pv_issued = now, pv_expires = expires, pv_envelope = envelope\<rparr>]\<rparr>)))))"

definition fetch_challenge_op :: "product_env \<Rightarrow> json \<Rightarrow> json \<Rightarrow> string \<Rightarrow> int \<Rightarrow> product \<Rightarrow> (string \<times> int \<times> product) pres" where
  "fetch_challenge_op env public wg random now st =
     bind_res (map_err (\<lambda>_. ProvisioningRejected ''provisioning rejected'') (bind_res (public_field 64 public) (\<lambda>pub.
       bind_res (public_field 32 wg) (\<lambda>key. Inr (pub, key))))) (\<lambda>(pub, key).
     let ident = bytes_hex (pe_ident env (the (b64decode pub))); nonce = b64encode random in
     bind_res (device_authorized ident now st) (\<lambda>(d, k, e).
     bind_res (check (dv_public d = pub \<and> ky_public k = key) (ProvisioningRejected ''provisioning rejected'')) (\<lambda>_.
     bind_res (check (count_rows (\<lambda>c. fc_device c = ident \<and> now < fc_expires c \<and> fc_consumed c = None) (pd_fetches st) < 16)
       (ProvisioningRejected ''provisioning rejected'')) (\<lambda>_.
     let expiry = min (now + 120) (en_expires e) in
     bind_res (check (hash_of env nonce \<notin> fc_hash ` set (pd_fetches st)) IntegrityError) (\<lambda>_.
     Inr (nonce, expiry, st\<lparr>pd_fetches := pd_fetches st @ [\<lparr>fc_hash = hash_of env nonce, fc_device = ident, fc_public = pub, fc_wg = key,
       fc_expires = expiry, fc_consumed = None\<rparr>]\<rparr>))))))"

text \<open>The checks of a fetch on its challenge, and on the latest version.\<close>

definition fetch_open :: "product_env \<Rightarrow> json \<Rightarrow> string \<Rightarrow> device \<Rightarrow> transport_key \<Rightarrow> string \<Rightarrow> int \<Rightarrow> product \<Rightarrow> bool" where
  "fetch_open env p ident d k nonce now st = (case row (\<lambda>c. fc_hash c = nonce) (pd_fetches st) of
     None \<Rightarrow> False
   | Some c \<Rightarrow> fc_consumed c = None \<and> now < fc_expires c \<and> fc_device c = ident \<and> JStr (fc_public c) = proof_text p ''public_identity'' \<and>
       JStr (fc_wg c) = proof_text p ''wireguard_public_key'' \<and> JStr (dv_public d) = proof_text p ''public_identity'' \<and>
       JStr (ky_public k) = proof_text p ''wireguard_public_key'')"

definition version_current :: "version \<Rightarrow> transport_key \<Rightarrow> entitlement \<Rightarrow> int \<Rightarrow> bool" where
  "version_current v k e now \<longleftrightarrow> pv_issued v \<le> now \<and> now < pv_expires v \<and> pv_expires v \<le> en_expires e \<and> pv_entitlement v = en_id e \<and>
     pv_ent_revision v = en_revision e \<and> pv_wg v = ky_public k"

definition fetch_version :: "product_env \<Rightarrow> json \<Rightarrow> int \<Rightarrow> product \<Rightarrow> (string \<times> product) pres" where
  "fetch_version env p now st =
     bind_res (map_err (\<lambda>_. ProvisioningRejected ''provisioning rejected'') (verify_fetch env p)) (\<lambda>ident.
     bind_res (device_authorized ident now st) (\<lambda>(d, k, e).
     let nonce = hash_of env (case proof_text p ''challenge'' of JStr s \<Rightarrow> s | _ \<Rightarrow> []) in
     bind_res (check (fetch_open env p ident d k nonce now st) (ProvisioningRejected ''provisioning rejected'')) (\<lambda>_.
     case latest_version ident st of
       None \<Rightarrow> Inl (ProvisioningRejected ''provisioning rejected'')
     | Some v \<Rightarrow>
         bind_res (check (version_current v k e now) (ProvisioningRejected ''provisioning rejected'')) (\<lambda>_.
         case find_deployment ident st of
           None \<Rightarrow> Inl (ProvisioningRejected ''gateway deployment not ready'')
         | Some dep \<Rightarrow>
             bind_res (require_ready ident (dp_network dep) now st) (\<lambda>ready.
             bind_res (check (pv_expires v \<le> ready) (ProvisioningRejected ''gateway lease too short'')) (\<lambda>_.
             Inr (pv_envelope v, st\<lparr>pd_fetches := update_rows (\<lambda>c. fc_hash c = nonce) (\<lambda>c. c\<lparr>fc_consumed := Some now\<rparr>) (pd_fetches st)\<rparr>)))))))"

end
