(* ===== verification/Product_Store_Props.thy ===== *)
theory Product_Store_Props
  imports Product_Store
begin

text \<open>Enrollment keeps its limits, and a revocation is final for every later operation of the product plane.\<close>

section \<open>Steps\<close>

inductive product_step :: "product_env \<Rightarrow> product \<Rightarrow> product \<Rightarrow> bool" for env where
  step_entitlement: "create_entitlement now expires limit family ident st = Inr st' \<Longrightarrow> product_step env st st'"
| step_invitation: "create_invitation env ent now expires uses token ident st = Inr st' \<Longrightarrow> product_step env st st'"
| step_challenge: "enroll_challenge_op env token public wg random now st = Inr (nonce, expiry, st') \<Longrightarrow> product_step env st st'"
| step_enroll: "enroll env p key now st = Inr (ident, st') \<Longrightarrow> product_step env st st'"
| step_revoke_device: "product_step env st (revoke_device ident now st)"
| step_revoke_entitlement: "product_step env st (revoke_entitlement ident now st)"
| step_revoke_invitation: "product_step env st (revoke_invitation ident now st)"
| step_prune: "product_step env st (prune_challenges now st)"
| step_stage: "stage_peer ident net lease now st = Inr (expiry, st') \<Longrightarrow> product_step env st st'"
| step_run_once: "product_step env st (snd (run_once works clock st))"
| step_publish: "publish ident net lease envelope now st = Inr (revision, expires, st') \<Longrightarrow> product_step env st st'"
| step_fetch_challenge: "fetch_challenge_op env public wg random now st = Inr (nonce, expiry, st') \<Longrightarrow> product_step env st st'"
| step_fetch: "fetch_version env p now st = Inr (envelope, st') \<Longrightarrow> product_step env st st'"

section \<open>The invariant\<close>

text \<open>The limits of enrollment.\<close>

definition enrollment_ok :: "product \<Rightarrow> bool" where
  "enrollment_ok st \<longleftrightarrow> distinct (map en_id (pd_entitlements st)) \<and> dm_entitlement ` set (pd_members st) \<subseteq> en_id ` set (pd_entitlements st) \<and>
     (\<forall>e\<in>set (pd_entitlements st). occupied st (en_id e) \<le> en_limit e)"

definition invitations_ok :: "product \<Rightarrow> bool" where
  "invitations_ok st \<longleftrightarrow> distinct (map iv_id (pd_invitations st)) \<and> (\<forall>i\<in>set (pd_invitations st). 0 \<le> iv_uses i \<and> iv_uses i \<le> iv_max i)"

text \<open>The devices ever admitted to an entitlement, revoked ones included, and the uses counted by its invitations.\<close>

definition admitted :: "product \<Rightarrow> string \<Rightarrow> int" where
  "admitted st ent = count_rows (\<lambda>m. dm_entitlement m = ent) (pd_members st)"

definition uses_of :: "product \<Rightarrow> string \<Rightarrow> int" where
  "uses_of st ent = sum_list (map iv_uses (filter (\<lambda>i. iv_entitlement i = ent) (pd_invitations st)))"

definition uses_ok :: "product \<Rightarrow> bool" where
  "uses_ok st \<longleftrightarrow> (\<forall>ent. admitted st ent = uses_of st ent)"

definition devices_ok :: "product \<Rightarrow> bool" where
  "devices_ok st \<longleftrightarrow> distinct (map dv_id (pd_devices st)) \<and> distinct (map dv_public (pd_devices st)) \<and> distinct (map ky_public (pd_keys st)) \<and>
     distinct (map dm_device (pd_members st))"

definition revoked :: "product \<Rightarrow> string \<Rightarrow> bool" where
  "revoked st i \<longleftrightarrow> (\<exists>d. find_device i st = Some d \<and> dv_revoked d \<noteq> None)"

definition jobs_ok :: "product \<Rightarrow> bool" where
  "jobs_ok st \<longleftrightarrow> (\<forall>j\<in>set (pd_jobs st). revoked st (jb_device j) \<longrightarrow> \<not> jb_desired j)"

definition product_ok :: "product \<Rightarrow> bool" where
  "product_ok st \<longleftrightarrow> enrollment_ok st \<and> invitations_ok st \<and> uses_ok st \<and> devices_ok st \<and> jobs_ok st"

definition revocation_le :: "product \<Rightarrow> product \<Rightarrow> bool" where
  "revocation_le st st' \<longleftrightarrow> (\<forall>i. revoked st i \<longrightarrow> revoked st' i)"

text \<open>What a step leaves alone.\<close>

definition same_core :: "product \<Rightarrow> product \<Rightarrow> bool" where
  "same_core st st' \<longleftrightarrow> pd_entitlements st' = pd_entitlements st \<and> pd_invitations st' = pd_invitations st \<and> pd_devices st' = pd_devices st \<and>
     pd_members st' = pd_members st \<and> pd_keys st' = pd_keys st"

lemma same_devices:
  assumes "pd_devices st' = pd_devices st"
  shows "find_device i st' = find_device i st" "revoked st' i = revoked st i" "active_device st' i = active_device st i"
  by (simp_all add: assms find_device_def revoked_def active_device_def)

lemma same_core_ok: "same_core st st' \<Longrightarrow> product_ok st \<Longrightarrow> jobs_ok st' \<Longrightarrow> product_ok st'"
proof -
  assume c: "same_core st st'" and ok: "product_ok st" "jobs_ok st'"
  have "active_device st' = active_device st" by (intro ext same_devices(3)) (use c in \<open>simp add: same_core_def\<close>)
  with c ok show ?thesis by (simp add: same_core_def product_ok_def enrollment_ok_def invitations_ok_def uses_ok_def admitted_def uses_of_def devices_ok_def occupied_def)
qed

lemma same_core_le: "same_core st st' \<Longrightarrow> revocation_le st st'"
  unfolding same_core_def revocation_le_def using same_devices(2) by blast

lemma jobs_ok_less:
  assumes "jobs_ok st" "pd_devices st' = pd_devices st"
    "\<And>j. j \<in> set (pd_jobs st') \<Longrightarrow> jb_desired j \<Longrightarrow> \<exists>j0\<in>set (pd_jobs st). jb_device j0 = jb_device j \<and> jb_desired j0"
  shows "jobs_ok st'"
  using assms(1,3) same_devices(2) [OF assms(2)] unfolding jobs_ok_def by metis

lemma audit_simps [simp]: "pd_entitlements (audit ev s now st) = pd_entitlements st" "pd_invitations (audit ev s now st) = pd_invitations st"
  "pd_devices (audit ev s now st) = pd_devices st" "pd_members (audit ev s now st) = pd_members st" "pd_keys (audit ev s now st) = pd_keys st"
  "pd_jobs (audit ev s now st) = pd_jobs st"
  by (simp_all add: audit_def)

lemma gateway_revoke_simps [simp]: "pd_entitlements (gateway_revoke i st) = pd_entitlements st" "pd_invitations (gateway_revoke i st) = pd_invitations st"
  "pd_devices (gateway_revoke i st) = pd_devices st" "pd_members (gateway_revoke i st) = pd_members st" "pd_keys (gateway_revoke i st) = pd_keys st"
  "pd_deployments (gateway_revoke i st) = pd_deployments st"
  by (simp_all add: gateway_revoke_def)

lemma gateway_revoke_jobs:
  "j \<in> set (pd_jobs (gateway_revoke i st)) \<Longrightarrow> jb_desired j \<Longrightarrow> j \<in> set (pd_jobs st) \<and> jb_device j \<noteq> i"
  by (auto simp: gateway_revoke_def update_rows_def split: if_split_asm)

lemma gateway_revoke_keeps: "same_core st (gateway_revoke i st)" "jobs_ok st \<Longrightarrow> jobs_ok (gateway_revoke i st)"
  by (simp add: same_core_def) (rule jobs_ok_less, assumption, use gateway_revoke_jobs in auto)

section \<open>Enrolling\<close>

lemma row_update: "(\<And>x. q (f x) = q x) \<Longrightarrow> row q (update_rows p f xs) = map_option (\<lambda>x. if p x then f x else x) (row q xs)"
  by (induction xs) (auto simp: row_def update_rows_def)

lemma set_update_rows: "set (update_rows p f xs) = (\<lambda>x. if p x then f x else x) ` set xs"
  by (simp add: update_rows_def)

lemma add_device_Inr:
  assumes "add_device ident public wg ent key now st = Inr st'"
  shows "ident \<notin> dv_id ` set (pd_devices st)" "ident \<notin> dm_device ` set (pd_members st)"
    "\<And>i. find_device i st' = (if i = ident then Some \<lparr>dv_id = ident, dv_public = public, dv_created = now, dv_revoked = None\<rparr> else find_device i st)"
    "\<And>e. occupied st' e = occupied st e + (if e = ent then 1 else 0)"
    "devices_ok st \<Longrightarrow> devices_ok st'" "pd_members st' = pd_members st @ [\<lparr>dm_device = ident, dm_entitlement = ent, dm_joined = now\<rparr>]"
    "pd_entitlements st' = pd_entitlements st" "pd_invitations st' = pd_invitations st" "pd_jobs st' = pd_jobs st"
proof -
  have st': "st' = st\<lparr>pd_devices := pd_devices st @ [\<lparr>dv_id = ident, dv_public = public, dv_created = now, dv_revoked = None\<rparr>],
       pd_members := pd_members st @ [\<lparr>dm_device = ident, dm_entitlement = ent, dm_joined = now\<rparr>],
       pd_keys := pd_keys st @ [\<lparr>ky_id = key, ky_device = ident, ky_public = wg, ky_registered = now, ky_revoked = None\<rparr>]\<rparr>"
    and new: "ident \<notin> dv_id ` set (pd_devices st)" "public \<notin> dv_public ` set (pd_devices st)" "ident \<notin> dm_device ` set (pd_members st)"
      "wg \<notin> ky_public ` set (pd_keys st)"
    using assms by (auto simp: add_device_def)
  show "ident \<notin> dv_id ` set (pd_devices st)" "ident \<notin> dm_device ` set (pd_members st)" using new by simp_all
  have "row (\<lambda>d. dv_id d = ident) (pd_devices st) = None" using new(1) by (auto simp: row_None_iff)
  then show find: "find_device i st' = (if i = ident then Some \<lparr>dv_id = ident, dv_public = public, dv_created = now, dv_revoked = None\<rparr> else find_device i st)" for i
    by (auto simp: find_device_def st' row_append split: option.split)
  have act: "active_device st' i = (i = ident \<or> active_device st i)" for i using new(1) by (auto simp: active_device_def find split: option.split dest: row_Some_iff)
  have "filter (\<lambda>m. dm_entitlement m = e \<and> active_device st' (dm_device m)) (pd_members st) =
      filter (\<lambda>m. dm_entitlement m = e \<and> active_device st (dm_device m)) (pd_members st)" for e
    using new(3) by (intro filter_cong) (auto simp: act)
  then show "occupied st' e = occupied st e + (if e = ent then 1 else 0)" for e
    by (simp add: occupied_def count_rows_def st') (simp add: act [unfolded st'] st')
  show "devices_ok st \<Longrightarrow> devices_ok st'" using new by (simp add: devices_ok_def st')
  show "pd_members st' = pd_members st @ [\<lparr>dm_device = ident, dm_entitlement = ent, dm_joined = now\<rparr>]"
    "pd_entitlements st' = pd_entitlements st" "pd_invitations st' = pd_invitations st" "pd_jobs st' = pd_jobs st" by (simp_all add: st')
qed

definition keeps :: "product \<Rightarrow> product \<Rightarrow> bool" where
  "keeps st st' \<longleftrightarrow> (product_ok st \<longrightarrow> product_ok st') \<and> (product_ok st \<longrightarrow> revocation_le st st')"

lemma keeps_core: "same_core st st' \<Longrightarrow> (jobs_ok st \<Longrightarrow> jobs_ok st') \<Longrightarrow> keeps st st'"
  using same_core_ok same_core_le unfolding keeps_def by (metis product_ok_def)

lemma keeps_frame: "same_core st st' \<Longrightarrow> pd_jobs st' = pd_jobs st \<Longrightarrow> keeps st st'"
  by (rule keeps_core, assumption, rule jobs_ok_less) (auto simp: same_core_def)

lemma keeps_trans: "keeps a b \<Longrightarrow> keeps b c \<Longrightarrow> keeps a c"
  unfolding keeps_def revocation_le_def by blast

lemma find_device_id: "find_device i st = Some d \<Longrightarrow> dv_id d = i"
  by (auto simp: find_device_def dest: row_Some_iff)

lemma live_entitlement_Inr: "live_entitlement i now st = Inr e \<Longrightarrow> e \<in> set (pd_entitlements st) \<and> en_id e = i"
  by (auto simp: live_entitlement_def dest: row_Some_iff)

lemma valid_invitation_Inr:
  "valid_invitation (row p (pd_invitations st)) now st = Inr (i, e) \<Longrightarrow> i \<in> set (pd_invitations st) \<and> iv_uses i < iv_max i \<and> e \<in> set (pd_entitlements st)"
  "valid_invitation (row p (pd_invitations st)) now st = Inr (i, e) \<Longrightarrow> en_id e = iv_entitlement i"
  by (auto simp: valid_invitation_def split: option.split_asm dest: row_Some_iff live_entitlement_Inr)

lemma same_key: "distinct (map f xs) \<Longrightarrow> x \<in> set xs \<Longrightarrow> y \<in> set xs \<Longrightarrow> f x = f y \<Longrightarrow> x = y"
  by (simp add: distinct_map inj_on_def)

lemma enroll_Inr:
  assumes "enroll env p key now st = Inr (ident, st')"
  shows "\<exists>nonce c i e st1. public_field 32 (proof_text p ''challenge'') = Inr nonce \<and>
    verify_transport_key_proof (pe_ident env) (pe_validates env) p (JStr nonce) enrollment_audience = Inr ident \<and> open_challenge env nonce p now st = Inr c \<and>
    valid_invitation (row (\<lambda>i. iv_id i = ch_invitation c) (pd_invitations st)) now st = Inr (i, e) \<and> occupied st (en_id e) < en_limit e \<and>
    add_device ident (ch_public c) (ch_wg c) (en_id e) key now st = Inr st1 \<and> st' = use_invitation env nonce (iv_id i) ident now st1"
  using assms by (clarsimp simp: enroll_def)

lemma sum_update_rows:
  assumes "distinct (map f xs)" "x \<in> set xs" "\<And>y. q (g y) = q y" "\<And>y. w (g y) = w y + (1 :: int)"
  shows "sum_list (map w (filter q (update_rows (\<lambda>y. f y = f x) g xs))) = sum_list (map w (filter q xs)) + (if q x then 1 else 0)"
  using assms(1,2)
proof (induction xs)
  case (Cons a xs)
  show ?case
  proof (cases "a = x")
    case True
    with Cons.prems have "f y \<noteq> f x" if "y \<in> set xs" for y using that by (metis distinct.simps(2) imageI list.set_map list.simps(9))
    then have "update_rows (\<lambda>y. f y = f x) g xs = xs" by (simp add: update_rows_def map_idI)
    with True show ?thesis by (simp add: update_rows_def assms(3,4))
  next
    case False
    with Cons show ?thesis by (auto simp: update_rows_def)
  qed
qed simp

lemma enroll_keeps:
  assumes "enroll env p key now st = Inr (ident, st')"
  shows "keeps st st'"
  unfolding keeps_def
proof (intro conjI impI)
  obtain nonce c i e st1 where "open_challenge env nonce p now st = Inr c" and v: "valid_invitation (row (\<lambda>i. iv_id i = ch_invitation c) (pd_invitations st)) now st = Inr (i, e)"
    and room: "occupied st (en_id e) < en_limit e" and add: "add_device ident (ch_public c) (ch_wg c) (en_id e) key now st = Inr st1"
    and st': "st' = use_invitation env nonce (iv_id i) ident now st1"
    using enroll_Inr [OF assms] by blast
  have same: "pd_devices st' = pd_devices st1" "pd_members st' = pd_members st1" "pd_keys st' = pd_keys st1" "pd_entitlements st' = pd_entitlements st1"
    "pd_jobs st' = pd_jobs st1" and inv: "pd_invitations st' = update_rows (\<lambda>j. iv_id j = iv_id i) (\<lambda>j. j\<lparr>iv_uses := iv_uses j + 1\<rparr>) (pd_invitations st1)"
    by (simp_all add: st' use_invitation_def)
  note a = add_device_Inr [OF add] and v' = valid_invitation_Inr(1) [OF v]
  note dev = same_devices [OF same(1)]
  have occ: "occupied st' x = occupied st1 x" for x unfolding occupied_def dev same ..
  have rev: "revoked st' x \<longleftrightarrow> revoked st x \<and> x \<noteq> ident" for x unfolding dev(2) by (auto simp: revoked_def a(3))
  have not: "\<not> revoked st ident" using a(1) by (auto simp: revoked_def find_device_def dest: row_Some_iff)
  then show "revocation_le st st'" by (auto simp: revocation_le_def rev)
  assume ok: "product_ok st"
  have "enrollment_ok st'"
    unfolding enrollment_ok_def occ same a(4,6,7) using ok room v' same_key [of en_id "pd_entitlements st"]
    by (auto simp: product_ok_def enrollment_ok_def) (metis add_strict_right_mono less_irrefl linorder_not_less zle_add1_eq_le)
  moreover have "invitations_ok st'"
  proof -
    have "iv_uses j + 1 \<le> iv_max j" if "j \<in> set (pd_invitations st)" "iv_id j = iv_id i" for j
      using same_key [of iv_id "pd_invitations st" j i] ok that v' by (auto simp: product_ok_def invitations_ok_def)
    then show ?thesis using ok by (auto simp: invitations_ok_def product_ok_def inv a(8) map_update_rows set_update_rows)
  qed
  moreover have "uses_ok st'"
  proof -
    have d: "distinct (map iv_id (pd_invitations st))" using ok by (simp add: product_ok_def invitations_ok_def)
    have "uses_of st' ent = uses_of st ent + (if iv_entitlement i = ent then 1 else 0)" for ent
      unfolding uses_of_def inv a(8) by (rule sum_update_rows) (use d v' in simp_all)
    moreover have "admitted st' ent = admitted st ent + (if en_id e = ent then 1 else 0)" for ent
      by (simp add: admitted_def same a(6) count_rows_def)
    ultimately show ?thesis using ok valid_invitation_Inr(2) [OF v] by (simp add: product_ok_def uses_ok_def)
  qed
  moreover have "devices_ok st'" using a(5) ok by (simp add: product_ok_def devices_ok_def same)
  moreover have "jobs_ok st'" using ok by (simp add: product_ok_def jobs_ok_def same a(9) rev)
  ultimately show "product_ok st'" by (simp add: product_ok_def)
qed

section \<open>The other operations\<close>

lemma create_entitlement_keeps:
  assumes "create_entitlement now expires limit family ident st = Inr st'"
  shows "keeps st st'"
proof -
  obtain e where e: "pd_entitlements st' = pd_entitlements st @ [e]" "en_id e = ident" "en_id e \<notin> en_id ` set (pd_entitlements st)" "1 \<le> en_limit e"
    and same: "pd_devices st' = pd_devices st" "pd_members st' = pd_members st" "pd_keys st' = pd_keys st" "pd_invitations st' = pd_invitations st" "pd_jobs st' = pd_jobs st"
    using assms by (auto simp: create_entitlement_def)
  note dev = same_devices [OF same(1)]
  have occ: "occupied st' x = occupied st x" for x unfolding occupied_def dev same ..
  have "occupied st ident = 0" if "dm_entitlement ` set (pd_members st) \<subseteq> en_id ` set (pd_entitlements st)"
  proof -
    have "dm_entitlement m \<noteq> ident" if "m \<in> set (pd_members st)" for m using that \<open>dm_entitlement ` set (pd_members st) \<subseteq> _\<close> e(2,3) by blast
    then show ?thesis by (simp add: occupied_def count_rows_def filter_empty_conv)
  qed
  then show ?thesis unfolding keeps_def product_ok_def
    by (auto simp: enrollment_ok_def invitations_ok_def uses_ok_def admitted_def uses_of_def devices_ok_def jobs_ok_def revocation_le_def occ e same dev(2))
      (use e in auto)
qed

lemma invitations_keeps:
  assumes "pd_entitlements st' = pd_entitlements st" "pd_devices st' = pd_devices st" "pd_members st' = pd_members st" "pd_keys st' = pd_keys st"
    "pd_jobs st' = pd_jobs st" "invitations_ok st \<Longrightarrow> invitations_ok st'" "\<And>ent. uses_of st' ent = uses_of st ent"
  shows "keeps st st'"
proof -
  note dev = same_devices [OF assms(2)]
  have "occupied st' x = occupied st x" for x unfolding occupied_def dev assms ..
  then show ?thesis using assms(6)
    by (auto simp: keeps_def product_ok_def enrollment_ok_def devices_ok_def uses_ok_def admitted_def assms(7) jobs_ok_def revocation_le_def dev(2) assms(1-5))
qed

lemma create_invitation_keeps:
  assumes "create_invitation env ent now expires uses token ident st = Inr st'"
  shows "keeps st st'"
proof (rule invitations_keeps)
  show "invitations_ok st \<Longrightarrow> invitations_ok st'" using assms by (auto simp: create_invitation_def invitations_ok_def)
qed (use assms in \<open>auto simp: create_invitation_def uses_of_def\<close>)

lemma uses_update_rows:
  assumes "\<And>y. q (g y) = q y" "\<And>y. w (g y) = (w y :: int)"
  shows "sum_list (map w (filter q (update_rows p g xs))) = sum_list (map w (filter q xs))"
  by (induction xs) (auto simp: update_rows_def assms)

lemma revoke_invitation_keeps: "keeps st (revoke_invitation ident now st)"
  by (rule invitations_keeps) (auto simp: revoke_invitation_def Let_def invitations_ok_def map_update_rows set_update_rows uses_of_def uses_update_rows)

lemma revoke_device_keeps: "keeps st (revoke_device ident now st)"
proof -
  let ?st = "revoke_device ident now st"
  have same: "pd_members ?st = pd_members st" "pd_entitlements ?st = pd_entitlements st" "pd_invitations ?st = pd_invitations st"
    by (simp_all add: revoke_device_def Let_def)
  have find: "find_device i ?st = map_option (\<lambda>d. if dv_id d = ident \<and> dv_revoked d = None then d\<lparr>dv_revoked := Some now\<rparr> else d) (find_device i st)" for i
    by (simp add: revoke_device_def Let_def find_device_def row_update)
  have act: "active_device ?st i \<Longrightarrow> active_device st i" for i by (auto simp: active_device_def find split: option.split_asm if_split_asm)
  have occ: "occupied ?st e \<le> occupied st e" for e unfolding occupied_def same by (rule count_rows_mono) (auto dest: act)
  have rev: "revoked ?st i" if "revoked st i" for i
  proof -
    from that obtain d where d: "find_device i st = Some d" "dv_revoked d \<noteq> None" unfolding revoked_def by blast
    then have "find_device i ?st = Some d" by (simp add: find)
    with d show ?thesis unfolding revoked_def by blast
  qed
  have old: "revoked ?st i \<Longrightarrow> i \<noteq> ident \<Longrightarrow> revoked st i" for i
    by (auto simp: revoked_def find dest: find_device_id split: if_split_asm)
  have "devices_ok st \<Longrightarrow> devices_ok ?st" by (simp add: devices_ok_def revoke_device_def Let_def map_update_rows)
  moreover have "enrollment_ok st \<Longrightarrow> enrollment_ok ?st" unfolding enrollment_ok_def same using occ order_trans by blast
  moreover have "jobs_ok ?st" if "jobs_ok st"
  proof -
    have "j \<in> set (pd_jobs st) \<and> jb_device j \<noteq> ident" if "j \<in> set (pd_jobs ?st)" "jb_desired j" for j
      using gateway_revoke_jobs that by (fastforce simp: revoke_device_def Let_def split: if_split_asm)
    with that old show ?thesis unfolding jobs_ok_def by blast
  qed
  moreover have "invitations_ok st \<Longrightarrow> invitations_ok ?st" "uses_ok st \<Longrightarrow> uses_ok ?st"
    by (simp_all add: invitations_ok_def uses_ok_def admitted_def uses_of_def same)
  ultimately show ?thesis using rev unfolding keeps_def product_ok_def revocation_le_def by blast
qed

lemma audit_keeps: "keeps st (audit ev s now st)"
  by (rule keeps_frame) (simp_all add: same_core_def)

lemma gateway_revoke_keep: "keeps st (gateway_revoke i st)"
  using gateway_revoke_keeps by (rule keeps_core)

lemma keeps_refl: "keeps st st"
  by (simp add: keeps_def revocation_le_def)

lemma fold_gateway_revoke: "keeps st (fold gateway_revoke ids st)"
  by (induction ids arbitrary: st) (auto simp: keeps_refl intro: keeps_trans gateway_revoke_keep)

lemma end_entitlement_keeps:
  "keeps st (st\<lparr>pd_entitlements := update_rows p (\<lambda>e. e\<lparr>en_revoked := Some now, en_revision := en_revision e + 1\<rparr>) (pd_entitlements st)\<rparr>)"
  (is "keeps st ?st")
proof -
  have dev: "revoked ?st i = revoked st i" "active_device ?st i = active_device st i" for i by (simp_all add: same_devices [of ?st st])
  have occ: "occupied ?st x = occupied st x" for x by (simp add: occupied_def dev)
  have "map en_id (pd_entitlements ?st) = map en_id (pd_entitlements st)" by (simp add: map_update_rows)
  then have "en_id ` set (pd_entitlements ?st) = en_id ` set (pd_entitlements st)" by (metis list.set_map)
  then have "enrollment_ok st \<Longrightarrow> enrollment_ok ?st"
    unfolding enrollment_ok_def occ by (auto simp: map_update_rows set_update_rows)
  then show ?thesis by (simp add: keeps_def product_ok_def invitations_ok_def uses_ok_def admitted_def uses_of_def devices_ok_def jobs_ok_def revocation_le_def dev)
qed

lemma revoke_entitlement_keeps: "keeps st (revoke_entitlement ident now st)"
  unfolding revoke_entitlement_def Let_def
  by (auto intro!: keeps_trans [OF _ audit_keeps] keeps_trans [OF end_entitlement_keeps fold_gateway_revoke])

lemma authorized_active: "device_authorized ident now st = Inr (d, k, e) \<Longrightarrow> find_device ident st = Some d \<and> dv_revoked d = None"
  by (auto simp: device_authorized_def split: option.split_asm)

lemma put_job_jobs: "j \<in> set (put_job ident public gateway t) \<Longrightarrow> j \<in> set t \<or> jb_device j = ident"
  by (auto simp: put_job_def Let_def set_update_rows split: if_split_asm)

lemma fold_put_job_jobs: "j \<in> set (fold (put_job ident public) gs t) \<Longrightarrow> j \<in> set t \<or> jb_device j = ident"
  by (induction gs arbitrary: t) (auto dest: put_job_jobs)

lemma stage_keeps:
  assumes "stage_peer ident net lease now st = Inr (expiry, st')"
  shows "keeps st st'"
proof (rule keeps_core)
  obtain d k e where a: "device_authorized ident now st = Inr (d, k, e)" and core: "same_core st st'"
    and jobs: "pd_jobs st' = fold (put_job ident (ky_public k)) (nw_gateways net) (pd_jobs st)"
    using assms by (auto simp: stage_peer_def Let_def same_core_def)
  show "same_core st st'" by (rule core)
  have dev: "pd_devices st' = pd_devices st" using core by (simp add: same_core_def)
  have not: "\<not> revoked st ident" using authorized_active [OF a] by (auto simp: revoked_def)
  assume "jobs_ok st"
  with not show "jobs_ok st'" unfolding jobs_ok_def jobs same_devices(2) [OF dev] using fold_put_job_jobs by blast
qed

lemma reconcile_job_Inr:
  assumes "reconcile_job works now (ident, gateway) st = Inr (status, st')"
  defines "st1 \<equiv> if job_active ident now st then st else gateway_revoke ident st"
  shows "st' = st1 \<or> (\<exists>a. st' = st1\<lparr>pd_jobs := update_rows (\<lambda>j. jb_device j = ident \<and> jb_gateway j = gateway) (settle_job works now a) (pd_jobs st1)\<rparr>)"
  using assms(1) unfolding reconcile_job_def Let_def prod.case st1_def [symmetric] by (auto split: if_split_asm)

lemma reconcile_job_keeps:
  assumes "reconcile_job works now (ident, gateway) st = Inr (status, st')"
  shows "keeps st st'"
proof -
  define st1 where "st1 = (if job_active ident now st then st else gateway_revoke ident st)"
  have one: "keeps st st1" by (simp add: st1_def keeps_refl gateway_revoke_keep)
  from reconcile_job_Inr [OF assms, folded st1_def] show ?thesis
  proof (elim disjE exE)
    fix a assume st': "st' = st1\<lparr>pd_jobs := update_rows (\<lambda>j. jb_device j = ident \<and> jb_gateway j = gateway) (settle_job works now a) (pd_jobs st1)\<rparr>"
    have "keeps st1 st'" unfolding st'
      by (rule keeps_core, simp add: same_core_def, rule jobs_ok_less, assumption)
        (auto simp: set_update_rows settle_job_def split: if_split_asm)
    with one show ?thesis by (rule keeps_trans)
  qed (use one in simp)
qed

lemma reconcile_all_keeps: "keeps st (snd (reconcile_all works clock ss results st))"
proof (induction ss arbitrary: results st)
  case (Cons s ss)
  show ?case
  proof (cases "reconcile_job (works s) (clock s) s st")
    case (Inl e)
    then show ?thesis by (simp add: keeps_refl)
  next
    case (Inr x)
    then obtain status st1 where x: "reconcile_job (works s) (clock s) s st = Inr (status, st1)" by (cases x) simp
    then have "keeps st st1" using reconcile_job_keeps by (cases s) blast
    then show ?thesis using keeps_trans Cons.IH x by simp
  qed
qed (simp add: keeps_refl)

section \<open>Properties\<close>

lemma product_step_keeps: "product_step env st st' \<Longrightarrow> keeps st st'"
proof (induction rule: product_step.induct)
  case (step_run_once st works clock)
  then show ?case by (simp add: run_once_def reconcile_all_keeps)
next
  case (step_challenge token public wg random now st nonce expiry st')
  then show ?case by (intro keeps_frame) (auto simp: enroll_challenge_op_def same_core_def Let_def)
next
  case (step_prune st now)
  then show ?case by (intro keeps_frame) (auto simp: prune_challenges_def same_core_def)
next
  case (step_publish ident net lease envelope now st revision expires st')
  then show ?case by (intro keeps_frame) (auto simp: publish_def same_core_def Let_def)
next
  case (step_fetch_challenge public wg random now st nonce expiry st')
  then show ?case by (intro keeps_frame) (auto simp: fetch_challenge_op_def same_core_def Let_def)
next
  case (step_fetch p now st envelope st')
  then show ?case by (intro keeps_frame) (auto simp: fetch_version_def same_core_def Let_def split: option.split_asm)
qed (auto intro: create_entitlement_keeps create_invitation_keeps enroll_keeps revoke_device_keeps revoke_entitlement_keeps revoke_invitation_keeps stage_keeps)

lemma empty_product_ok: "product_ok empty_product"
  by (simp add: product_ok_def enrollment_ok_def invitations_ok_def uses_ok_def admitted_def uses_of_def count_rows_def devices_ok_def jobs_ok_def empty_product_def)

interpretation prd: progress_system "\<lambda>st. st = empty_product" "product_step env" product_ok revocation_le for env
proof unfold_locales
  show "s = empty_product \<Longrightarrow> product_ok s" for s by (simp add: empty_product_ok)
  show "product_ok s \<Longrightarrow> product_step env s t \<Longrightarrow> product_ok t" for s t using product_step_keeps [of env s t] by (simp add: keeps_def)
  show "revocation_le s s" for s by (simp add: revocation_le_def)
  show "revocation_le s t \<Longrightarrow> revocation_le t u \<Longrightarrow> revocation_le s u" for s t u by (simp add: revocation_le_def)
  show "product_ok s \<Longrightarrow> product_step env s t \<Longrightarrow> revocation_le s t" for s t using product_step_keeps [of env s t] by (simp add: keeps_def)
qed

text \<open>C39. Whatever devices and operators do, every entitlement has at most its limit of active devices, an invitation is used at most as
  often as it allows, the devices ever admitted to an entitlement are as many as the uses its invitations count, and no identity, public key or transport key is ever enrolled twice.\<close>

theorem enrollment_is_bounded:
  assumes "reach (\<lambda>st. st = empty_product) (product_step env) st"
  shows "(\<forall>e. e \<in> set (pd_entitlements st) \<longrightarrow> occupied st (en_id e) \<le> en_limit e) \<and> (\<forall>i. i \<in> set (pd_invitations st) \<longrightarrow> iv_uses i \<le> iv_max i) \<and>
    (\<forall>ent. admitted st ent = uses_of st ent) \<and>
    distinct (map dv_id (pd_devices st)) \<and> distinct (map dv_public (pd_devices st)) \<and> distinct (map ky_public (pd_keys st))"
  using prd.reach_inv [OF assms] unfolding product_ok_def enrollment_ok_def invitations_ok_def uses_ok_def devices_ok_def by blast

text \<open>C40. A revoked device stays out for good: in every later state it is not authorized, gets no configuration, cannot
  enroll again under its identity, and every gateway is told to remove its peer.\<close>

theorem revocation_is_final:
  assumes "reach (\<lambda>st. st = empty_product) (product_step env) st" "find_device i st = Some d" "dv_revoked d \<noteq> None" "steps (product_step env) st st'"
  shows "authorization i now st' = Inl EnrollmentRejected \<and>
    (verify_fetch env p = Inr i \<longrightarrow> fetch_version env p now st' = Inl (ProvisioningRejected ''provisioning rejected'')) \<and>
    (\<forall>x. enroll env q key now st' = Inr x \<longrightarrow> fst x \<noteq> i) \<and> (\<forall>j. j \<in> set (pd_jobs st') \<longrightarrow> jb_device j = i \<longrightarrow> \<not> jb_desired j)"
proof -
  have ok: "product_ok st" by (rule prd.reach_inv [OF assms(1)])
  have ok': "product_ok st'" by (rule prd.steps_inv [OF ok assms(4)])
  have "revoked st i" using assms(2,3) by (auto simp: revoked_def)
  then have rev: "revoked st' i" using prd.steps_le [OF assms(4) ok] by (simp add: revocation_le_def)
  then obtain d' where d': "find_device i st' = Some d'" "dv_revoked d' \<noteq> None" unfolding revoked_def by blast
  have "authorization i now st' = Inl EnrollmentRejected" using d' by (auto simp: authorization_def check_def split: option.split)
  moreover have "device_authorized i now st' = Inl (ProvisioningRejected ''provisioning rejected'')" using d' by (auto simp: device_authorized_def check_def split: option.split)
  then have "verify_fetch env p = Inr i \<longrightarrow> fetch_version env p now st' = Inl (ProvisioningRejected ''provisioning rejected'')" by (simp add: fetch_version_def)
  moreover have "fst x \<noteq> i" if x: "enroll env q key now st' = Inr x" for x
  proof -
    obtain ident st2 where e: "enroll env q key now st' = Inr (ident, st2)" "x = (ident, st2)" using x by (cases x) simp
    obtain c e st1 where "add_device ident (ch_public (c :: enroll_challenge)) (ch_wg c) (en_id (e :: entitlement)) key now st' = Inr st1"
      using enroll_Inr [OF e(1)] by blast
    from add_device_Inr(1) [OF this] d'(1) e(2) show ?thesis by (auto simp: find_device_def dest: row_Some_iff)
  qed
  ultimately show ?thesis using ok' rev unfolding product_ok_def jobs_ok_def by blast
qed

section \<open>One device\<close>

definition demo_penv :: product_env where
  "demo_penv = \<lparr>pe_sha256 = (\<lambda>s. take 3 s), pe_ident = (\<lambda>raw. take 2 raw), pe_validates = (\<lambda>_ _ _. True)\<rparr>"

definition demo_token :: string where "demo_token = replicate 64 (CHR ''a'')"
definition demo_pub :: string where "demo_pub = b64encode (replicate 64 (CHR ''a''))"
definition demo_wg :: string where "demo_wg = b64encode (replicate 32 (CHR ''b''))"

definition demo_proof :: json where
  "demo_proof = JObj [(''schema_version'', JInt 1), (''public_identity'', JStr demo_pub), (''wireguard_public_key'', JStr demo_wg),
     (''challenge'', JStr (b64encode (replicate 32 (CHR ''c'')))), (''audience'', JStr enrollment_audience), (''transport'', JStr ''wireguard''),
     (''signature'', JStr (b64encode (replicate 64 (CHR ''s''))))]"

definition demo_invited :: "product pres" where
  "demo_invited = bind_res (create_entitlement 10 1000 5 ''f'' ''e'' empty_product) (create_invitation demo_penv ''e'' 10 100 1 demo_token ''i'')"

definition demo_enrolled :: "(string \<times> product) pres" where
  "demo_enrolled = bind_res demo_invited (\<lambda>s2.
     bind_res (enroll_challenge_op demo_penv (JStr demo_token) (JStr demo_pub) (JStr demo_wg) (replicate 32 (CHR ''c'')) 11 s2) (\<lambda>(_, _, s3).
     enroll demo_penv demo_proof ''k'' 12 s3))"

definition demo_ident :: string where "demo_ident = bytes_hex (replicate 2 (CHR ''a''))"

lemma public_field_encode:
  assumes "length raw = n" "n \<le> 90" "raw \<noteq> replicate n (byte_char 0)"
  shows "public_field n (JStr (b64encode raw)) = Inr (b64encode raw)"
  using assms by (simp add: public_field_def b64decode_encode b64encode_length check_def)

lemma demo_fields: "public_field 64 (JStr demo_pub) = Inr demo_pub" "public_field 32 (JStr demo_wg) = Inr demo_wg"
  "public_field 32 (JStr (b64encode (replicate 32 (CHR ''c'')))) = Inr (b64encode (replicate 32 (CHR ''c'')))" "token_field (JStr demo_token) = Inr demo_token"
proof -
  have "byte_char 0 \<notin> {CHR ''a'', CHR ''b'', CHR ''c''}" by code_simp
  then have ne: "replicate 64 (CHR ''a'') \<noteq> replicate 64 (byte_char 0)" "replicate 32 (CHR ''b'') \<noteq> replicate 32 (byte_char 0)"
    "replicate 32 (CHR ''c'') \<noteq> replicate 32 (byte_char 0)" by (auto dest: arg_cong [where f = hd])
  show "public_field 64 (JStr demo_pub) = Inr demo_pub" "public_field 32 (JStr demo_wg) = Inr demo_wg"
    "public_field 32 (JStr (b64encode (replicate 32 (CHR ''c'')))) = Inr (b64encode (replicate 32 (CHR ''c'')))"
    unfolding demo_pub_def demo_wg_def using ne by (auto intro!: public_field_encode)
  show "token_field (JStr demo_token) = Inr demo_token" by (simp add: token_field_def demo_token_def check_def list_all_iff) (simp add: is_hex_def)
qed

lemma demo_verify:
  "verify_transport_key_proof (pe_ident demo_penv) (pe_validates demo_penv) demo_proof (JStr (b64encode (replicate 32 (CHR ''c'')))) enrollment_audience = Inr demo_ident"
  by (simp add: verify_transport_key_proof_def demo_proof_def proof_fields_def get_field_def transport_binding_of_def decode_value_def decode_field_encode
      demo_pub_def demo_wg_def demo_penv_def demo_ident_def check_def)

lemma demo_enrolled_device: "\<exists>st. demo_enrolled = Inr (demo_ident, st) \<and> active_device st demo_ident"
proof -
  have t: "proof_text demo_proof ''challenge'' = JStr (b64encode (replicate 32 (CHR ''c'')))" "proof_text demo_proof ''public_identity'' = JStr demo_pub"
    "proof_text demo_proof ''wireguard_public_key'' = JStr demo_wg" by (simp_all add: proof_text_def demo_proof_def get_field_def)
  show ?thesis
    by (simp add: demo_enrolled_def demo_invited_def create_entitlement_def create_invitation_def live_entitlement_def enroll_challenge_op_def enroll_def
        valid_invitation_def open_challenge_def add_device_def use_invitation_def audit_def empty_product_def occupied_def count_rows_def check_def Let_def
        demo_fields demo_verify t active_device_def find_device_def)
qed

lemma demo_enrolled_reach:
  obtains st where "demo_enrolled = Inr (demo_ident, st)" "reach (\<lambda>st. st = empty_product) (product_step demo_penv) st" "active_device st demo_ident"
proof -
  obtain st where st: "demo_enrolled = Inr (demo_ident, st)" "active_device st demo_ident" using demo_enrolled_device by blast
  obtain s1 s2 s3 n x where s: "create_entitlement 10 1000 5 ''f'' ''e'' empty_product = Inr s1"
    "create_invitation demo_penv ''e'' 10 100 1 demo_token ''i'' s1 = Inr s2"
    "enroll_challenge_op demo_penv (JStr demo_token) (JStr demo_pub) (JStr demo_wg) (replicate 32 (CHR ''c'')) 11 s2 = Inr (n, x, s3)"
    "enroll demo_penv demo_proof ''k'' 12 s3 = Inr (demo_ident, st)"
    using st(1) by (auto simp: demo_enrolled_def demo_invited_def)
  have "reach (\<lambda>st. st = empty_product) (product_step demo_penv) empty_product" by (rule reach_init) simp
  then have "reach (\<lambda>st. st = empty_product) (product_step demo_penv) s1" by (rule reach_step) (rule step_entitlement [OF s(1)])
  then have "reach (\<lambda>st. st = empty_product) (product_step demo_penv) s2" by (rule reach_step) (rule step_invitation [OF s(2)])
  then have "reach (\<lambda>st. st = empty_product) (product_step demo_penv) s3" by (rule reach_step) (rule step_challenge [OF s(3)])
  then have "reach (\<lambda>st. st = empty_product) (product_step demo_penv) st" by (rule reach_step) (rule step_enroll [OF s(4)])
  with that st show ?thesis by blast
qed

theorem enrollment_is_bounded_witness:
  "\<exists>st. demo_enrolled = Inr (demo_ident, st) \<and> distinct (map dv_id (pd_devices st)) \<and> (\<forall>i. i \<in> set (pd_invitations st) \<longrightarrow> iv_uses i \<le> iv_max i)"
proof -
  obtain st where st: "demo_enrolled = Inr (demo_ident, st)" "reach (\<lambda>st. st = empty_product) (product_step demo_penv) st" by (rule demo_enrolled_reach)
  from enrollment_is_bounded [OF st(2)] st(1) show ?thesis by blast
qed

theorem revocation_is_final_witness:
  "\<exists>st. demo_enrolled = Inr (demo_ident, st) \<and> authorization demo_ident 20 (prune_challenges 15 (revoke_device demo_ident 13 st)) = Inl EnrollmentRejected"
proof -
  obtain st where st: "demo_enrolled = Inr (demo_ident, st)" "reach (\<lambda>st. st = empty_product) (product_step demo_penv) st" "active_device st demo_ident"
    by (rule demo_enrolled_reach)
  let ?st = "revoke_device demo_ident 13 st"
  have r: "reach (\<lambda>st. st = empty_product) (product_step demo_penv) ?st" using st(2) by (rule reach_step) (rule step_revoke_device)
  obtain d where d: "find_device demo_ident st = Some d" "dv_revoked d = None" using st(3) by (auto simp: active_device_def split: option.split_asm)
  have "find_device demo_ident ?st = Some (d\<lparr>dv_revoked := Some 13\<rparr>)"
    using d find_device_id [OF d(1)] by (simp add: revoke_device_def Let_def find_device_def row_update)
  moreover have "steps (product_step demo_penv) ?st (prune_challenges 15 ?st)" by (rule step_steps) (rule step_prune)
  ultimately have "authorization demo_ident 20 (prune_challenges 15 ?st) = Inl EnrollmentRejected"
    using revocation_is_final [OF r, of demo_ident "d\<lparr>dv_revoked := Some 13\<rparr>" "prune_challenges 15 ?st" 20] by simp
  with st(1) show ?thesis by blast
qed

end
