(* ===== verification/Spec2Isabelle.thy ===== *)
theory Spec2Isabelle
  imports Fleet_Props Fleet_System_Example Auto_Policy_Example Rehearsal_Props
    Chat_Codec_Props Chat_Mailbox_Props Chat_Delivery_Props Product_Store_Props
begin

text \<open>
  A verification of the control plane, the Linux traffic guard, the fleet rehearsal and the messenger of
  family_connect.  Paths are relative to \<open>src/\<close>; the modelled sources are Python.

  \<^bold>\<open>The program.\<close>  Operators keep an inventory of gateways.  Devices prove that they own their keys and reserve
  leases of tunnel addresses in a durable store; a worker carries the leases out on the gateways, each of which has a
  journal of its own that fences stale commands.  A second plane enrolls devices by invitation and provisions them.
  On a client a root service confines all traffic with nftables while a policy process tries transports.  Gateways
  are first rehearsed on a disposable node under a signed permit.  The messenger keeps an encrypted history, exchanges
  ciphertexts through a bounded relay and shows the state of a subscription.

  \<^bold>\<open>Shared theories.\<close>  \<open>FC_Prelude\<close>: results \<open>'e + 'a\<close> with the error on the left, character classes and
  \<open>re.fullmatch\<close>, decimal texts, tables as lists of rows.  \<open>Py_Bytes\<close>, \<open>Json\<close>: base64, hex and \<open>json.dumps\<close> with the
  proof that the printed text fixes the value.  \<open>Wire\<close>: decoded JSON values, Python's equality on them, actions that
  change a state and may raise, and a Hoare logic with a postcondition for each outcome.  \<open>Assoc_Table\<close>: ordered keyed tables.
  \<open>Transition_Systems\<close>: the locales \<open>invariant_system\<close> and \<open>progress_system\<close>, which every stateful component interprets
  on its own initial states and steps; properties over all runs rest on those interpretations.  The two foreground workers of
  the messenger share the locale \<open>settling\<close> of \<open>Chat_Delivery_Props\<close>.

  \<^bold>\<open>Components.\<close>

  \<^item> Inventory and admission: \<open>Fleet_Registry\<close> (\<open>control/fleet.py\<close>) has the validated registry, the checks of an update
    and the ranking of gateways.  \<open>Fleet_Store\<close> (\<open>control/fleet_store.py\<close>) has the tables as a record \<open>fleet_db\<close> and one
    function per method, each a transaction that returns the new tables or an error.  \<open>Device_Proof\<close> and
    \<open>Fleet_Access\<close> (\<open>device_identity/device.py\<close>, \<open>control/fleet_access.py\<close>) gate a reservation by a signed proof.
    \<open>Fleet_Store_Inv\<close>, \<open>Fleet_Safety\<close>, \<open>Fleet_Machine\<close> and \<open>Fleet_Props\<close> show over all sequences of calls that live leases
    never share an address, that a lease in service is backed by access and an admitting gateway, and that
    leases only move forward.
  \<^item> Gateways: \<open>Fleet_Gateway\<close>, \<open>Fleet_Fence\<close> (\<open>control/fleet_gateway.py\<close>) and \<open>Fleet_Worker\<close> (\<open>control/fleet_worker.py\<close>,
    \<open>control/fleet_scheduler.py\<close>).  \<open>Fleet_System\<close> composes store, workers and gateways over a network that loses, repeats and
    delays commands and answers: a peer that may be installed belongs to a live lease, a gateway's journal never
    refuses a live lease, and a released lease stays removed.
  \<^item> Traffic guard: \<open>Auto_Guard\<close> (\<open>clients/linux/auto_guard.py\<close>) has policies, the nftables objects they stand for, the
    comparison with what the firewall reports and every operation over the journal.  \<open>Auto_Guard_Safety\<close> evaluates a
    packet by the base chains of a hook, their rules in order and then their policy, and shows exactly what each guard
    policy lets through; \<open>Auto_Guard_Journal\<close> and \<open>Auto_Guard_Ops\<close> show
    that a settled journal is enforced and that only a release opens the host, whatever fails half-way, and
    \<open>Auto_Guard_Recovery\<close> that a host whose recovery was itself interrupted stays as it is and refuses every operation from
    then on.  \<open>Auto_Policy\<close> (\<open>clients/linux/auto_policy.py\<close>) has the calls of the host and the reader and operator
    threads of the policy process, one step for each stretch between two points where another thread can intervene, with the
    flag \<open>stopping\<close> set before the lock is taken.  \<open>Auto_Policy_Host\<close> and \<open>Auto_Policy_Safety\<close> show what
    every answered call has established, account for tickets and calls, and show that a closed process leaves nobody
    waiting and the host blocked or released.
  \<^item> Rehearsal: \<open>Fleet_Contracts\<close> (\<open>fleet/contracts.py\<close>, \<open>fleet/permit.py\<close>, \<open>fleet/acceptance.py\<close>), \<open>Rehearsal\<close>,
    \<open>Rehearsal_Safety\<close>, \<open>Rehearsal_Node\<close>, \<open>Rehearsal_Props\<close> (\<open>fleet/rehearsal_state.py\<close>).  Over all operations and crashes an
    active node runs an accepted bundle, repeated requests are answered from the journal, a fenced node is final; two
    theorems show how the directory can end in a state no operation leaves.
  \<^item> Messenger: \<open>Chat_Codec\<close> (\<open>messenger/codec.py\<close>, \<open>messenger/notices.py\<close>), \<open>Chat_Subscription\<close>
    (\<open>messenger/subscription_view.py\<close>), \<open>Chat_Store\<close> (\<open>messenger/store.py\<close>), \<open>Chat_Relay\<close> (\<open>messenger/relay.py\<close>), \<open>Chat_Mailbox\<close>
    (\<open>messenger/chat.py\<close>, \<open>messenger/mailbox.py\<close>), \<open>Chat_Delivery\<close> (\<open>messenger/delivery.py\<close>, \<open>messenger/sync.py\<close>) and their
    \<open>_Props\<close> theories: fields survive being sent again, voice is bounded, the view and the messages only move forward,
    quotas hold, a sending attempt has one owner, the relay keeps members apart and bounds their rate, a ciphertext
    is purged only after it was stored so that no mail is lost, and deliveries are retried the allowed number of times.
  \<^item> Product plane: \<open>Product_Store\<close>, \<open>Product_Store_Props\<close> (\<open>control/product/store.py\<close>, \<open>control/product/gateways.py\<close>,
    \<open>control/product/provisioning.py\<close>, \<open>provisioning/auth.py\<close>): limits of entitlements and invitations hold, uses are counted for every device admitted, and a
    revoked device is never authorised, provisioned or enrolled again.

  \<^bold>\<open>Parameters and hypotheses.\<close>  SHA-256, signatures, RNS, LXMF, MessagePack, clocks, UUIDs, the firewall tool, gateway
  backends, the services of a rehearsal node and the outcome of writes to disk are arguments of the definitions.
  Where a property relies on one of them it says so in its hypotheses, and its witness instantiates them with a
  concrete function.  Tables are modelled with their UNIQUE, CHECK and foreign key constraints; a transaction that raises
  changes nothing.

  \<^bold>\<open>Bounds and fuel.\<close>  Every loop of the source that is modelled is structural recursion or has a termination proof.
  The only fuel is the 128 steps of \<open>last_place\<close>, which finds the unit in the last place of a double; its lemma shows that they
  are enough for every duration the codec computes.  The scheduler's loop runs at most \<open>limit\<close> times, as in the source.
  Integers that SQLite or the wire bound keep their bounds as checks; no modelled code wraps around.  Products of floats
  that are cut to an integer are rounded to doubles first; clock readings and the relay's token counts are exact reals.

  \<^bold>\<open>Not modelled.\<close>  File permissions, locks, fsync and opening of databases; sockets, threads and processes (the stretches of a
  thread between two points of interference are single steps); parsing of JSON texts; logging.  The Go transports, the Rust packet core, the Android,
  Windows and desktop applications, the Django console, the friends service, installers, pilots and scripts are outside this
  development: they are user interfaces, network I/O and orchestration around the parts above, or services of their own.
\<close>

end
